(* ===== verification/Prelude.thy ===== *)
theory Prelude
  imports Main "HOL-Library.Multiset" "HOL-Library.Char_ord" "HOL-Library.List_Lexorder"
    "HOL-Library.Product_Lexorder"
begin

section \<open>Prelude: the Go notions every component shares\<close>

text \<open>
  What every theory of the development uses: the types Go values are modelled by, panics as
  values, the clock, the two sorting routines of Go's package \<open>sort\<close>, and the generic lemmas on
  lists and maps the component proofs rest on.

  Strings are byte lists (\<open>string\<close>), ordered byte-wise as Go orders them (Char\_ord and
  List\_Lexorder). An instant of time is the number of nanoseconds since Go's zero
  \<open>time.Time\<close>, so the zero value is 0; the location and the monotonic reading of a Go time are not
  modelled. The generic slice and map helpers of \<open>samber/lo\<close> that the code calls
  (\<open>Filter\<close>, \<open>Map\<close>, \<open>Find\<close>, \<open>Contains\<close>, \<open>Ternary\<close>, \<open>Assign\<close>, ...) are written as the HOL list and map
  functions of the same documented contract (\<open>filter\<close>, \<open>map\<close>, \<open>find\<close>, membership,
  \<open>if\<close>, \<open>++\<close>, ...).
\<close>

named_theorems go_simps "unfolding of the small wrappers of the source"

type_synonym go_time = int
type_synonym duration = int
type_synonym strmap = "string \<rightharpoonup> string"

text \<open>The panics of the source, as values: a computation that may panic returns \<open>panic + 'a\<close>.\<close>

datatype panic =
    NilDereference
  | IndexOutOfRange
  | NilMapWrite
  | MustFailed string
  | PanicMessage string
  | Fatal string

type_synonym 'a go = "panic + 'a"

text \<open>
  \<open>metav1.Now()\<close> and \<open>time.Now()\<close> read a clock: reading number \<open>n\<close> returns \<open>clk n\<close>, and the number
  of readings made so far is part of the state. No reading is assumed to be later than another
  unless a property says so.
\<close>

type_synonym clock = "nat \<Rightarrow> go_time"

definition time_IsZero :: "go_time \<Rightarrow> bool" where
  "time_IsZero t \<longleftrightarrow> t = 0"

definition ptr_IsZero :: "go_time option \<Rightarrow> bool" where
  "ptr_IsZero p = (case p of None \<Rightarrow> True | Some t \<Rightarrow> time_IsZero t)"

text \<open>\<open>time.Time.Sub\<close> saturates at the ends of the 64-bit \<open>Duration\<close>.\<close>

definition max_duration :: duration where "max_duration = 2 ^ 63 - 1"
definition min_duration :: duration where "min_duration = - (2 ^ 63)"

definition time_Sub :: "go_time \<Rightarrow> go_time \<Rightarrow> duration" where
  "time_Sub t u = max min_duration (min max_duration (t - u))"

lemma time_Sub_bounds: "min_duration \<le> time_Sub t u \<and> time_Sub t u \<le> max_duration"
  by (simp add: time_Sub_def min_duration_def max_duration_def)

lemma time_Sub_exact:
  "min_duration \<le> t - u \<Longrightarrow> t - u \<le> max_duration \<Longrightarrow> time_Sub t u = t - u"
  by (simp add: time_Sub_def)

subsection \<open>Sorting\<close>

text \<open>
  Go's \<open>insertionSort\<close> (package \<open>sort\<close>): element after element is swapped to the left as long as
  \<open>less\<close> holds between it and its left neighbour. \<open>sort.Slice\<close> is this routine on up to 12
  elements and \<open>sort.SliceStable\<close> on up to 20; on longer slices they only differ from it in how they
  place elements that \<open>less\<close> does not separate (\<open>Slice\<close>), respectively not at all when \<open>less\<close> is a
  strict weak order (\<open>SliceStable\<close>), by the uniqueness lemma below. The sorted prefix is
  kept reversed, so that the left neighbour is its head.
\<close>

fun ins_less :: "('a \<Rightarrow> 'a \<Rightarrow> bool) \<Rightarrow> 'a \<Rightarrow> 'a list \<Rightarrow> 'a list" where
  "ins_less lt x [] = [x]"
| "ins_less lt x (y # ys) = (if lt x y then y # ins_less lt x ys else x # y # ys)"

definition go_sort :: "('a \<Rightarrow> 'a \<Rightarrow> bool) \<Rightarrow> 'a list \<Rightarrow> 'a list" where
  "go_sort lt xs = rev (fold (ins_less lt) xs [])"

lemma mset_ins_less [simp]: "mset (ins_less lt x ys) = add_mset x (mset ys)"
  by (induction ys) auto

lemma mset_fold_ins_less: "mset (fold (ins_less lt) xs ys) = mset xs + mset ys"
  by (induction xs arbitrary: ys) auto

lemma mset_go_sort [simp]: "mset (go_sort lt xs) = mset xs"
  by (simp add: go_sort_def mset_fold_ins_less)

lemma set_go_sort [simp]: "set (go_sort lt xs) = set xs"
  by (metis mset_go_sort set_mset_mset)

lemma length_go_sort [simp]: "length (go_sort lt xs) = length xs"
  by (metis mset_go_sort size_mset)

lemma distinct_map_go_sort [simp]: "distinct (map f (go_sort lt xs)) = distinct (map f xs)"
  by (metis mset_go_sort mset_map mset_eq_imp_distinct_iff)

lemma go_sort_Nil [simp]: "go_sort lt [] = []"
  by (simp add: go_sort_def)

lemma go_sort_eq_Nil [simp]: "go_sort lt xs = [] \<longleftrightarrow> xs = []"
  by (metis length_0_conv length_go_sort)

lemma go_sort_snoc: "go_sort lt (xs @ [x]) = rev (ins_less lt x (rev (go_sort lt xs)))"
  by (simp add: go_sort_def)

lemma ins_less_cong:
  "(\<And>y. y \<in> set ys \<Longrightarrow> lt x y = lt' x y) \<Longrightarrow> ins_less lt x ys = ins_less lt' x ys"
  by (induction ys) auto

text \<open>Inserting by a key keeps a (reversed) list sorted and goes to the right of its equals.\<close>

lemma sorted_ins_key:
  "sorted (rev (map k ys)) \<Longrightarrow> sorted (rev (map k (ins_less (\<lambda>x y. k x < k y) x ys)))"
proof (induction ys)
  case (Cons y ys)
  have mem: "set (ins_less (\<lambda>x y. k x < k y) x ys) = insert x (set ys)"
    by (metis mset_ins_less set_mset_add_mset_insert set_mset_mset)
  with Cons show ?case by (auto simp: sorted_append mem)
qed simp

lemma filter_ins_key:
  "sorted (rev (map k ys)) \<Longrightarrow>
   filter (\<lambda>z. c = k z) (ins_less (\<lambda>x y. k x < k y) x ys)
     = (if c = k x then [x] else []) @ filter (\<lambda>z. c = k z) ys"
proof (induction ys)
  case (Cons y ys)
  then show ?case by (auto simp: sorted_append filter_empty_conv)
qed simp

lemma go_sort_eq_sort_key:
  fixes k :: "'a \<Rightarrow> 'b::linorder"
  assumes "sorted_wrt (\<lambda>y x. lt x y \<longleftrightarrow> k x < k y) xs"
  shows "go_sort lt xs = sort_key k xs"
  using assms
proof (induction xs rule: rev_induct)
  case Nil
  then show ?case by simp
next
  case (snoc x xs)
  let ?ys = "rev (sort_key k xs)"
  let ?zs = "ins_less (\<lambda>x y. k x < k y) x ?ys"
  have IH: "go_sort lt xs = sort_key k xs"
    using snoc by (simp add: sorted_wrt_append)
  have "ins_less lt x ?ys = ?zs"
    using snoc.prems by (intro ins_less_cong) (simp add: sorted_wrt_append)
  then have eq: "go_sort lt (xs @ [x]) = rev ?zs"
    by (simp add: go_sort_snoc IH)
  have srt: "sorted (rev (map k ?ys))" by (simp add: rev_map)
  have "sort_key k (xs @ [x]) = rev ?zs"
  proof (rule properties_for_sort_key)
    show "mset (rev ?zs) = mset (xs @ [x])" by simp
  next
    fix z
    have "filter (\<lambda>y. k z = k y) (rev ?zs) = filter (\<lambda>y. k z = k y) (sort_key k xs)
        @ (if k z = k x then [x] else [])"
      by (simp add: filter_ins_key [OF srt] flip: rev_filter)
    also have "filter (\<lambda>y. k z = k y) (sort_key k xs) = filter (\<lambda>y. k z = k y) xs"
      using sort_key_stable [of k "k z" xs] by (simp add: eq_commute [of "k z"])
    finally show "filter (\<lambda>y. k z = k y) (rev ?zs) = filter (\<lambda>y. k z = k y) (xs @ [x])"
      by simp
  next
    show "sorted (map k (rev ?zs))"
      using sorted_ins_key [OF srt, of x] by (simp add: rev_map)
  qed
  with eq show ?case by simp
qed


subsection \<open>Lookup by a key field\<close>

text \<open>
  \<open>lo.Find\<close> by a type or a name: on a list without duplicate keys the first match is the only
  one, so the lookup depends on the elements alone and not on their order.
\<close>

lemma find_key_iff:
  "distinct (map f xs) \<Longrightarrow> find (\<lambda>x. f x = k) xs = Some x \<longleftrightarrow> x \<in> set xs \<and> f x = k"
  by (induction xs) (auto simp: image_iff)

lemma find_key_None: "find (\<lambda>x. f x = k) xs = None \<longleftrightarrow> k \<notin> f ` set xs"
  by (auto simp: find_None_iff)

lemma find_key_cong:
  assumes eq: "mset xs = mset ys" and d: "distinct (map f xs)"
  shows "find (\<lambda>x. f x = k) xs = find (\<lambda>x. f x = k) ys"
proof -
  have "mset (map f xs) = mset (map f ys)" by (simp add: eq)
  then have d': "distinct (map f ys)" using d by (metis mset_eq_imp_distinct_iff)
  have s: "set xs = set ys" using eq by (rule mset_eq_setD)
  show ?thesis
  proof (cases "find (\<lambda>x. f x = k) ys")
    case None
    then have "k \<notin> f ` set xs" by (simp add: find_key_None s)
    with None show ?thesis by (simp flip: find_key_None)
  next
    case (Some y)
    then have "y \<in> set xs \<and> f y = k" by (simp add: find_key_iff [OF d'] s)
    with Some show ?thesis by (simp flip: find_key_iff [OF d])
  qed
qed

lemma find_key_append:
  "find P (xs @ ys) = (case find P xs of None \<Rightarrow> find P ys | Some x \<Rightarrow> Some x)"
  by (induction xs) auto

lemma find_key_map:
  "(\<And>x. f (g x) = f x) \<Longrightarrow> find (\<lambda>x. f x = k) (map g xs) = map_option g (find (\<lambda>x. f x = k) xs)"
  by (induction xs) auto

lemma find_key_filter:
  "find (\<lambda>x. f x = k) (filter (\<lambda>x. f x \<noteq> j) xs)
     = (if j = k then None else find (\<lambda>x. f x = k) xs)"
  by (induction xs) auto

lemma filter_key_absent [simp]: "k \<notin> f ` set xs \<Longrightarrow> filter (\<lambda>x. f x \<noteq> k) xs = xs"
  by (induction xs) auto

subsection \<open>Strings and slices\<close>

fun strings_Join :: "string list \<Rightarrow> string \<Rightarrow> string" where
  "strings_Join [] sep = []"
| "strings_Join [x] sep = x"
| "strings_Join (x # y # xs) sep = x @ sep @ strings_Join (y # xs) sep"

text \<open>\<open>lo.Uniq\<close>: the first occurrence of every element, in the order of the list.\<close>

fun lo_Uniq :: "'a list \<Rightarrow> 'a list" where
  "lo_Uniq [] = []"
| "lo_Uniq (x # xs) = x # filter (\<lambda>y. y \<noteq> x) (lo_Uniq xs)"

lemma set_lo_Uniq [simp]: "set (lo_Uniq xs) = set xs"
  by (induction xs) auto

lemma distinct_lo_Uniq [simp]: "distinct (lo_Uniq xs)"
  by (induction xs) auto

text \<open>\<open>strings.ToLower\<close> of a string of ASCII characters.\<close>

definition ascii_lower :: "string \<Rightarrow> string" where
  "ascii_lower s = map (\<lambda>c. if 65 \<le> (of_char c :: nat) \<and> (of_char c :: nat) \<le> 90 then char_of ((of_char c :: nat) + 32) else c) s"

text \<open>A string is taken apart at the first occurrence of a character in one way only.\<close>

lemma append_sep_eq:
  "sep \<notin> set k \<Longrightarrow> sep \<notin> set k' \<Longrightarrow> k @ sep # s = k' @ sep # s' \<longleftrightarrow> k = k' \<and> s = s'"
proof (induction k arbitrary: k')
  case Nil
  then show ?case by (cases k') auto
next
  case (Cons c k)
  then show ?case by (cases k') auto
qed

text \<open>\<open>strings.Split\<close> for a separator of one byte.\<close>

fun strings_Split :: "char \<Rightarrow> string \<Rightarrow> string list" where
  "strings_Split sep [] = [[]]"
| "strings_Split sep (x # xs) =
     (if x = sep then [] # strings_Split sep xs
      else (case strings_Split sep xs of [] \<Rightarrow> [[x]] | y # ys \<Rightarrow> (x # y) # ys))"

lemma strings_Split_not_Nil [simp]: "strings_Split sep xs \<noteq> []"
  by (cases xs) (auto split: list.split)

lemma strings_Split_no_sep: "sep \<notin> set xs \<Longrightarrow> strings_Split sep xs = [xs]"
  by (induction xs) auto

lemma strings_Split_append:
  "sep \<notin> set xs \<Longrightarrow> strings_Split sep (xs @ sep # ys) = xs # strings_Split sep ys"
  by (induction xs) auto

lemma strings_Split_Join:
  "xs \<noteq> [] \<Longrightarrow> \<forall>x \<in> set xs. sep \<notin> set x \<Longrightarrow> strings_Split sep (strings_Join xs [sep]) = xs"
  by (induction xs "[sep]" rule: strings_Join.induct)
    (auto simp: strings_Split_no_sep strings_Split_append)

lemma length_strings_Split: "length (strings_Split sep xs) = Suc (count_list xs sep)"
  by (induction xs) (auto split: list.split)

subsection \<open>Panics in sequence\<close>

definition go_bind :: "'a go \<Rightarrow> ('a \<Rightarrow> 'b go) \<Rightarrow> 'b go" where
  "go_bind m f = (case m of Inl p \<Rightarrow> Inl p | Inr x \<Rightarrow> f x)"

lemma go_bind_simps [simp]: "go_bind (Inl p) f = Inl p" "go_bind (Inr x) f = f x"
  by (simp_all add: go_bind_def)

lemma go_bind_eq_Inr: "go_bind m f = Inr y \<longleftrightarrow> (\<exists>x. m = Inr x \<and> f x = Inr y)"
  by (cases m) auto

text \<open>Indexing a slice.\<close>

definition go_nth :: "'a list \<Rightarrow> nat \<Rightarrow> 'a go" where
  "go_nth xs i = (if i < length xs then Inr (xs ! i) else Inl IndexOutOfRange)"

lemma go_nth_ok [simp]: "i < length xs \<Longrightarrow> go_nth xs i = Inr (xs ! i)"
  by (simp add: go_nth_def)

subsection \<open>Label maps\<close>

text \<open>
  A \<open>map[string]string\<close> that the code compares (\<open>maps.Equal\<close>) or hands to a metric is the list of its
  entries in the order of the keys. Equality of such lists is equality of the maps.
\<close>

type_synonym labels = "(string \<times> string) list"

fun label_put :: "string \<Rightarrow> string \<Rightarrow> labels \<Rightarrow> labels" where
  "label_put k v [] = [(k, v)]"
| "label_put k v ((k', v') # l) =
     (if k < k' then (k, v) # (k', v') # l
      else if k = k' then (k, v) # l
      else (k', v') # label_put k v l)"

text \<open>\<open>lo.SliceToMap\<close> and \<open>lo.MapEntries\<close> on the entries made, the last of a key wins; \<open>lo.Assign\<close>.\<close>

definition to_labels :: "(string \<times> string) list \<Rightarrow> labels" where
  "to_labels kvs = fold (\<lambda>(k, v). label_put k v) kvs []"

definition lo_Assign :: "labels list \<Rightarrow> labels" where
  "lo_Assign ls = to_labels (concat ls)"

definition label_keys :: "labels \<Rightarrow> string set" where
  "label_keys l = fst ` set l"

definition labels_ok :: "labels \<Rightarrow> bool" where
  "labels_ok l \<longleftrightarrow> sorted_wrt (<) (map fst l)"

lemma label_keys_put [simp]: "label_keys (label_put k v l) = insert k (label_keys l)"
  by (induction k v l rule: label_put.induct) (auto simp: label_keys_def)

lemma labels_ok_put: "labels_ok l \<Longrightarrow> labels_ok (label_put k v l)"
proof (induction k v l rule: label_put.induct)
  case (2 k v k' v' l)
  then show ?case using label_keys_put [of k v l]
    by (fastforce simp: labels_ok_def label_keys_def)
qed (simp add: labels_ok_def)

lemma map_of_put: "labels_ok l \<Longrightarrow> map_of (label_put k v l) = (map_of l)(k \<mapsto> v)"
  by (induction k v l rule: label_put.induct)
    (fastforce simp: labels_ok_def fun_eq_iff map_of_eq_None_iff)+

lemma fold_label_put:
  "labels_ok l \<Longrightarrow> labels_ok (fold (\<lambda>(k, v). label_put k v) kvs l)
     \<and> map_of (fold (\<lambda>(k, v). label_put k v) kvs l) = map_of l ++ map_of (rev kvs)"
  by (induction kvs arbitrary: l) (auto simp: labels_ok_put map_of_put map_add_def split: option.split)

lemma labels_ok_to_labels [simp]: "labels_ok (to_labels kvs)"
  using fold_label_put [of "[]" kvs] by (simp add: to_labels_def labels_ok_def)

lemma map_of_to_labels: "map_of (to_labels kvs) = map_of (rev kvs)"
  using fold_label_put [of "[]" kvs] by (simp add: to_labels_def labels_ok_def)

lemma labels_ok_Assign [simp]: "labels_ok (lo_Assign ls)"
  by (simp add: lo_Assign_def)

lemma label_keys_to_labels [simp]: "label_keys (to_labels kvs) = fst ` set kvs"
proof -
  have "dom (map_of (to_labels kvs)) = fst ` set kvs"
    by (simp add: map_of_to_labels dom_map_of_conv_image_fst)
  then show ?thesis by (simp add: label_keys_def dom_map_of_conv_image_fst)
qed

lemma label_keys_Assign [simp]: "label_keys (lo_Assign ls) = (\<Union>l \<in> set ls. label_keys l)"
  unfolding lo_Assign_def label_keys_to_labels by (auto simp: label_keys_def)

lemma label_keys_dom: "label_keys l = dom (map_of l)"
  by (simp add: label_keys_def dom_map_of_conv_image_fst)

lemma map_of_rev_distinct: "distinct (map fst ps) \<Longrightarrow> map_of (rev ps) = map_of ps"
proof (induction ps)
  case (Cons p ps)
  have "map_of (rev ps) k = None" if "k = fst p" for k
    using that Cons.prems by (simp add: map_of_eq_None_iff)
  with Cons show ?case by (cases p) (auto simp: map_add_def fun_eq_iff split: option.split)
qed simp

lemma map_of_rev_ok: "labels_ok l \<Longrightarrow> map_of (rev l) = map_of l"
  by (rule map_of_rev_distinct) (auto simp: labels_ok_def strict_sorted_iff)

lemma map_of_Assign2:
  "labels_ok a \<Longrightarrow> labels_ok b \<Longrightarrow> map_of (lo_Assign [a, b]) = map_of a ++ map_of b"
  by (simp add: lo_Assign_def map_of_to_labels map_of_rev_ok)

lemma labels_eqI:
  assumes "labels_ok a" "labels_ok b" "map_of a = map_of b"
  shows "a = b"
proof -
  have d: "distinct (map fst a)" "distinct (map fst b)"
    using assms by (auto simp: labels_ok_def strict_sorted_iff)
  have "set a = set b"
    using assms(3) map_of_eq_Some_iff [OF d(1)] map_of_eq_Some_iff [OF d(2)] by auto
  moreover have "map fst a = map fst b"
    using assms(1,2) calculation by (intro strict_sorted_equal) (auto simp: labels_ok_def)
  ultimately show ?thesis using d by (metis map_of_inject_set map_eq_imp_length_eq
        map_fst_zip zip_map_fst_snd assms(3) map_of_zip_inject length_map)
qed

end
