(* ===== verification/Serrors.thy ===== *)
theory Serrors
  imports Prelude "HOL-Library.AList"
begin

section \<open>Structured errors\<close>

text \<open>
  \<open>serrors/serrors.go\<close> and \<open>serrors/logger.go\<close>. A Go error is a tree: a structured error
  (\<open>*serrors.Error\<close>) around another error, an error that is composed of several ones
  (\<open>Unwrap() []error\<close>: \<open>multierr\<close>, \<open>errors.Join\<close>), or an error of any other type, with a tag for what
  the code can learn of it by a type assertion, its message and what \<open>Unwrap() error\<close> returns. A nil
  error is \<open>None\<close>.

  A \<open>map[string]any\<close> is an association list without duplicate keys; the order of the list is the
  order in which a \<open>range\<close> over the map happens to visit it, and \<open>unwrap_values_spec\<close>
  shows that the result of unwrapping does not depend on it. \<open>multierr.Errors\<close> is a parameter \<open>E\<close>; what the
  code relies on is \<open>multierr_Errors_ok\<close>.
\<close>

datatype 'v any = AString string | ASlice "'v any list" | AOther 'v

type_synonym 'v kvmap = "(string \<times> 'v any) list"

datatype ('x, 'v) err =
    Other 'x string "('x, 'v) err option"
  | Structured "('x, 'v) err option" "'v kvmap"
  | MultiError "('x, 'v) err list"

text \<open>\<open>errors.Unwrap\<close> of the standard library: an error composed of several ones has none.\<close>

fun errors_Unwrap :: "('x, 'v) err \<Rightarrow> ('x, 'v) err option" where
  "errors_Unwrap (Other x m e) = e"
| "errors_Unwrap (Structured e kv) = e"
| "errors_Unwrap (MultiError es) = None"

definition multierr_Errors_ok :: "(('x, 'v) err \<Rightarrow> ('x, 'v) err list) \<Rightarrow> bool" where
  "multierr_Errors_ok E \<longleftrightarrow>
     (\<forall>es. E (MultiError es) = es) \<and> (\<forall>x m e. E (Other x m e) = [Other x m e])
     \<and> (\<forall>e kv. E (Structured e kv) = [Structured e kv])"

subsection \<open>Wrapping\<close>

definition validate_even :: string where
  "validate_even = ''keysAndValues must have an even number of elements''"

definition validate_strings :: string where
  "validate_strings = ''keys must be strings''"

fun validate_loop :: "'v any list \<Rightarrow> string option" where
  "validate_loop [] = None"
| "validate_loop [AString k] = None"
| "validate_loop [x] = Some validate_strings"
| "validate_loop (AString k # v # rest) = validate_loop rest"
| "validate_loop (x # v # rest) = Some validate_strings"

definition validateKeysAndValues :: "'v any list \<Rightarrow> string option" where
  "validateKeysAndValues kvs =
     (if length kvs mod 2 \<noteq> 0 then Some validate_even else validate_loop kvs)"

text \<open>The loop of \<open>WithValues\<close>, with the panics its type assertion and its index could raise.\<close>

fun with_loop :: "'v kvmap \<Rightarrow> 'v any list \<Rightarrow> 'v kvmap go" where
  "with_loop m [] = Inr m"
| "with_loop m [x] = Inl IndexOutOfRange"
| "with_loop m (AString k # v # rest) = with_loop (AList.update k v m) rest"
| "with_loop m (x # v # rest) = Inl (PanicMessage ''interface conversion'')"

definition WithValues :: "('x, 'v) err option \<times> 'v kvmap \<Rightarrow> 'v any list
    \<Rightarrow> (('x, 'v) err option \<times> 'v kvmap) go" where
  "WithValues e kvs =
     (case validateKeysAndValues kvs of
        Some msg \<Rightarrow> Inl (MustFailed msg)
      | None \<Rightarrow> (case with_loop (snd e) kvs of Inl p \<Rightarrow> Inl p | Inr m \<Rightarrow> Inr (fst e, m)))"

definition Wrap :: "('x, 'v) err option \<Rightarrow> 'v any list \<Rightarrow> ('x, 'v) err go" where
  "Wrap e kvs = (case WithValues (e, []) kvs of Inl p \<Rightarrow> Inl p | Inr (e, m) \<Rightarrow> Inr (Structured e m))"

subsection \<open>The message\<close>

text \<open>
  \<open>showv\<close> is \<open>fmt\<close>'s \<open>%v\<close>, \<open>multi\<close> the message an error composed of several ones makes of theirs.
\<close>

definition error_elems :: "('v any \<Rightarrow> string) \<Rightarrow> 'v kvmap \<Rightarrow> string list" where
  "error_elems showv kv = map (\<lambda>k. k @ ''='' @ showv (the (map_of kv k))) (sort (map fst kv))"

fun Error_message :: "('v any \<Rightarrow> string) \<Rightarrow> (string list \<Rightarrow> string) \<Rightarrow> ('x, 'v) err \<Rightarrow> string go"
  and Error_messages :: "('v any \<Rightarrow> string) \<Rightarrow> (string list \<Rightarrow> string) \<Rightarrow> ('x, 'v) err list
    \<Rightarrow> string list go" where
  "Error_message showv multi (Other x m e) = Inr m"
| "Error_message showv multi (Structured None kv) = Inl NilDereference"
| "Error_message showv multi (Structured (Some e) kv) =
     (case Error_message showv multi e of
        Inl p \<Rightarrow> Inl p
      | Inr m \<Rightarrow> Inr (m @ '' ('' @ strings_Join (error_elems showv kv) '', '' @ '')''))"
| "Error_message showv multi (MultiError es) =
     (case Error_messages showv multi es of Inl p \<Rightarrow> Inl p | Inr ms \<Rightarrow> Inr (multi ms))"
| "Error_messages showv multi [] = Inr []"
| "Error_messages showv multi (e # es) =
     (case Error_message showv multi e of
        Inl p \<Rightarrow> Inl p
      | Inr m \<Rightarrow> (case Error_messages showv multi es of Inl p \<Rightarrow> Inl p | Inr ms \<Rightarrow> Inr (m # ms)))"

subsection \<open>Unwrapping the values\<close>

type_synonym 'v valmap = "(string \<times> 'v any list) list"

definition append_value :: "string \<times> 'v any \<Rightarrow> 'v valmap \<Rightarrow> 'v valmap" where
  "append_value kv values =
     (case map_of values (fst kv) of
        Some vs \<Rightarrow> AList.update (fst kv) (vs @ [snd kv]) values
      | None \<Rightarrow> AList.update (fst kv) [snd kv] values)"

fun append_error :: "('x, 'v) err \<Rightarrow> 'v valmap \<Rightarrow> 'v valmap" where
  "append_error (Structured e kv) values = fold append_value kv values"
| "append_error _ values = values"

lemma size_errors_Unwrap: "errors_Unwrap e = Some e' \<Longrightarrow> size e' < size e"
  by (cases e) auto

function unwrap_loop :: "(('x, 'v) err \<Rightarrow> ('x, 'v) err list) \<Rightarrow> 'v valmap \<Rightarrow> ('x, 'v) err option
    \<Rightarrow> 'v valmap" where
  "unwrap_loop E values None = values"
| "unwrap_loop E values (Some e) =
     unwrap_loop E (fold append_error (E e) values) (errors_Unwrap e)"
  by pat_completeness auto
termination
  by (relation "measure (\<lambda>(E, values, e). case e of None \<Rightarrow> 0 | Some e \<Rightarrow> Suc (size e))")
    (auto split: option.split dest: size_errors_Unwrap)

definition value_entry :: "string \<Rightarrow> 'v any list \<Rightarrow> 'v any list" where
  "value_entry k vs =
     (if length vs = 1 then [AString k, vs ! 0] else [AString (k @ ''s''), ASlice vs])"

definition UnwrapValues :: "(('x, 'v) err \<Rightarrow> ('x, 'v) err list) \<Rightarrow> ('x, 'v) err option
    \<Rightarrow> 'v any list" where
  "UnwrapValues E e =
     (let values = unwrap_loop E [] e
      in if length values = 0 then []
         else concat (map (\<lambda>k. value_entry k (the (map_of values k))) (sort (map fst values))))"

subsection \<open>The logger\<close>

text \<open>
  The interface \<open>logr.LogSink\<close> as the record of its methods on the sinks \<open>'s\<close>; what is logged changes the outside \<open>'w\<close>.
  The sink a logger wraps is not part of the repository. The logger is a sink itself, \<open>Logger_ops\<close>.
\<close>

record ('s, 'x, 'v, 'w) log_sink =
  sink_Init :: "int \<Rightarrow> 's \<Rightarrow> 's"
  sink_Enabled :: "'s \<Rightarrow> int \<Rightarrow> bool"
  sink_Info :: "'s \<Rightarrow> int \<Rightarrow> string \<Rightarrow> 'v any list \<Rightarrow> 'w \<Rightarrow> 'w"
  sink_Error :: "'s \<Rightarrow> ('x, 'v) err option \<Rightarrow> string \<Rightarrow> 'v any list \<Rightarrow> 'w \<Rightarrow> 'w"
  sink_WithValues :: "'s \<Rightarrow> 'v any list \<Rightarrow> 's"
  sink_WithName :: "'s \<Rightarrow> string \<Rightarrow> 's"

record 's logger =
  logger_name :: string
  logger_sink :: 's

text \<open>\<open>New\<close> and \<open>GetSink\<close> are the functions of \<open>logr\<close> that make a logger of a sink and give the sink of a logger.\<close>

definition NewLogger :: "('s logger \<Rightarrow> 'l) \<Rightarrow> ('k \<Rightarrow> 's) \<Rightarrow> 'k \<Rightarrow> 'l" where
  "NewLogger New GetSink l = New \<lparr>logger_name = [], logger_sink = GetSink l\<rparr>"

definition Logger_Init :: "('s, 'x, 'v, 'w) log_sink \<Rightarrow> int \<Rightarrow> 's logger \<Rightarrow> 's logger" where
  "Logger_Init K ri l = l\<lparr>logger_sink := sink_Init K ri (logger_sink l)\<rparr>"

definition Logger_Enabled :: "('s, 'x, 'v, 'w) log_sink \<Rightarrow> 's logger \<Rightarrow> int \<Rightarrow> bool" where
  "Logger_Enabled K l level = sink_Enabled K (logger_sink l) level"

definition Logger_Info :: "('s, 'x, 'v, 'w) log_sink \<Rightarrow> 's logger \<Rightarrow> int \<Rightarrow> string \<Rightarrow> 'v any list \<Rightarrow> 'w \<Rightarrow> 'w" where
  "Logger_Info K l level msg kvs = sink_Info K (logger_sink l) level msg kvs"

definition Logger_Error :: "(('x, 'v) err \<Rightarrow> ('x, 'v) err list) \<Rightarrow> ('s, 'x, 'v, 'w) log_sink \<Rightarrow> 's logger
    \<Rightarrow> ('x, 'v) err option \<Rightarrow> string \<Rightarrow> 'v any list \<Rightarrow> 'w \<Rightarrow> 'w" where
  "Logger_Error E K l e msg kvs = sink_Error K (logger_sink l) e msg (kvs @ UnwrapValues E e)"

definition Logger_WithValues :: "('s, 'x, 'v, 'w) log_sink \<Rightarrow> 's logger \<Rightarrow> 'v any list \<Rightarrow> 's logger" where
  "Logger_WithValues K l kvs = \<lparr>logger_name = logger_name l, logger_sink = sink_WithValues K (logger_sink l) kvs\<rparr>"

definition Logger_WithName :: "('s, 'x, 'v, 'w) log_sink \<Rightarrow> 's logger \<Rightarrow> string \<Rightarrow> 's logger" where
  "Logger_WithName K l name = \<lparr>logger_name = name, logger_sink = sink_WithName K (logger_sink l) name\<rparr>"

definition Logger_ops :: "(('x, 'v) err \<Rightarrow> ('x, 'v) err list) \<Rightarrow> ('s, 'x, 'v, 'w) log_sink \<Rightarrow> ('s logger, 'x, 'v, 'w) log_sink" where
  "Logger_ops E K = \<lparr>sink_Init = Logger_Init K, sink_Enabled = Logger_Enabled K, sink_Info = Logger_Info K,
     sink_Error = Logger_Error E K, sink_WithValues = Logger_WithValues K, sink_WithName = Logger_WithName K\<rparr>"

text \<open>
  The contract of a sink: a line is an error, a message and values, those the sink was made with before those of the call, and
  those the sink finds in the error last. A logger around a sink that keeps the contract keeps it, with the values it unwraps.
\<close>

locale logr_sink =
  fixes K :: "('s, 'x, 'v, 'w) log_sink" and vals :: "'s \<Rightarrow> 'v any list"
    and lines :: "'w \<Rightarrow> (('x, 'v) err option \<times> string \<times> 'v any list) list"
    and found :: "('x, 'v) err option \<Rightarrow> 'v any list"
  assumes init: "vals (sink_Init K ri s) = vals s"
    and with_values: "vals (sink_WithValues K s kvs) = vals s @ kvs"
    and with_name: "vals (sink_WithName K s name) = vals s"
    and info: "lines (sink_Info K s level msg kvs w) = lines w @ [(None, msg, vals s @ kvs)]"
    and error: "lines (sink_Error K s e msg kvs w) = lines w @ [(e, msg, vals s @ kvs @ found e)]"
begin

lemma logger_keeps: "logr_sink (Logger_ops E K) (\<lambda>l. vals (logger_sink l)) lines (\<lambda>e. UnwrapValues E e @ found e)"
  by unfold_locales (simp_all add: Logger_ops_def Logger_Init_def Logger_WithValues_def Logger_WithName_def Logger_Info_def
      Logger_Error_def init with_values with_name info error)

end

definition list_sink :: "('v any list, 'x, 'v, (('x, 'v) err option \<times> string \<times> 'v any list) list) log_sink" where
  "list_sink = \<lparr>sink_Init = (\<lambda>_ s. s), sink_Enabled = (\<lambda>_ _. True), sink_Info = (\<lambda>s _ msg kvs w. w @ [(None, msg, s @ kvs)]),
     sink_Error = (\<lambda>s e msg kvs w. w @ [(e, msg, s @ kvs)]), sink_WithValues = (@), sink_WithName = (\<lambda>s _. s)\<rparr>"

lemma list_sink_Error: "sink_Error list_sink s e msg kvs w = w @ [(e, msg, s @ kvs)]"
  by (simp add: list_sink_def)

interpretation list_sink: logr_sink list_sink "\<lambda>s. s" "\<lambda>w. w" "\<lambda>_. []"
  by unfold_locales (simp_all add: list_sink_def)

interpretation list_logger: logr_sink "Logger_ops E list_sink" logger_sink "\<lambda>w. w" "\<lambda>e. UnwrapValues E e @ []"
  by (rule list_sink.logger_keeps)

section \<open>What unwrapping returns\<close>

text \<open>
  \<open>chain\<close> is the sequence of errors the outer loop visits, \<open>visited\<close> the errors the inner loop
  does, \<open>values_at k\<close> the values these carry for the key \<open>k\<close>, in that order.
\<close>

fun chain :: "('x, 'v) err \<Rightarrow> ('x, 'v) err list" where
  "chain (Other x m e) = Other x m e # (case e of None \<Rightarrow> [] | Some e' \<Rightarrow> chain e')"
| "chain (Structured e kv) = Structured e kv # (case e of None \<Rightarrow> [] | Some e' \<Rightarrow> chain e')"
| "chain (MultiError es) = [MultiError es]"

definition visited :: "(('x, 'v) err \<Rightarrow> ('x, 'v) err list) \<Rightarrow> ('x, 'v) err \<Rightarrow> ('x, 'v) err list" where
  "visited E e = concat (map E (chain e))"

fun value_at :: "string \<Rightarrow> ('x, 'v) err \<Rightarrow> 'v any list" where
  "value_at k (Structured e kv) = (case map_of kv k of None \<Rightarrow> [] | Some v \<Rightarrow> [v])"
| "value_at k _ = []"

definition values_at :: "string \<Rightarrow> ('x, 'v) err list \<Rightarrow> 'v any list" where
  "values_at k es = concat (map (value_at k) es)"

fun distinct_keys :: "('x, 'v) err \<Rightarrow> bool" where
  "distinct_keys (Structured e kv) = distinct (map fst kv)"
| "distinct_keys _ = True"

lemma values_at_simps [simp]:
  "values_at k [] = []" "values_at k (e # es) = value_at k e @ values_at k es"
  "values_at k (es @ fs) = values_at k es @ values_at k fs"
  by (simp_all add: values_at_def)

lemma unwrap_loop_eq: "unwrap_loop E vs (Some e) = fold append_error (visited E e) vs"
proof (induction e arbitrary: vs rule: chain.induct)
  case (1 x m e)
  then show ?case by (cases e) (simp_all add: visited_def)
next
  case (2 e kv)
  then show ?case by (cases e) (simp_all add: visited_def)
next
  case (3 es)
  then show ?case by (simp add: visited_def)
qed

definition old_values :: "'v valmap \<Rightarrow> string \<Rightarrow> 'v any list" where
  "old_values vs k = (case map_of vs k of None \<Rightarrow> [] | Some l \<Rightarrow> l)"

declare map_of_eq_Some_iff [simp del] Some_eq_map_of_iff [simp del]

text \<open>The invariant of the map of values: keys are distinct and no key has an empty list.\<close>

definition valmap_ok :: "'v valmap \<Rightarrow> bool" where
  "valmap_ok vs \<longleftrightarrow> distinct (map fst vs) \<and> (\<forall>k l. map_of vs k = Some l \<longrightarrow> l \<noteq> [])"

lemma append_value_ok: "valmap_ok vs \<Longrightarrow> valmap_ok (append_value kv vs)"
  by (auto simp: valmap_ok_def append_value_def AList.update_conv' AList.distinct_update
      split: option.splits if_splits)

lemma old_append_value:
  "old_values (append_value kv vs) k = old_values vs k @ (if fst kv = k then [snd kv] else [])"
  by (auto simp: old_values_def append_value_def AList.update_conv' split: option.splits)

lemma fold_append_value:
  assumes "distinct (map fst kv)" "valmap_ok vs"
  shows "valmap_ok (fold append_value kv vs)
    \<and> old_values (fold append_value kv vs) k
      = old_values vs k @ (case map_of kv k of None \<Rightarrow> [] | Some v \<Rightarrow> [v])"
  using assms
proof (induction kv arbitrary: vs)
  case (Cons a kv)
  have "map_of kv (fst a) = None" using Cons.prems(1) by (simp add: map_of_eq_None_iff)
  with Cons show ?case by (cases a) (auto simp: append_value_ok old_append_value)
qed simp

lemma append_error_ok:
  "distinct_keys e \<Longrightarrow> valmap_ok vs \<Longrightarrow>
   valmap_ok (append_error e vs) \<and> old_values (append_error e vs) k = old_values vs k @ value_at k e"
  by (cases e) (simp_all add: fold_append_value)

lemma fold_append_error:
  "\<forall>e \<in> set es. distinct_keys e \<Longrightarrow> valmap_ok vs \<Longrightarrow>
   valmap_ok (fold append_error es vs)
   \<and> old_values (fold append_error es vs) k = old_values vs k @ values_at k es"
  by (induction es arbitrary: vs) (simp_all add: append_error_ok)

lemma valmap_keys:
  assumes "valmap_ok vs"
  shows "set (map fst vs) = {k. old_values vs k \<noteq> []}"
proof -
  have "k \<in> fst ` set vs \<longleftrightarrow> old_values vs k \<noteq> []" for k
    using assms map_of_eq_None_iff [of vs k]
    by (auto simp: valmap_ok_def old_values_def split: option.splits)
  then show ?thesis by auto
qed

lemma UnwrapValues_eq:
  assumes "\<forall>e' \<in> set (visited E e). distinct_keys e'"
  shows "UnwrapValues E (Some e) =
    concat (map (\<lambda>k. value_entry k (values_at k (visited E e)))
      (sorted_list_of_set {k. values_at k (visited E e) \<noteq> []}))"
proof -
  let ?vs = "fold append_error (visited E e) []"
  have ok: "valmap_ok ?vs" and old: "old_values ?vs k = values_at k (visited E e)" for k
    using fold_append_error [OF assms, of "[]"] by (auto simp: valmap_ok_def old_values_def)
  have "distinct (map fst ?vs)" using ok by (simp add: valmap_ok_def)
  then have "sort (map fst ?vs) = sorted_list_of_set (set (map fst ?vs))"
    by (simp only: sorted_list_of_set_sort_remdups distinct_remdups_id)
  then have srt: "sort (map fst ?vs)
      = sorted_list_of_set {k. values_at k (visited E e) \<noteq> []}"
    by (simp only: valmap_keys [OF ok] old)
  have "the (map_of ?vs k) = values_at k (visited E e)" if "k \<in> set (sort (map fst ?vs))" for k
    using that old [of k] by (auto simp: old_values_def map_of_eq_None_iff split: option.splits)
  then have "concat (map (\<lambda>k. value_entry k (the (map_of ?vs k))) (sort (map fst ?vs)))
      = concat (map (\<lambda>k. value_entry k (values_at k (visited E e))) (sort (map fst ?vs)))"
    by (intro arg_cong [of _ _ concat] map_cong refl) simp
  then show ?thesis
    unfolding UnwrapValues_def unwrap_loop_eq Let_def srt [symmetric] by auto
qed

text \<open>Wrapping: what validation lets through, and what is stored.\<close>

fun pairs :: "'v any list \<Rightarrow> (string \<times> 'v any) list" where
  "pairs (AString k # v # rest) = (k, v) # pairs rest"
| "pairs _ = []"

fun string_keys :: "'v any list \<Rightarrow> bool" where
  "string_keys [] = True"
| "string_keys (AString k # v # rest) = string_keys rest"
| "string_keys _ = False"

lemma validate_iff: "validateKeysAndValues kvs = None \<longleftrightarrow> string_keys kvs"
proof -
  have "string_keys kvs \<Longrightarrow> even (length kvs)"
    by (induction kvs rule: string_keys.induct) auto
  moreover have "even (length kvs) \<Longrightarrow> validate_loop kvs = None \<longleftrightarrow> string_keys kvs"
    by (induction kvs rule: validate_loop.induct) auto
  ultimately show ?thesis by (auto simp: validateKeysAndValues_def even_iff_mod_2_eq_zero)
qed

lemma with_loop_pairs:
  "string_keys kvs \<Longrightarrow> with_loop m kvs = Inr (fold (\<lambda>(k, v). AList.update k v) (pairs kvs) m)"
  by (induction kvs arbitrary: m rule: string_keys.induct) auto

lemma Wrap_eq:
  "Wrap e kvs =
     (if string_keys kvs
      then Inr (Structured e (fold (\<lambda>(k, v). AList.update k v) (pairs kvs) []))
      else Inl (MustFailed (if odd (length kvs) then validate_even else validate_strings)))"
proof (cases "validateKeysAndValues kvs")
  case None
  then show ?thesis
    by (simp add: Wrap_def WithValues_def with_loop_pairs flip: validate_iff)
next
  case (Some msg)
  have "validate_loop kvs = Some msg \<Longrightarrow> msg = validate_strings" for msg
    by (induction kvs rule: validate_loop.induct) auto
  with Some have "msg = (if odd (length kvs) then validate_even else validate_strings)"
    by (auto simp: validateKeysAndValues_def odd_iff_mod_2_eq_one split: if_splits)
  with Some show ?thesis by (simp add: Wrap_def WithValues_def flip: validate_iff)
qed

lemma map_of_fold_update:
  "map_of (fold (\<lambda>(k, v). AList.update k v) ps m) = map_of m ++ map_of (rev ps)"
  by (induction ps arbitrary: m) (auto simp: AList.update_conv' map_add_def split: option.splits)

lemma finite_values_at: "finite {k. values_at k es \<noteq> []}"
proof (induction es)
  case (Cons e es)
  have "{k. value_at k e \<noteq> []} \<subseteq> (case e of Structured e' kv \<Rightarrow> fst ` set kv | _ \<Rightarrow> {})"
    by (cases e) (auto split: option.splits dest: map_of_SomeD intro: rev_image_eqI)
  then have "finite {k. value_at k e \<noteq> []}"
    by (rule finite_subset) (auto split: err.split)
  moreover have "{k. values_at k (e # es) \<noteq> []} = {k. value_at k e \<noteq> []} \<union> {k. values_at k es \<noteq> []}"
    by auto
  ultimately show ?case using Cons by simp
qed simp

lemma distinct_fold_update:
  "distinct (map fst m) \<Longrightarrow> distinct (map fst (fold (\<lambda>(k, v). AList.update k v) ps m))"
  by (induction ps arbitrary: m) (auto simp: AList.distinct_update)

lemma value_entry_alt:
  "value_entry k vs = (if length vs = 1 then [AString k, hd vs] else [AString (k @ ''s''), ASlice vs])"
  by (cases vs) (simp_all add: value_entry_def)

section \<open>Properties\<close>

definition demo_Errors :: "('x, 'v) err \<Rightarrow> ('x, 'v) err list" where
  "demo_Errors e = (case e of MultiError es \<Rightarrow> es | _ \<Rightarrow> [e])"

lemma demo_Errors_ok: "multierr_Errors_ok demo_Errors"
  by (simp add: multierr_Errors_ok_def demo_Errors_def)

lemma string_keys_iff:
  "string_keys kvs \<longleftrightarrow> even (length kvs) \<and> (\<forall>i < length kvs div 2. \<exists>k. kvs ! (2 * i) = AString k)"
proof (induction kvs rule: string_keys.induct)
  case (2 k v rest)
  have "(\<forall>i < Suc (length rest div 2). \<exists>k'. (AString k # v # rest) ! (2 * i) = AString k')
      \<longleftrightarrow> (\<forall>i < length rest div 2. \<exists>k'. rest ! (2 * i) = AString k')"
    by (simp add: All_less_Suc2)
  with 2 show ?case by simp
qed (auto simp: All_less_Suc2)

text \<open>
  Property C11. \<open>Wrap\<close> panics exactly when its arguments are not key-value pairs with string
  keys; otherwise it returns a structured error around the given one whose map has one
  entry for every key, with the last value given for it.
\<close>

theorem wrap_spec:
  "if even (length kvs) \<and> (\<forall>i < length kvs div 2. \<exists>k. kvs ! (2 * i) = AString k)
   then \<exists>kv. Wrap e kvs = Inr (Structured e kv) \<and> distinct (map fst kv)
          \<and> map_of kv = map_of (rev (pairs kvs))
   else Wrap e kvs = Inl (MustFailed (if odd (length kvs) then validate_even else validate_strings))"
  unfolding string_keys_iff [symmetric]
  by (simp add: Wrap_eq map_of_fold_update distinct_fold_update)

theorem wrap_spec_witness:
  "\<exists>kv. Wrap (Some (Other () ''test'' None)) [AString ''k'', AOther (1::nat), AString ''k'', AOther 2]
       = Inr (Structured (Some (Other () ''test'' None)) kv)
     \<and> map_of kv ''k'' = Some (AOther 2)"
proof -
  have "\<forall>i < 2. \<exists>k. [AString ''k'', AOther (1::nat), AString ''k'', AOther 2] ! (2 * i) = AString k"
    by (simp add: less_2_cases_iff)
  then show ?thesis
    using wrap_spec [of "[AString ''k'', AOther (1::nat), AString ''k'', AOther 2]"
        "Some (Other () ''test'' None)"] by auto
qed

text \<open>
  Property C12. \<open>UnwrapValues\<close> returns, in the order of the sorted keys, every key one of the visited
  structured errors has: with its value if there is one, and under the plural key with the list of
  the values from the outermost error to the innermost if there are several. The result does not
  depend on the order in which the runtime visits a map.
\<close>

theorem unwrap_values_spec:
  assumes "\<forall>e' \<in> set (visited E e). distinct_keys e'"
  shows "UnwrapValues E (Some e) =
    concat (map (\<lambda>k. let vs = values_at k (visited E e)
                     in if length vs = 1 then [AString k, hd vs] else [AString (k @ ''s''), ASlice vs])
      (sorted_list_of_set {k. values_at k (visited E e) \<noteq> []}))"
  by (simp only: UnwrapValues_eq [OF assms] Let_def value_entry_alt)

definition demo_err :: "(unit, nat) err" where
  "demo_err = Structured (Some (Other () ''outer'' (Some (Structured (Some (Other () ''inner'' None))
     [(''b'', AOther 1), (''a'', AString ''x'')])))) [(''b'', AOther 2)]"

theorem unwrap_values_spec_witness:
  "UnwrapValues demo_Errors (Some demo_err)
     = [AString ''a'', AString ''x'', AString ''bs'', ASlice [AOther 2, AOther 1]]"
proof -
  let ?es = "visited demo_Errors demo_err"
  have v: "?es = [Structured (Some (Other () ''outer'' (Some (Structured (Some (Other () ''inner'' None))
     [(''b'', AOther 1), (''a'', AString ''x'')])))) [(''b'', AOther 2)],
     Other () ''outer'' (Some (Structured (Some (Other () ''inner'' None))
     [(''b'', AOther 1), (''a'', AString ''x'')])),
     Structured (Some (Other () ''inner'' None)) [(''b'', AOther 1), (''a'', AString ''x'')],
     Other () ''inner'' None]"
    by (simp add: visited_def demo_err_def demo_Errors_def)
  have "{k. values_at k ?es \<noteq> []} = {''a'', ''b''}" by (auto simp: v)
  moreover have "sorted_list_of_set {''a'', ''b''} = [''a'', ''b'']" by code_simp
  moreover have "\<forall>e' \<in> set ?es. distinct_keys e'" by (simp add: v)
  ultimately show ?thesis
    using unwrap_values_spec [of demo_Errors demo_err] by (simp add: v)
qed

text \<open>
  Values given to \<open>Wrap\<close> in the order of their keys are unwrapped as they were
  given, if the wrapped error has none.
\<close>

theorem wrap_unwrap:
  assumes "multierr_Errors_ok E" and "sorted_wrt (<) (map fst ps)"
    and "kvs = concat (map (\<lambda>(k, v). [AString k, v]) ps)"
    and "Wrap (Some (Other x m None)) kvs = Inr e"
  shows "UnwrapValues E (Some e) = kvs"
proof -
  have p: "pairs kvs = ps" unfolding assms(3) by (induction ps) auto
  have d: "distinct (map fst ps)" using assms(2) strict_sorted_iff by blast
  obtain kv where kv: "e = Structured (Some (Other x m None)) kv" "distinct (map fst kv)"
      "map_of kv = map_of ps"
    using assms(4) distinct_fold_update [of "[]" ps] map_of_fold_update [of ps "[]"]
    by (auto simp: Wrap_eq p map_of_rev_distinct [OF d] split: if_splits)
  have v: "visited E e = [e, Other x m None]"
    using assms(1) by (simp add: visited_def kv(1) multierr_Errors_ok_def)
  have dk: "\<forall>e' \<in> set (visited E e). distinct_keys e'"
    unfolding v unfolding kv(1) using kv(2) by simp
  have at: "values_at k (visited E e) = (case map_of ps k of None \<Rightarrow> [] | Some v \<Rightarrow> [v])" for k
    unfolding v unfolding kv(1) kv(3) [symmetric] by simp
  have "{k. values_at k (visited E e) \<noteq> []} = set (map fst ps)"
    by (auto simp: at map_of_eq_None_iff split: option.splits)
  moreover have "sorted_list_of_set (set (map fst ps)) = map fst ps"
    using assms(2) by (intro sorted_list_of_set.idem_if_sorted_distinct) (auto simp: strict_sorted_iff)
  ultimately have "UnwrapValues E (Some e)
      = concat (map (\<lambda>k. value_entry k (values_at k (visited E e))) (map fst ps))"
    using UnwrapValues_eq [OF dk] by simp
  also have "\<dots> = concat (map (\<lambda>(k, v). [AString k, v]) ps)"
    using d by (intro arg_cong [of _ _ concat]) (auto simp: at value_entry_def)
  finally show ?thesis by (simp add: assms(3))
qed

theorem wrap_unwrap_witness:
  "\<exists>e. Wrap (Some (Other () ''test'' None)) [AString ''key1'', AString ''value1'', AString ''key2'', AOther (2::nat)]
       = Inr e
     \<and> UnwrapValues demo_Errors (Some e)
       = [AString ''key1'', AString ''value1'', AString ''key2'', AOther 2]"
proof -
  let ?kvs = "[AString ''key1'', AString ''value1'', AString ''key2'', AOther (2::nat)]"
  obtain e where e: "Wrap (Some (Other () ''test'' None)) ?kvs = Inr e" by (simp add: Wrap_eq)
  have "sorted_wrt (<) (map fst [(''key1'', AString ''value1''), (''key2'', AOther (2::nat))])"
    by code_simp
  from wrap_unwrap [OF demo_Errors_ok this _ e] e show ?thesis by simp
qed

text \<open>
  No value is lost: every value of a structured error that is on the chain of
  \<open>Unwrap\<close>, or is one of the errors that an error on the chain is composed of, is in the result.
\<close>

theorem unwrap_complete:
  assumes "multierr_Errors_ok E" and "\<forall>e' \<in> set (visited E e). distinct_keys e'"
    and "Structured e' kv \<in> set (chain e)
         \<or> (\<exists>es. MultiError es \<in> set (chain e) \<and> Structured e' kv \<in> set es)"
    and "map_of kv k = Some v"
  shows "\<exists>xs vs ys. UnwrapValues E (Some e) = xs @ value_entry k vs @ ys \<and> v \<in> set vs"
proof -
  have "Structured e' kv \<in> set (visited E e)"
    using assms(3)
  proof
    assume "Structured e' kv \<in> set (chain e)"
    moreover have "Structured e' kv \<in> set (E (Structured e' kv))"
      using assms(1) by (simp add: multierr_Errors_ok_def)
    ultimately show ?thesis unfolding visited_def by auto
  next
    assume "\<exists>es. MultiError es \<in> set (chain e) \<and> Structured e' kv \<in> set es"
    then obtain es where "MultiError es \<in> set (chain e)" "Structured e' kv \<in> set (E (MultiError es))"
      using assms(1) by (auto simp: multierr_Errors_ok_def)
    then show ?thesis unfolding visited_def by auto
  qed
  moreover have "v \<in> set (value_at k (Structured e' kv))" using assms(4) by simp
  ultimately have v: "v \<in> set (values_at k (visited E e))" unfolding values_at_def
    by (auto simp del: value_at.simps)
  let ?K = "{k. values_at k (visited E e) \<noteq> []}"
  have "k \<in> set (sorted_list_of_set ?K)" using v finite_values_at [of "visited E e"] by auto
  then obtain ks ls where "sorted_list_of_set ?K = ks @ k # ls" by (meson split_list)
  with v show ?thesis by (auto simp: UnwrapValues_eq [OF assms(2)])
qed

theorem unwrap_complete_witness:
  "\<exists>xs vs ys. UnwrapValues demo_Errors (Some demo_err) = xs @ value_entry ''b'' vs @ ys
     \<and> AOther 1 \<in> set vs"
  by (rule unwrap_complete [OF demo_Errors_ok,
        of demo_err "Some (Other () ''inner'' None)" "[(''b'', AOther 1), (''a'', AString ''x'')]"])
    (auto simp: visited_def demo_err_def demo_Errors_def)

text \<open>
  The comment of \<open>UnwrapValues\<close> speaks of every wrapped error. Below an error composed of several
  ones the chain ends: the values of errors that its parts wrap are not found.
\<close>

lemma unwrap_misses_nested:
  "UnwrapValues demo_Errors (Some (MultiError
     [Other () ''a'' (Some (Structured (Some (Other () ''b'' None)) [(''k'', AOther (1::nat))]))])) = []"
  by (simp add: UnwrapValues_def demo_Errors_def)

end
