(* ===== verification/Condition.thy ===== *)
theory Condition
  imports Prelude
begin

section \<open>Conditions and the objects that carry them\<close>

text \<open>
  \<open>status/condition.go\<close>: the condition record, the methods of \<open>*Condition\<close> (with a nil receiver
  as \<open>None\<close>) and the interface \<open>Object\<close>. The interface is the record \<open>object_ops\<close> of its methods,
  which every operation on a \<open>ConditionSet\<close> takes as an argument, as Go passes the method table
  with the interface value; a method that changes the object returns the changed object. The
  locale \<open>lawful_object\<close> states what the condition library relies on: conditions are read back as
  they were written, and writing them changes nothing else. \<open>test/object.go\<close> provides an object,
  \<open>CustomObject\<close>, on which the locale is interpreted.
\<close>

record condition =
  Type :: string
  Status :: string
  ObservedGeneration :: int
  LastTransitionTime :: go_time
  Reason :: string
  Message :: string

definition ConditionTrue :: string where "ConditionTrue = ''True''"
definition ConditionFalse :: string where "ConditionFalse = ''False''"
definition ConditionUnknown :: string where "ConditionUnknown = ''Unknown''"

definition ConditionReady :: string where "ConditionReady = ''Ready''"
definition ConditionSucceeded :: string where "ConditionSucceeded = ''Succeeded''"

lemmas status_defs = ConditionTrue_def ConditionFalse_def ConditionUnknown_def

lemma status_distinct [simp]:
  "ConditionTrue \<noteq> ConditionFalse" "ConditionFalse \<noteq> ConditionTrue"
  "ConditionTrue \<noteq> ConditionUnknown" "ConditionUnknown \<noteq> ConditionTrue"
  "ConditionFalse \<noteq> ConditionUnknown" "ConditionUnknown \<noteq> ConditionFalse"
  by (simp_all add: status_defs)

definition IsTrue :: "condition option \<Rightarrow> bool" where
  "IsTrue c = (case c of None \<Rightarrow> False | Some c \<Rightarrow> Status c = ConditionTrue)"

definition IsFalse :: "condition option \<Rightarrow> bool" where
  "IsFalse c = (case c of None \<Rightarrow> False | Some c \<Rightarrow> Status c = ConditionFalse)"

definition IsUnknown :: "condition option \<Rightarrow> bool" where
  "IsUnknown c = (case c of None \<Rightarrow> True | Some c \<Rightarrow> Status c = ConditionUnknown)"

definition GetStatus :: "condition option \<Rightarrow> string" where
  "GetStatus c = (case c of None \<Rightarrow> ConditionUnknown | Some c \<Rightarrow> Status c)"

lemma receiver_simps [simp]:
  "\<not> IsTrue None" "\<not> IsFalse None" "IsUnknown None" "GetStatus None = ConditionUnknown"
  "IsTrue (Some c) \<longleftrightarrow> Status c = ConditionTrue"
  "IsFalse (Some c) \<longleftrightarrow> Status c = ConditionFalse"
  "IsUnknown (Some c) \<longleftrightarrow> Status c = ConditionUnknown"
  "GetStatus (Some c) = Status c"
  by (simp_all add: IsTrue_def IsFalse_def IsUnknown_def GetStatus_def)

subsection \<open>The interface Object\<close>

record 'o object_ops =
  GetConditions :: "'o \<Rightarrow> condition list"
  SetConditions :: "condition list \<Rightarrow> 'o \<Rightarrow> 'o"
  GetGeneration :: "'o \<Rightarrow> int"
  GetCreationTimestamp :: "'o \<Rightarrow> go_time"
  GetDeletionTimestamp :: "'o \<Rightarrow> go_time option"

locale lawful_object =
  fixes M :: "'o object_ops"
  assumes get_set: "GetConditions M (SetConditions M cs ob) = cs"
    and generation_set: "GetGeneration M (SetConditions M cs ob) = GetGeneration M ob"
    and creation_set: "GetCreationTimestamp M (SetConditions M cs ob) = GetCreationTimestamp M ob"
    and deletion_set: "GetDeletionTimestamp M (SetConditions M cs ob) = GetDeletionTimestamp M ob"
begin

lemmas object_simps = get_set generation_set creation_set deletion_set

end

subsection \<open>CustomObject\<close>

text \<open>
  The fields of \<open>metav1.ObjectMeta\<close> the repository reads, and the object of \<open>test/object.go\<close>.
\<close>

record object_meta =
  meta_Namespace :: string
  meta_Name :: string
  meta_Generation :: int
  meta_CreationTimestamp :: go_time
  meta_DeletionTimestamp :: "go_time option"
  meta_Labels :: strmap
  meta_Finalizers :: "string list"

record custom_object =
  ObjectMeta :: object_meta
  Spec_Field1 :: string
  Spec_Field2 :: string
  Status_Conditions :: "condition list"

definition custom_GetConditions :: "custom_object \<Rightarrow> condition list" where
  "custom_GetConditions t = Status_Conditions t"

definition custom_SetConditions :: "condition list \<Rightarrow> custom_object \<Rightarrow> custom_object" where
  "custom_SetConditions conditions t = t\<lparr>Status_Conditions := conditions\<rparr>"

definition CustomObject :: "custom_object object_ops" where
  "CustomObject =
     \<lparr>GetConditions = custom_GetConditions,
      SetConditions = custom_SetConditions,
      GetGeneration = (\<lambda>t. meta_Generation (ObjectMeta t)),
      GetCreationTimestamp = (\<lambda>t. meta_CreationTimestamp (ObjectMeta t)),
      GetDeletionTimestamp = (\<lambda>t. meta_DeletionTimestamp (ObjectMeta t))\<rparr>"

lemma CustomObject_simps [simp]:
  "GetConditions CustomObject t = Status_Conditions t"
  "SetConditions CustomObject cs t = t\<lparr>Status_Conditions := cs\<rparr>"
  "GetGeneration CustomObject t = meta_Generation (ObjectMeta t)"
  "GetCreationTimestamp CustomObject t = meta_CreationTimestamp (ObjectMeta t)"
  "GetDeletionTimestamp CustomObject t = meta_DeletionTimestamp (ObjectMeta t)"
  by (simp_all add: CustomObject_def custom_GetConditions_def custom_SetConditions_def)

interpretation custom: lawful_object CustomObject
  by unfold_locales simp_all

end
