(* ===== verification/ConditionSet.thy ===== *)
theory ConditionSet
  imports Condition
begin

section \<open>The condition set\<close>

text \<open>
  \<open>status/condition_set.go\<close>. A \<open>ConditionSet\<close> holds the condition types of a resource and the
  object that stores the conditions, nil in the zero value. The object is reached through a pointer
  and mutated in Go; here every method that changes it returns the changed set, together with the
  number of clock readings made. \<open>M\<close> is the object's method table, \<open>clk\<close> the clock.

  The first part follows the file. The methods with a non-nil receiver object are first defined on
  the object itself (\<open>Set_object\<close> and what it calls), then on the set with its nil check.
\<close>

subsection \<open>Types\<close>

record condition_types =
  root :: string
  dependents :: "string list"

definition newConditionTypes :: "string \<Rightarrow> string list \<Rightarrow> condition_types" where
  "newConditionTypes r ds = \<lparr>root = r, dependents = filter (\<lambda>c. \<not> c = r) (lo_Uniq ds)\<rparr>"

definition NewReadyConditions :: "string list \<Rightarrow> condition_types" where
  "NewReadyConditions d = newConditionTypes ConditionReady d"

definition NewSucceededConditions :: "string list \<Rightarrow> condition_types" where
  "NewSucceededConditions d = newConditionTypes ConditionSucceeded d"

record 'o condition_set =
  ctypes :: condition_types
  object :: "'o option"

definition empty_condition_set :: "'o condition_set" where
  "empty_condition_set = \<lparr>ctypes = \<lparr>root = [], dependents = []\<rparr>, object = None\<rparr>"

definition IsDependentCondition :: "condition_types \<Rightarrow> string \<Rightarrow> bool" where
  "IsDependentCondition ct t \<longleftrightarrow> t = root ct \<or> t \<in> set (dependents ct)"

subsection \<open>Reading\<close>

definition Get_object :: "'o object_ops \<Rightarrow> 'o \<Rightarrow> string \<Rightarrow> condition option" where
  "Get_object M ob t = find (\<lambda>c. Type c = t) (GetConditions M ob)"

definition cs_Get :: "'o object_ops \<Rightarrow> 'o condition_set \<Rightarrow> string \<Rightarrow> condition option" where
  "cs_Get M c t = (case object c of None \<Rightarrow> None | Some ob \<Rightarrow> Get_object M ob t)"

definition cs_Root :: "'o object_ops \<Rightarrow> 'o condition_set \<Rightarrow> condition option" where
  "cs_Root M c = (case object c of None \<Rightarrow> None | Some ob \<Rightarrow> cs_Get M c (root (ctypes c)))"

definition cs_List :: "'o object_ops \<Rightarrow> 'o condition_set \<Rightarrow> condition list" where
  "cs_List M c = (case object c of None \<Rightarrow> [] | Some ob \<Rightarrow> GetConditions M ob)"

fun cs_IsTrue :: "'o object_ops \<Rightarrow> 'o condition_set \<Rightarrow> string list \<Rightarrow> bool" where
  "cs_IsTrue M c [] = True"
| "cs_IsTrue M c (t # ts) = (if \<not> IsTrue (cs_Get M c t) then False else cs_IsTrue M c ts)"

subsection \<open>Set\<close>

text \<open>
  The loop over the stored conditions: \<open>Inl n\<close> is the early return of an unchanged condition,
  \<open>Inr (conditions, condition, found, n)\<close> what the loop leaves behind.
\<close>

fun Set_loop :: "'o object_ops \<Rightarrow> clock \<Rightarrow> 'o \<Rightarrow> condition list \<Rightarrow> condition \<Rightarrow> bool \<Rightarrow> nat
    \<Rightarrow> condition list \<Rightarrow> nat + (condition list \<times> condition \<times> bool \<times> nat)" where
  "Set_loop M clk ob conditions c found n [] = Inr (conditions, c, found, n)"
| "Set_loop M clk ob conditions c found n (cond # rest) =
     (if Type cond \<noteq> Type c then
        let cond = (if \<not> ptr_IsZero (GetDeletionTimestamp M ob)
                    then cond\<lparr>ObservedGeneration := GetGeneration M ob\<rparr> else cond)
        in Set_loop M clk ob (conditions @ [cond]) c found n rest
      else
        let (c, n) = (if Status c = Status cond
                      then (c\<lparr>LastTransitionTime := LastTransitionTime cond\<rparr>, n)
                      else (c\<lparr>LastTransitionTime := clk n\<rparr>, Suc n))
        in if c = cond then Inl n else Set_loop M clk ob conditions c True n rest)"

definition condition_less :: "string \<Rightarrow> condition \<Rightarrow> condition \<Rightarrow> bool" where
  "condition_less r ci cj =
     (if Type ci = r \<or> Type cj = r then Type cj = r
      else LastTransitionTime ci < LastTransitionTime cj)"

text \<open>\<open>Set\<close> up to the call of \<open>recomputeRootCondition\<close>.\<close>

definition Set_store :: "'o object_ops \<Rightarrow> clock \<Rightarrow> condition_types \<Rightarrow> condition \<Rightarrow> 'o \<times> nat
    \<Rightarrow> nat + ('o \<times> nat)" where
  "Set_store M clk ct c s =
     (let (ob, n) = s; c = c\<lparr>ObservedGeneration := GetGeneration M ob\<rparr>
      in case Set_loop M clk ob [] c False n (GetConditions M ob) of
           Inl n \<Rightarrow> Inl n
         | Inr (conditions, c, found, n) \<Rightarrow>
             let (c, n) =
                   (if found then (c, n)
                    else if IsDependentCondition ct (Type c)
                    then (c\<lparr>LastTransitionTime := GetCreationTimestamp M ob\<rparr>, n)
                    else (c\<lparr>LastTransitionTime := clk n\<rparr>, Suc n));
                 conditions = go_sort (condition_less (root ct)) (conditions @ [c])
             in Inr (SetConditions M conditions ob, n))"

definition findUnhealthyDependents ::
    "'o object_ops \<Rightarrow> condition_types \<Rightarrow> 'o \<Rightarrow> condition list" where
  "findUnhealthyDependents M ct ob =
     (if dependents ct = [] then []
      else let conditions = GetConditions M ob;
               conditions = filter (\<lambda>c. Type c \<in> set (dependents ct)) conditions;
               conditions = filter (\<lambda>c. IsFalse (Some c) \<or> IsUnknown (Some c)
                                     \<or> ObservedGeneration c \<noteq> GetGeneration M ob) conditions
           in go_sort (\<lambda>ci cj. LastTransitionTime ci > LastTransitionTime cj) conditions)"

definition mk_condition :: "string \<Rightarrow> string \<Rightarrow> string \<Rightarrow> string \<Rightarrow> condition" where
  "mk_condition t status reason message =
     \<lparr>Type = t, Status = status, ObservedGeneration = 0, LastTransitionTime = 0,
      Reason = reason, Message = message\<rparr>"

text \<open>The condition \<open>recomputeRootCondition\<close> hands to \<open>Set\<close>.\<close>

definition root_condition :: "'o object_ops \<Rightarrow> condition_types \<Rightarrow> 'o \<Rightarrow> condition" where
  "root_condition M ct ob =
     (let conditions = findUnhealthyDependents M ct ob
      in if length conditions = 0 then mk_condition (root ct) ConditionTrue (root ct) []
         else let status =
                    (if (\<exists>c \<in> set conditions. IsFalse (Some c)
                           \<and> ObservedGeneration c = GetGeneration M ob)
                     then ConditionFalse else ConditionUnknown)
              in mk_condition (root ct) status
                   (if status = ConditionUnknown then ''ReconcilingDependents''
                    else ''UnhealthyDependents'')
                   (strings_Join (map (\<lambda>c. Type c @ ''='' @ Status c) conditions) '', ''))"

text \<open>
  \<open>Set\<close> and \<open>recomputeRootCondition\<close> call each other; setting the root condition does not
  recompute it, so the recursion is at most two deep.
\<close>

lemma mk_condition_simps [simp]:
  "Type (mk_condition t s r m) = t" "Status (mk_condition t s r m) = s"
  "Reason (mk_condition t s r m) = r" "Message (mk_condition t s r m) = m"
  by (simp_all add: mk_condition_def)

lemma Type_root_condition [simp]: "Type (root_condition M ct ob) = root ct"
  by (simp add: root_condition_def Let_def)

function (sequential)
  Set_object :: "'o object_ops \<Rightarrow> clock \<Rightarrow> condition_types \<Rightarrow> condition \<Rightarrow> 'o \<times> nat
    \<Rightarrow> bool \<times> 'o \<times> nat"
and recomputeRootCondition :: "'o object_ops \<Rightarrow> clock \<Rightarrow> condition_types \<Rightarrow> string \<Rightarrow> 'o \<times> nat
    \<Rightarrow> 'o \<times> nat" where
  "Set_object M clk ct c s =
     (case Set_store M clk ct c s of
        Inl n \<Rightarrow> (False, fst s, n)
      | Inr s \<Rightarrow> (True, recomputeRootCondition M clk ct (Type c) s))"
| "recomputeRootCondition M clk ct t s =
     (if t = root ct then s
      else snd (Set_object M clk ct (root_condition M ct (fst s)) s))"
  by pat_completeness auto
termination
  by (relation "measure (\<lambda>x. case x of
        Inl (M, clk, ct, c, s) \<Rightarrow> if Type c = root ct then 1 else 3
      | Inr (M, clk, ct, t, s) \<Rightarrow> if t = root ct then 0 else 2)") auto

declare Set_object.simps [simp del] recomputeRootCondition.simps [simp del]

definition cs_Set :: "'o object_ops \<Rightarrow> clock \<Rightarrow> 'o condition_set \<Rightarrow> condition \<Rightarrow> nat
    \<Rightarrow> (bool \<times> 'o condition_set \<times> nat) go" where
  "cs_Set M clk c condition n =
     (case object c of
        None \<Rightarrow> Inl NilDereference
      | Some ob \<Rightarrow>
          let (modified, ob, n) = Set_object M clk (ctypes c) condition (ob, n)
          in Inr (modified, c\<lparr>object := Some ob\<rparr>, n))"

definition cs_SetTrueWithReason where
  "cs_SetTrueWithReason M clk c t reason message n =
     cs_Set M clk c (mk_condition t ConditionTrue reason message) n"

definition cs_SetTrue where
  "cs_SetTrue M clk c t n = cs_SetTrueWithReason M clk c t t [] n"

definition cs_SetUnknownWithReason where
  "cs_SetUnknownWithReason M clk c t reason message n =
     cs_Set M clk c (mk_condition t ConditionUnknown reason message) n"

definition cs_SetUnknown where
  "cs_SetUnknown M clk c t n =
     cs_SetUnknownWithReason M clk c t ''AwaitingReconciliation''
       ''object is awaiting reconciliation'' n"

definition cs_SetFalse where
  "cs_SetFalse M clk c t reason message n =
     cs_Set M clk c (mk_condition t ConditionFalse reason message) n"

subsection \<open>Clear\<close>

datatype clear_result = ClearOk | ClearError string

definition cs_Clear :: "'o object_ops \<Rightarrow> 'o condition_set \<Rightarrow> string
    \<Rightarrow> clear_result \<times> 'o condition_set" where
  "cs_Clear M c t =
     (case object c of
        None \<Rightarrow> (ClearOk, c)
      | Some ob \<Rightarrow>
          if IsDependentCondition (ctypes c) t
          then (ClearError ''clearing dependent conditions not implemented'', c)
          else (case cs_Get M c t of
                  None \<Rightarrow> (ClearOk, c)
                | Some cond \<Rightarrow>
                    let conditions = filter (\<lambda>c. Type c \<noteq> t) (GetConditions M ob);
                        conditions = go_sort (\<lambda>ci cj. Type ci < Type cj) conditions
                    in (ClearOk, c\<lparr>object := Some (SetConditions M conditions ob)\<rparr>)))"

subsection \<open>For\<close>

fun For_loop :: "'o object_ops \<Rightarrow> clock \<Rightarrow> string list \<Rightarrow> 'o condition_set \<Rightarrow> nat
    \<Rightarrow> ('o condition_set \<times> nat) go" where
  "For_loop M clk [] cs n = Inr (cs, n)"
| "For_loop M clk (t # ts) cs n =
     (if cs_Get M cs t = None
      then (case cs_SetUnknown M clk cs t n of
              Inl p \<Rightarrow> Inl p
            | Inr (_, cs, n) \<Rightarrow> For_loop M clk ts cs n)
      else For_loop M clk ts cs n)"

definition cs_For :: "'o object_ops \<Rightarrow> clock \<Rightarrow> condition_types \<Rightarrow> 'o option \<Rightarrow> nat
    \<Rightarrow> ('o condition_set \<times> nat) go" where
  "cs_For M clk r ob n =
     For_loop M clk (root r # dependents r) \<lparr>ctypes = r, object = ob\<rparr> n"

section \<open>What the operations do\<close>

text \<open>
  The lemmas below describe the operations on an object whose condition types are distinct, the
  invariant \<open>wf_conditions\<close>, through what \<open>Get\<close> returns afterwards. \<open>bump\<close> is the treatment of the
  conditions that are not set (their observed generation follows the object's while it is being
  deleted), \<open>unchanged\<close> the case in which \<open>Set\<close> returns early, and \<open>stamped\<close> the condition that is
  stored otherwise, with the clock readings it takes.
\<close>

definition wf_conditions :: "'o object_ops \<Rightarrow> 'o \<Rightarrow> bool" where
  "wf_conditions M ob \<longleftrightarrow> distinct (map Type (GetConditions M ob))"

definition wf_types :: "condition_types \<Rightarrow> bool" where
  "wf_types ct \<longleftrightarrow> root ct \<notin> set (dependents ct) \<and> distinct (dependents ct)"

definition bump :: "'o object_ops \<Rightarrow> 'o \<Rightarrow> condition \<Rightarrow> condition" where
  "bump M ob c = (if \<not> ptr_IsZero (GetDeletionTimestamp M ob)
                  then c\<lparr>ObservedGeneration := GetGeneration M ob\<rparr> else c)"

definition unchanged :: "'o object_ops \<Rightarrow> 'o \<Rightarrow> condition \<Rightarrow> bool" where
  "unchanged M ob c \<longleftrightarrow>
     (\<exists>d. Get_object M ob (Type c) = Some d \<and> Status d = Status c \<and> Reason d = Reason c
          \<and> Message d = Message c \<and> ObservedGeneration d = GetGeneration M ob)"

definition stamp_time ::
    "'o object_ops \<Rightarrow> clock \<Rightarrow> condition_types \<Rightarrow> condition \<Rightarrow> 'o \<times> nat \<Rightarrow> go_time \<times> nat" where
  "stamp_time M clk ct c s =
     (case Get_object M (fst s) (Type c) of
        None \<Rightarrow> if IsDependentCondition ct (Type c) then (GetCreationTimestamp M (fst s), snd s)
                else (clk (snd s), Suc (snd s))
      | Some d \<Rightarrow> if Status c = Status d then (LastTransitionTime d, snd s)
                  else (clk (snd s), Suc (snd s)))"

definition stamped ::
    "'o object_ops \<Rightarrow> clock \<Rightarrow> condition_types \<Rightarrow> condition \<Rightarrow> 'o \<times> nat \<Rightarrow> condition" where
  "stamped M clk ct c s =
     c\<lparr>ObservedGeneration := GetGeneration M (fst s),
       LastTransitionTime := fst (stamp_time M clk ct c s)\<rparr>"

lemma wf_types_newConditionTypes: "wf_types (newConditionTypes r ds)"
  by (simp add: wf_types_def newConditionTypes_def)

lemma newConditionTypes_simps [simp]:
  "root (newConditionTypes r ds) = r"
  "set (dependents (newConditionTypes r ds)) = set ds - {r}"
  by (auto simp: newConditionTypes_def)

lemma bump_simps [simp]:
  "Type (bump M ob c) = Type c" "Status (bump M ob c) = Status c"
  "Reason (bump M ob c) = Reason c" "Message (bump M ob c) = Message c"
  "LastTransitionTime (bump M ob c) = LastTransitionTime c"
  by (simp_all add: bump_def)

lemma bump_idem [simp]: "bump M ob (bump M ob c) = bump M ob c"
  by (simp add: bump_def)

lemma bump_current: "ObservedGeneration c = GetGeneration M ob \<Longrightarrow> bump M ob c = c"
  by (simp add: bump_def)

lemma stamped_simps [simp]:
  "Type (stamped M clk ct c s) = Type c" "Status (stamped M clk ct c s) = Status c"
  "Reason (stamped M clk ct c s) = Reason c" "Message (stamped M clk ct c s) = Message c"
  "ObservedGeneration (stamped M clk ct c s) = GetGeneration M (fst s)"
  "LastTransitionTime (stamped M clk ct c s) = fst (stamp_time M clk ct c s)"
  by (simp_all add: stamped_def)

lemma Get_object_Type: "Get_object M ob t = Some c \<Longrightarrow> Type c = t"
  by (auto simp: Get_object_def find_Some_iff)

lemma Get_object_iff:
  "wf_conditions M ob \<Longrightarrow>
   Get_object M ob t = Some c \<longleftrightarrow> c \<in> set (GetConditions M ob) \<and> Type c = t"
  by (simp add: Get_object_def wf_conditions_def find_key_iff)

lemma Get_object_None: "Get_object M ob t = None \<longleftrightarrow> t \<notin> Type ` set (GetConditions M ob)"
  by (simp add: Get_object_def find_key_None)

subsection \<open>The loop\<close>

lemma Set_loop_absent:
  "Type c \<notin> Type ` set cs \<Longrightarrow>
   Set_loop M clk ob acc c f n cs = Inr (acc @ map (bump M ob) cs, c, f, n)"
  by (induction cs arbitrary: acc) (auto simp: bump_def)

lemma Set_loop_present:
  assumes "distinct (map Type cs)" and "find (\<lambda>d. Type d = Type c) cs = Some d"
  shows "Set_loop M clk ob acc c f n cs =
    (if c\<lparr>LastTransitionTime := LastTransitionTime d\<rparr> = d then Inl n
     else Inr (acc @ map (bump M ob) (filter (\<lambda>d. Type d \<noteq> Type c) cs),
               c\<lparr>LastTransitionTime :=
                   if Status c = Status d then LastTransitionTime d else clk n\<rparr>,
               True, if Status c = Status d then n else Suc n))"
  using assms
proof (induction cs arbitrary: acc)
  case (Cons e cs)
  show ?case
  proof (cases "Type e = Type c")
    case True
    with Cons.prems have "Type c \<notin> Type ` set cs" and [simp]: "d = e" by auto
    moreover have "Status c \<noteq> Status e \<Longrightarrow> c\<lparr>LastTransitionTime := t\<rparr> \<noteq> e" for t by auto
    ultimately show ?thesis using True by (auto simp: Set_loop_absent)
  next
    case False
    with Cons show ?thesis by (auto simp: bump_def)
  qed
qed simp

lemma unchanged_iff:
  "Get_object M ob (Type c) = Some d \<Longrightarrow>
   unchanged M ob c \<longleftrightarrow>
     c\<lparr>ObservedGeneration := GetGeneration M ob, LastTransitionTime := LastTransitionTime d\<rparr> = d"
  by (cases c; cases d) (auto simp: unchanged_def dest: Get_object_Type)

text \<open>
  The object \<open>Set\<close> stores before the root condition is recomputed, and the state after it has been.
\<close>

definition store :: "'o object_ops \<Rightarrow> clock \<Rightarrow> condition_types \<Rightarrow> condition \<Rightarrow> 'o \<times> nat \<Rightarrow> 'o \<times> nat"
where
  "store M clk ct c s =
     (SetConditions M
        (go_sort (condition_less (root ct))
           (map (bump M (fst s)) (filter (\<lambda>d. Type d \<noteq> Type c) (GetConditions M (fst s)))
             @ [stamped M clk ct c s])) (fst s),
      snd (stamp_time M clk ct c s))"

definition settle :: "'o object_ops \<Rightarrow> clock \<Rightarrow> condition_types \<Rightarrow> 'o \<times> nat \<Rightarrow> 'o \<times> nat" where
  "settle M clk ct s =
     (if unchanged M (fst s) (root_condition M ct (fst s)) then s
      else store M clk ct (root_condition M ct (fst s)) s)"

lemma Set_store_eq:
  assumes "wf_conditions M (fst s)"
  shows "Set_store M clk ct c s =
    (if unchanged M (fst s) c then Inl (snd s) else Inr (store M clk ct c s))"
proof -
  obtain ob n where s: "s = (ob, n)" by (cases s)
  with assms have wf: "wf_conditions M ob" by simp
  show ?thesis
  proof (cases "Get_object M ob (Type c)")
    case None
    then have "Type c \<notin> Type ` set (GetConditions M ob)" by (simp add: Get_object_None)
    moreover have "\<not> unchanged M ob c" using None by (simp add: unchanged_def)
    ultimately show ?thesis
      by (simp add: s Set_store_def Set_loop_absent stamped_def stamp_time_def store_def None
          Let_def)
  next
    case (Some d)
    let ?c = "c\<lparr>ObservedGeneration := GetGeneration M ob\<rparr>"
    have "find (\<lambda>d. Type d = Type ?c) (GetConditions M ob) = Some d"
      using Some by (simp add: Get_object_def)
    note loop = Set_loop_present [OF wf [unfolded wf_conditions_def] this]
    show ?thesis
      by (simp add: s Set_store_def loop unchanged_iff [OF Some] stamped_def stamp_time_def
          store_def Some Let_def)
  qed
qed

subsection \<open>The order of the stored conditions\<close>

definition condition_key :: "string \<Rightarrow> condition \<Rightarrow> bool \<times> go_time" where
  "condition_key r c = (Type c = r, if Type c = r then 0 else LastTransitionTime c)"

lemma condition_less_key:
  "Type ci \<noteq> Type cj \<Longrightarrow>
   condition_less r ci cj \<longleftrightarrow> condition_key r ci < condition_key r cj"
  by (auto simp: condition_less_def condition_key_def)

lemma go_sort_conditions:
  assumes "distinct (map Type cs)"
  shows "go_sort (condition_less r) cs = sort_key (condition_key r) cs"
proof (rule go_sort_eq_sort_key)
  have "sorted_wrt (\<lambda>y x. Type y \<noteq> Type x) cs"
    using assms by (induction cs) auto
  then show "sorted_wrt (\<lambda>y x. condition_less r x y \<longleftrightarrow> condition_key r x < condition_key r y) cs"
    by (rule sorted_wrt_mono_rel [rotated]) (simp add: condition_less_key)
qed

text \<open>Sorted by the key: the root condition is last, the others are in order of their transition.\<close>

definition conditions_sorted :: "string \<Rightarrow> condition list \<Rightarrow> bool" where
  "conditions_sorted r cs \<longleftrightarrow> sorted (map (condition_key r) cs)"

lemma conditions_sorted_rootD:
  assumes "conditions_sorted r cs" "distinct (map Type cs)" "r \<in> Type ` set cs"
  shows "Type (last cs) = r \<and> sorted (map LastTransitionTime (butlast cs))"
proof (cases cs rule: rev_exhaust)
  case Nil
  with assms show ?thesis by simp
next
  case (snoc xs x)
  from assms(1) have srt: "sorted (map (condition_key r) xs)"
    and le: "\<And>y. y \<in> set xs \<Longrightarrow> condition_key r y \<le> condition_key r x"
    by (auto simp: conditions_sorted_def snoc sorted_append)
  have x: "Type x = r"
    using assms(3) le by (fastforce simp: snoc condition_key_def)
  have "Type x \<notin> Type ` set xs" using assms(2) by (simp add: snoc)
  then have "Type y \<noteq> r" if "y \<in> set xs" for y using that x by (metis image_eqI)
  with srt have "sorted (map LastTransitionTime xs)"
    by (induction xs) (fastforce simp: condition_key_def)+
  with x show ?thesis by (simp add: snoc)
qed

subsection \<open>Effects on a lawful object\<close>

text \<open>A state that \<open>Set\<close> has stored has its other conditions bumped already.\<close>

definition bumped :: "'o object_ops \<Rightarrow> 'o \<Rightarrow> bool" where
  "bumped M ob \<longleftrightarrow> (\<forall>t. map_option (bump M ob) (Get_object M ob t) = Get_object M ob t)"

context lawful_object
begin

lemma store_meta [simp]:
  "GetGeneration M (fst (store M clk ct c s)) = GetGeneration M (fst s)"
  "GetCreationTimestamp M (fst (store M clk ct c s)) = GetCreationTimestamp M (fst s)"
  "GetDeletionTimestamp M (fst (store M clk ct c s)) = GetDeletionTimestamp M (fst s)"
  by (simp_all add: store_def object_simps)

lemma bump_store [simp]: "bump M (fst (store M clk ct c s)) = bump M (fst s)"
  by (simp add: bump_def fun_eq_iff)

lemma settle_meta [simp]:
  "GetGeneration M (fst (settle M clk ct s)) = GetGeneration M (fst s)"
  "GetCreationTimestamp M (fst (settle M clk ct s)) = GetCreationTimestamp M (fst s)"
  "GetDeletionTimestamp M (fst (settle M clk ct s)) = GetDeletionTimestamp M (fst s)"
  by (simp_all add: settle_def)

lemma distinct_unsorted:
  assumes "wf_conditions M (fst s)"
  shows "distinct (map Type (map (bump M (fst s))
           (filter (\<lambda>d. Type d \<noteq> Type c) (GetConditions M (fst s))) @ [stamped M clk ct c s]))"
  using assms by (auto simp: wf_conditions_def distinct_map_filter comp_def)

lemma wf_store: "wf_conditions M (fst s) \<Longrightarrow> wf_conditions M (fst (store M clk ct c s))"
  using distinct_unsorted [of s c clk ct] by (simp add: wf_conditions_def store_def object_simps)

lemma store_sorted:
  "wf_conditions M (fst s) \<Longrightarrow>
   conditions_sorted (root ct) (GetConditions M (fst (store M clk ct c s)))"
  using go_sort_conditions [OF distinct_unsorted [of s c clk ct]]
  by (simp add: conditions_sorted_def store_def object_simps)

lemma Get_store:
  assumes "wf_conditions M (fst s)"
  shows "Get_object M (fst (store M clk ct c s)) t =
    (if t = Type c then Some (stamped M clk ct c s)
     else map_option (bump M (fst s)) (Get_object M (fst s) t))"
proof -
  let ?cs = "map (bump M (fst s)) (filter (\<lambda>d. Type d \<noteq> Type c) (GetConditions M (fst s)))
    @ [stamped M clk ct c s]"
  have "Get_object M (fst (store M clk ct c s)) t = find (\<lambda>d. Type d = t) ?cs"
    using distinct_unsorted [OF assms, of c clk ct]
    by (simp add: Get_object_def store_def object_simps) (rule find_key_cong, simp_all)
  then show ?thesis
    by (auto simp: Get_object_def find_key_append find_key_map find_key_filter
        split: option.split)
qed

lemma wf_settle: "wf_conditions M (fst s) \<Longrightarrow> wf_conditions M (fst (settle M clk ct s))"
  by (simp add: settle_def wf_store)

lemma settle_sorted:
  "wf_conditions M (fst s) \<Longrightarrow> conditions_sorted (root ct) (GetConditions M (fst s)) \<Longrightarrow>
   conditions_sorted (root ct) (GetConditions M (fst (settle M clk ct s)))"
  by (simp add: settle_def store_sorted)

lemma bumped_store: "wf_conditions M (fst s) \<Longrightarrow> bumped M (fst (store M clk ct c s))"
  by (auto simp: bumped_def Get_store bump_current option.map_comp comp_def)

lemma Get_settle_other:
  "wf_conditions M (fst s) \<Longrightarrow> bumped M (fst s) \<Longrightarrow> t \<noteq> root ct \<Longrightarrow>
   Get_object M (fst (settle M clk ct s)) t = Get_object M (fst s) t"
  by (simp add: settle_def Get_store bumped_def)

lemma Get_settle_root:
  assumes "wf_conditions M (fst s)"
  shows "\<exists>r. Get_object M (fst (settle M clk ct s)) (root ct) = Some r
    \<and> Status r = Status (root_condition M ct (fst s))
    \<and> Reason r = Reason (root_condition M ct (fst s))
    \<and> Message r = Message (root_condition M ct (fst s))
    \<and> ObservedGeneration r = GetGeneration M (fst s)"
  using assms by (auto simp: settle_def Get_store unchanged_def)

text \<open>\<open>Set\<close> without its recursion.\<close>

lemma Set_object_eq:
  assumes "wf_conditions M (fst s)"
  shows "Set_object M clk ct c s =
    (if unchanged M (fst s) c then (False, s)
     else (True, if Type c = root ct then store M clk ct c s
                 else settle M clk ct (store M clk ct c s)))"
  using assms wf_store [OF assms]
  by (cases s) (simp add: Set_object.simps recomputeRootCondition.simps Set_store_eq settle_def)

lemma recomputeRootCondition_eq:
  assumes "wf_conditions M (fst s)"
  shows "recomputeRootCondition M clk ct t s = (if t = root ct then s else settle M clk ct s)"
  using assms by (simp add: recomputeRootCondition.simps Set_object_eq settle_def)

lemma Set_object_wf:
  "wf_conditions M (fst s) \<Longrightarrow> wf_conditions M (fst (snd (Set_object M clk ct c s)))"
  by (simp add: Set_object_eq wf_store wf_settle)

lemma Set_object_meta:
  assumes "wf_conditions M (fst s)"
  shows "GetGeneration M (fst (snd (Set_object M clk ct c s))) = GetGeneration M (fst s)"
    "GetCreationTimestamp M (fst (snd (Set_object M clk ct c s))) = GetCreationTimestamp M (fst s)"
    "GetDeletionTimestamp M (fst (snd (Set_object M clk ct c s))) = GetDeletionTimestamp M (fst s)"
  using assms by (simp_all add: Set_object_eq)

lemma Set_object_sorted:
  "wf_conditions M (fst s) \<Longrightarrow> fst (Set_object M clk ct c s) \<Longrightarrow>
   conditions_sorted (root ct) (GetConditions M (fst (snd (Set_object M clk ct c s))))"
  by (simp add: Set_object_eq store_sorted settle_sorted wf_store split: if_splits)

lemma Set_object_Get_set:
  assumes "wf_conditions M (fst s)" "\<not> unchanged M (fst s) c"
  shows "Get_object M (fst (snd (Set_object M clk ct c s))) (Type c) = Some (stamped M clk ct c s)"
  using assms by (simp add: Set_object_eq Get_settle_other wf_store bumped_store Get_store)

lemma Set_object_Get_other:
  assumes "wf_conditions M (fst s)" "t \<noteq> Type c" "t \<noteq> root ct"
  shows "Get_object M (fst (snd (Set_object M clk ct c s))) t =
    (if unchanged M (fst s) c then Get_object M (fst s) t
     else map_option (bump M (fst s)) (Get_object M (fst s) t))"
  using assms by (simp add: Set_object_eq Get_settle_other wf_store bumped_store Get_store)

end

end
