(* ===== verification/StatusMetrics.thy ===== *)
theory StatusMetrics
  imports Prelude
begin

section \<open>The metrics of the status controller\<close>

text \<open>
  \<open>status/metrics.go\<close> with the label names of \<open>metrics/types.go\<close>: what each metric is registered
  with. A metric vector of Prometheus accepts a call only with exactly the label names it was
  registered with (\<open>With\<close> panics otherwise), so the names matter to the controller. Help texts are
  left out; bucket bounds are of a type \<open>'b\<close> and \<open>DefBuckets\<close>, Prometheus' default, is a parameter.
\<close>

definition Namespace_operator :: string where "Namespace_operator = ''operator''"
definition LabelGroup :: string where "LabelGroup = ''group''"
definition LabelKind :: string where "LabelKind = ''kind''"
definition LabelType :: string where "LabelType = ''type''"
definition LabelReason :: string where "LabelReason = ''reason''"
definition MetricLabelNamespace :: string where "MetricLabelNamespace = ''namespace''"
definition MetricLabelName :: string where "MetricLabelName = ''name''"
definition MetricLabelConditionStatus :: string where "MetricLabelConditionStatus = ''status''"
definition MetricSubsystem :: string where "MetricSubsystem = ''status_condition''"
definition TerminationSubsystem :: string where "TerminationSubsystem = ''termination''"

lemmas label_defs = LabelGroup_def LabelKind_def LabelType_def LabelReason_def
  MetricLabelNamespace_def MetricLabelName_def MetricLabelConditionStatus_def

datatype metric_kind = Counter | Gauge | Histogram

record 'b metric_desc =
  desc_kind :: metric_kind
  desc_Namespace :: string
  desc_Subsystem :: string
  desc_Name :: string
  desc_Buckets :: "'b list"
  desc_labelNames :: "string list"

definition subsystem_of :: "string \<Rightarrow> string \<Rightarrow> string" where
  "subsystem_of objectName base = (if length objectName = 0 then base else objectName @ ''_'' @ base)"

definition buckets_of :: "'b list \<Rightarrow> 'b list \<Rightarrow> 'b list" where
  "buckets_of DefBuckets buckets = (if length buckets = 0 then DefBuckets else buckets)"

definition conditionDurationMetric :: "'b list \<Rightarrow> string \<Rightarrow> 'b list \<Rightarrow> string list \<Rightarrow> 'b metric_desc" where
  "conditionDurationMetric DefBuckets objectName buckets additionalLabels =
     \<lparr>desc_kind = Histogram, desc_Namespace = Namespace_operator,
      desc_Subsystem = subsystem_of objectName MetricSubsystem, desc_Name = ''transition_seconds'',
      desc_Buckets = buckets_of DefBuckets buckets,
      desc_labelNames = [LabelType, MetricLabelConditionStatus] @ additionalLabels\<rparr>"

definition conditionCountMetric :: "string \<Rightarrow> string list \<Rightarrow> 'b metric_desc" where
  "conditionCountMetric objectName additionalLabels =
     \<lparr>desc_kind = Gauge, desc_Namespace = Namespace_operator,
      desc_Subsystem = subsystem_of objectName MetricSubsystem, desc_Name = ''count'',
      desc_Buckets = [],
      desc_labelNames = [MetricLabelNamespace, MetricLabelName, LabelType,
        MetricLabelConditionStatus, LabelReason] @ additionalLabels\<rparr>"

definition conditionCurrentStatusSecondsMetric :: "string \<Rightarrow> string list \<Rightarrow> 'b metric_desc" where
  "conditionCurrentStatusSecondsMetric objectName additionalLabels =
     \<lparr>desc_kind = Gauge, desc_Namespace = Namespace_operator,
      desc_Subsystem = subsystem_of objectName MetricSubsystem, desc_Name = ''current_status_seconds'',
      desc_Buckets = [],
      desc_labelNames = [MetricLabelNamespace, MetricLabelName, LabelType,
        MetricLabelConditionStatus, LabelReason] @ additionalLabels\<rparr>"

definition conditionTransitionsTotalMetric :: "string \<Rightarrow> string list \<Rightarrow> 'b metric_desc" where
  "conditionTransitionsTotalMetric objectName additionalLabels =
     \<lparr>desc_kind = Counter, desc_Namespace = Namespace_operator,
      desc_Subsystem = subsystem_of objectName MetricSubsystem, desc_Name = ''transitions_total'',
      desc_Buckets = [],
      desc_labelNames = [LabelType, MetricLabelConditionStatus, LabelReason] @ additionalLabels\<rparr>"

definition terminationCurrentTimeSecondsMetric :: "string \<Rightarrow> string list \<Rightarrow> 'b metric_desc" where
  "terminationCurrentTimeSecondsMetric objectName additionalLabels =
     \<lparr>desc_kind = Gauge, desc_Namespace = Namespace_operator,
      desc_Subsystem = subsystem_of objectName TerminationSubsystem, desc_Name = ''current_time_seconds'',
      desc_Buckets = [], desc_labelNames = [MetricLabelNamespace, MetricLabelName] @ additionalLabels\<rparr>"

definition terminationDurationMetric :: "'b list \<Rightarrow> string \<Rightarrow> 'b list \<Rightarrow> string list \<Rightarrow> 'b metric_desc" where
  "terminationDurationMetric DefBuckets objectName buckets additionalLabels =
     \<lparr>desc_kind = Histogram, desc_Namespace = Namespace_operator,
      desc_Subsystem = subsystem_of objectName TerminationSubsystem, desc_Name = ''duration_seconds'',
      desc_Buckets = buckets_of DefBuckets buckets, desc_labelNames = additionalLabels\<rparr>"

text \<open>
  The metrics by name. Each exists twice: the current one, registered by every controller for its
  kind, and the deprecated one, a package variable registered once with the labels \<open>group\<close> and \<open>kind\<close>.
\<close>

datatype metric = ConditionDuration | ConditionCount | ConditionCurrentStatusSeconds
  | ConditionTransitionsTotal | TerminationCurrentTimeSeconds | TerminationDuration

datatype family = Current | Deprecated

fun deprecated_metric :: "'b list \<Rightarrow> metric \<Rightarrow> 'b metric_desc" where
  "deprecated_metric D ConditionDuration = conditionDurationMetric D [] [] [LabelGroup, LabelKind]"
| "deprecated_metric D ConditionCount = conditionCountMetric [] [LabelGroup, LabelKind]"
| "deprecated_metric D ConditionCurrentStatusSeconds =
     conditionCurrentStatusSecondsMetric [] [LabelGroup, LabelKind]"
| "deprecated_metric D ConditionTransitionsTotal =
     conditionTransitionsTotalMetric [] [LabelGroup, LabelKind]"
| "deprecated_metric D TerminationCurrentTimeSeconds =
     terminationCurrentTimeSecondsMetric [] [LabelGroup, LabelKind]"
| "deprecated_metric D TerminationDuration = terminationDurationMetric D [] [] [LabelGroup, LabelKind]"

lemmas metric_defs = conditionDurationMetric_def conditionCountMetric_def
  conditionCurrentStatusSecondsMetric_def conditionTransitionsTotalMetric_def
  terminationCurrentTimeSecondsMetric_def terminationDurationMetric_def

end
