(* ===== verification/Unstructured.thy ===== *)
theory Unstructured
  imports Prelude "HOL-Library.AList" "HOL-Library.Sublist"
begin

section \<open>Partial conversion to unstructured content\<close>

text \<open>
  \<open>unstructured/unstructured.go\<close>: picking single fields out of an object by reflection. A value is
  what \<open>reflect\<close> shows of it: a struct with the name, the \<open>json\<close> tag and the visibility of its
  fields, a map (its flag tells whether its type is \<open>map[string]interface{}\<close>), a pointer, a string,
  a nil interface, or something else. The entries of a map are listed in the order of \<open>MapKeys\<close>.

  A map is a reference in Go. A field that is taken as a whole is stored in the result by
  reference, and the merge loop of \<open>extractNestedField\<close> then writes into the object's own map. The
  model keeps such an entry as \<open>Alias\<close>, to be read from the object when it is used, and returns
  the object along with the result.
\<close>

record field_info =
  Field_Name :: string
  Field_Tag :: string
  Field_Exported :: bool

datatype 'a gov =
    GNil
  | GString string
  | GOther 'a
  | GPtr "'a gov option"
  | GStruct "(field_info \<times> 'a gov) list"
  | GMap bool "(string \<times> 'a gov) list"

datatype 'a goobj = Unstructured_object "(string \<times> 'a gov) list" | Object_value "'a gov"

definition getJSONKey :: "field_info \<Rightarrow> string" where
  "getJSONKey f =
     (if Field_Tag f = [] then Field_Name f
      else if CHR '','' \<in> set (Field_Tag f) then takeWhile (\<lambda>c. c \<noteq> CHR '','') (Field_Tag f)
      else Field_Tag f)"

fun deref :: "'a gov \<Rightarrow> 'a gov" where
  "deref (GPtr None) = GNil"
| "deref (GPtr (Some v)) = v"
| "deref v = v"

definition field_matches :: "string \<Rightarrow> field_info \<Rightarrow> bool" where
  "field_matches k f \<longleftrightarrow> Field_Name f = k \<or> getJSONKey f = k"

text \<open>The two search loops: \<open>None\<close> is the invalid value, the flag tells whether \<open>Interface()\<close> may be called.\<close>

fun struct_field :: "string \<Rightarrow> (field_info \<times> 'a gov) list \<Rightarrow> (bool \<times> 'a gov) option" where
  "struct_field k [] = None"
| "struct_field k ((f, v) # fs) =
     (if field_matches k f then Some (Field_Exported f, v) else struct_field k fs)"

definition select :: "'a gov \<Rightarrow> string \<Rightarrow> (bool \<times> 'a gov) option" where
  "select v k =
     (case deref v of
        GStruct fs \<Rightarrow> struct_field k fs
      | GMap t kvs \<Rightarrow> map_option (\<lambda>v. (True, v)) (map_of kvs k)
      | _ \<Rightarrow> None)"

text \<open>A write into the map that the object holds at \<open>k\<close>.\<close>

fun put_struct :: "string \<Rightarrow> 'a gov \<Rightarrow> (field_info \<times> 'a gov) list \<Rightarrow> (field_info \<times> 'a gov) list" where
  "put_struct k w [] = []"
| "put_struct k w ((f, v) # fs) =
     (if field_matches k f then (f, w) # fs else (f, v) # put_struct k w fs)"

fun put_field :: "'a gov \<Rightarrow> string \<Rightarrow> 'a gov \<Rightarrow> 'a gov" where
  "put_field (GStruct fs) k w = GStruct (put_struct k w fs)"
| "put_field (GMap t kvs) k w = GMap t (AList.update k w kvs)"
| "put_field (GPtr (Some (GStruct fs))) k w = GPtr (Some (GStruct (put_struct k w fs)))"
| "put_field (GPtr (Some (GMap t kvs))) k w = GPtr (Some (GMap t (AList.update k w kvs)))"
| "put_field v k w = v"

datatype 'a entry = Alias | Fresh "(string \<times> 'a gov) list"

type_synonym 'a entries = "(string \<times> 'a entry) list"

definition resolve :: "'a gov \<Rightarrow> 'a entries \<Rightarrow> (string \<times> 'a gov) list" where
  "resolve obj result =
     map (\<lambda>(k, e). (k, case e of Alias \<Rightarrow> (case select obj k of None \<Rightarrow> GNil | Some (_, v) \<Rightarrow> v)
                             | Fresh kvs \<Rightarrow> GMap True kvs)) result"

definition not_a_map :: panic where
  "not_a_map = PanicMessage ''full field path not found''"

text \<open>The merge loop: \<open>result[f].(map[string]interface{})[k] = v\<close>.\<close>

fun merge_loop :: "string \<Rightarrow> (string \<times> 'a gov) list \<Rightarrow> 'a gov \<Rightarrow> 'a entries
    \<Rightarrow> ('a gov \<times> 'a entries) go" where
  "merge_loop f [] obj result = Inr (obj, result)"
| "merge_loop f ((k, v) # rest) obj result =
     (case map_of result f of
        Some (Fresh kvs) \<Rightarrow>
          merge_loop f rest obj (AList.update f (Fresh (AList.update k v kvs)) result)
      | Some Alias \<Rightarrow>
          (case select obj f of
             Some (_, GMap True kvs) \<Rightarrow>
               merge_loop f rest (put_field obj f (GMap True (AList.update k v kvs))) result
           | _ \<Rightarrow> Inl not_a_map)
      | None \<Rightarrow> Inl not_a_map)"

text \<open>\<open>Some f\<close> is the error of a field \<open>f\<close> that was not found.\<close>

fun extractNestedField :: "'a gov \<Rightarrow> 'a entries \<Rightarrow> string list
    \<Rightarrow> (string option \<times> 'a gov \<times> 'a entries) go" where
  "extractNestedField obj result [] = Inl IndexOutOfRange"
| "extractNestedField obj result (f # fs) =
     (case select obj f of
        None \<Rightarrow> Inr (Some f, obj, result)
      | Some (exported, val) \<Rightarrow>
          if \<not> exported then Inl (PanicMessage ''cannot return value of unexported field'')
          else if fs = [] then Inr (None, obj, AList.update f Alias result)
          else go_bind (extractNestedField val [] fs) (\<lambda>(err, val', childMap).
            if err \<noteq> None then Inr (err, obj, result)
            else let result = (if map_of result f = None then AList.update f (Fresh []) result
                               else result)
                 in go_bind (merge_loop f (resolve val' childMap) obj result)
                      (\<lambda>(obj, result). Inr (None, obj, result))))"

definition segments :: "string \<Rightarrow> string list" where
  "segments fieldPath = filter (\<lambda>s. s \<noteq> []) (strings_Split CHR ''.'' fieldPath)"

fun partial_loop :: "'a gov \<Rightarrow> 'a entries \<Rightarrow> string list \<Rightarrow> ('a gov \<times> 'a entries) go" where
  "partial_loop obj result [] = Inr (obj, result)"
| "partial_loop obj result (p # ps) =
     go_bind (extractNestedField obj result (segments p))
       (\<lambda>(_, obj, result). partial_loop obj result ps)"

fun object_view :: "'a goobj \<Rightarrow> 'a gov" where
  "object_view (Unstructured_object content) = GMap True content"
| "object_view (Object_value v) = v"

text \<open>The result, and the object as it is afterwards.\<close>

definition ToPartialUnstructured :: "'a goobj \<Rightarrow> string list
    \<Rightarrow> ((string \<times> 'a gov) list \<times> 'a gov) go" where
  "ToPartialUnstructured obj fieldPaths =
     go_bind (partial_loop (object_view obj) [] fieldPaths)
       (\<lambda>(obj, result). Inr (resolve obj result, obj))"

section \<open>What the paths select\<close>

text \<open>
  \<open>walk\<close> is the value a path leads to, \<open>map_walk\<close> the one it leads to through nested
  \<open>map[string]interface{}\<close> alone, \<open>nest\<close> the singleton maps that hold a value at a path.
\<close>

fun walk :: "'a gov \<Rightarrow> string list \<Rightarrow> 'a gov option go" where
  "walk v [] = Inr (Some v)"
| "walk v (f # fs) =
     (case select v f of
        None \<Rightarrow> Inr None
      | Some (exported, w) \<Rightarrow>
          if exported then walk w fs
          else Inl (PanicMessage ''cannot return value of unexported field''))"

fun map_walk :: "'a gov \<Rightarrow> string list \<Rightarrow> 'a gov option" where
  "map_walk v [] = Some v"
| "map_walk (GMap True kvs) (f # fs) =
     (case map_of kvs f of None \<Rightarrow> None | Some w \<Rightarrow> map_walk w fs)"
| "map_walk v (f # fs) = None"

fun nest :: "string list \<Rightarrow> 'a gov \<Rightarrow> 'a gov" where
  "nest [] v = v"
| "nest (f # fs) v = GMap True [(f, nest fs v)]"

lemma select_map [simp]: "select (GMap t kvs) k = map_option (\<lambda>v. (True, v)) (map_of kvs k)"
  by (simp add: select_def)

lemma map_walk_nest [simp]: "map_walk (nest fs v) fs = Some v"
  by (induction fs) auto

fun leaf :: "string list \<Rightarrow> 'a gov \<Rightarrow> 'a entry" where
  "leaf [] v = Alias"
| "leaf (k # ks) v = Fresh [(k, nest ks v)]"

lemma resolve_leaf:
  "walk obj (f # fs) = Inr (Some v) \<Longrightarrow> resolve obj [(f, leaf fs v)] = [(f, nest fs v)]"
  by (cases fs) (auto simp: resolve_def split: option.splits if_splits prod.splits)

lemma extract_empty:
  "walk obj (f # fs) = Inr (Some v) \<Longrightarrow>
   extractNestedField obj [] (f # fs) = Inr (None, obj, [(f, leaf fs v)])"
proof (induction fs arbitrary: obj f)
  case Nil
  then show ?case by (auto split: option.splits if_splits prod.splits)
next
  case (Cons k ks)
  from Cons.prems obtain w where w: "select obj f = Some (True, w)" "walk w (k # ks) = Inr (Some v)"
    by (auto simp del: walk.simps(2) simp: walk.simps(2) [of obj]
        split: option.splits if_splits prod.splits)
  show ?case
    using w(1) Cons.IH [OF w(2)] resolve_leaf [OF w(2)]
    by (simp del: extractNestedField.simps(2) add: extractNestedField.simps(2) [of obj])
qed

lemma extract_panic:
  "walk obj (f # fs) = Inl p \<Longrightarrow> extractNestedField obj result (f # fs) = Inl p"
proof (induction fs arbitrary: obj f result)
  case Nil
  then show ?case by (auto split: option.splits if_splits prod.splits)
next
  case (Cons k ks)
  show ?case
  proof (cases "\<exists>w. select obj f = Some (True, w)")
    case True
    then obtain w where w: "select obj f = Some (True, w)" by blast
    with Cons.prems have "walk w (k # ks) = Inl p"
      by (simp del: walk.simps(2) add: walk.simps(2) [of obj])
    with w Cons.IH [of w k "[]"] show ?thesis
      by (simp del: extractNestedField.simps(2) add: extractNestedField.simps(2) [of obj])
  next
    case False
    with Cons.prems show ?thesis
      by (auto simp del: walk.simps(2) extractNestedField.simps(2)
          simp: walk.simps(2) [of obj] extractNestedField.simps(2) [of obj]
          split: option.splits if_splits prod.splits)
  qed
qed

lemma extract_missing:
  "walk obj (f # fs) = Inr None \<Longrightarrow>
   \<exists>e. extractNestedField obj result (f # fs) = Inr (Some e, obj, result)"
proof (induction fs arbitrary: obj f result)
  case Nil
  then show ?case by (auto split: option.splits if_splits prod.splits)
next
  case (Cons k ks)
  show ?case
  proof (cases "select obj f")
    case (Some x)
    with Cons.prems obtain w where w: "select obj f = Some (True, w)" "walk w (k # ks) = Inr None"
      by (auto simp del: walk.simps(2) simp: walk.simps(2) [of obj] split: if_splits prod.splits)
    with Cons.IH [OF w(2), of "[]"] show ?thesis
      by (auto simp del: extractNestedField.simps(2) simp: extractNestedField.simps(2) [of obj])
  qed simp
qed

lemma extract_found:
  assumes "walk obj (f # fs) = Inr (Some v)"
  shows "extractNestedField obj result (f # fs) =
    (case fs of
       [] \<Rightarrow> Inr (None, obj, AList.update f Alias result)
     | k # ks \<Rightarrow>
         let result = (if map_of result f = None then AList.update f (Fresh []) result else result)
         in go_bind (merge_loop f [(k, nest ks v)] obj result)
              (\<lambda>(obj, result). Inr (None, obj, result)))"
proof (cases fs)
  case Nil
  with assms show ?thesis by (auto split: option.splits if_splits prod.splits)
next
  case (Cons k ks)
  from assms Cons obtain w where w: "select obj f = Some (True, w)" "walk w (k # ks) = Inr (Some v)"
    by (auto simp del: walk.simps(2) simp: walk.simps(2) [of obj]
        split: option.splits if_splits prod.splits)
  show ?thesis
    using w(1) extract_empty [OF w(2)] resolve_leaf [OF w(2)] Cons
    by (simp del: extractNestedField.simps(2) merge_loop.simps add: extractNestedField.simps(2) [of obj])
qed

text \<open>
  Two paths are apart if neither is the first segment of the other, and they do not share their
  first two segments. \<open>taken\<close> says which entries the result has after a set of paths.
\<close>

definition apart :: "string list \<Rightarrow> string list \<Rightarrow> bool" where
  "apart p q \<longleftrightarrow> \<not> prefix (take 2 p) q \<and> \<not> prefix (take 2 q) p"

definition taken :: "'a gov \<Rightarrow> string list set \<Rightarrow> 'a entries \<Rightarrow> bool" where
  "taken obj P result \<longleftrightarrow> (\<forall>f. map_of result f \<noteq> Some (Fresh []))
   \<and> (\<forall>f. map_of result f = Some Alias \<longleftrightarrow> [f] \<in> P \<and> (\<exists>v. walk obj [f] = Inr (Some v)))
   \<and> (\<forall>f k w. (\<exists>kvs. map_of result f = Some (Fresh kvs) \<and> map_of kvs k = Some w)
        \<longleftrightarrow> (\<exists>ks v. f # k # ks \<in> P \<and> walk obj (f # k # ks) = Inr (Some v) \<and> w = nest ks v))"

lemma taken_missing:
  "taken obj P result \<Longrightarrow> walk obj p = Inr None \<Longrightarrow> taken obj (insert p P) result"
  unfolding taken_def by auto

lemma taken_single:
  assumes t: "taken obj P result" and v: "walk obj [f] = Inr (Some v)"
    and a: "\<forall>q \<in> P. q = [f] \<or> apart [f] q"
  shows "taken obj (insert [f] P) (AList.update f Alias result)"
proof -
  have n: "f # k # ks \<notin> P" for k ks using a by (auto simp: apart_def)
  show ?thesis
    using t v n unfolding taken_def by (auto simp: AList.update_conv')
qed

lemma taken_nested:
  assumes t: "taken obj P result" and v: "walk obj (f # k # ks) = Inr (Some v)"
    and a: "\<forall>q \<in> P. q = f # k # ks \<or> apart (f # k # ks) q"
    and r: "map_of result f = None \<and> kvs = [] \<or> map_of result f = Some (Fresh kvs)"
  shows "taken obj (insert (f # k # ks) P) (AList.update f (Fresh (AList.update k (nest ks v) kvs)) result)"
proof -
  have n1: "[f] \<notin> P" using a by (auto simp: apart_def)
  have n2: "f # k # ks' \<in> P \<Longrightarrow> ks' = ks" for ks' using a by (auto simp: apart_def)
  have 1: "map_of kvs k' = Some w
      \<longleftrightarrow> (\<exists>ks v. f # k' # ks \<in> P \<and> walk obj (f # k' # ks) = Inr (Some v) \<and> w = nest ks v)" for k' w
  proof -
    have "(\<exists>kvs'. map_of result f = Some (Fresh kvs') \<and> map_of kvs' k' = Some w)
      \<longleftrightarrow> (\<exists>ks v. f # k' # ks \<in> P \<and> walk obj (f # k' # ks) = Inr (Some v) \<and> w = nest ks v)"
      using t unfolding taken_def by blast
    then show ?thesis using r by (auto simp del: walk.simps)
  qed
  have ne: "AList.update k w kvs \<noteq> []" for w by (cases kvs) auto
  show ?thesis
    unfolding taken_def
  proof (intro conjI allI)
    fix g
    show "map_of (AList.update f (Fresh (AList.update k (nest ks v) kvs)) result) g \<noteq> Some (Fresh [])"
      using t ne by (auto simp: taken_def AList.update_conv')
  next
    fix g
    show "map_of (AList.update f (Fresh (AList.update k (nest ks v) kvs)) result) g = Some Alias
        \<longleftrightarrow> [g] \<in> insert (f # k # ks) P \<and> (\<exists>v. walk obj [g] = Inr (Some v))"
      using t n1 by (auto simp: taken_def AList.update_conv')
  next
    fix g k' w
    show "(\<exists>kvs'. map_of (AList.update f (Fresh (AList.update k (nest ks v) kvs)) result) g = Some (Fresh kvs')
          \<and> map_of kvs' k' = Some w)
        \<longleftrightarrow> (\<exists>ks' v'. g # k' # ks' \<in> insert (f # k # ks) P
             \<and> walk obj (g # k' # ks') = Inr (Some v') \<and> w = nest ks' v')"
    proof (cases "g = f")
      case False
      with t show ?thesis by (auto simp: taken_def AList.update_conv')
    next
      case True
      show ?thesis
      proof (cases "k' = k")
        case True
        with \<open>g = f\<close> v n2 show ?thesis
          by (auto simp: AList.update_conv' simp del: walk.simps)
      next
        case False
        with \<open>g = f\<close> 1 [of k' w] show ?thesis
          by (auto simp: AList.update_conv' simp del: walk.simps)
      qed
    qed
  qed
qed

lemma extract_taken:
  assumes v: "walk obj (f # fs) = Inr (Some v)"
    and a: "\<forall>q \<in> P. q = f # fs \<or> apart (f # fs) q" and t: "taken obj P result"
  shows "\<exists>result'. extractNestedField obj result (f # fs) = Inr (None, obj, result')
    \<and> taken obj (insert (f # fs) P) result'"
proof (cases fs)
  case Nil
  with v taken_single [OF t] a extract_found [OF v, of result] show ?thesis by auto
next
  case (Cons k ks)
  note v' = v [unfolded Cons] and a' = a [unfolded Cons]
  have nal: "map_of result f \<noteq> Some Alias" using a' t by (auto simp: taken_def apart_def)
  show ?thesis
  proof (cases "map_of result f")
    case None
    have "AList.update f x (AList.update f y result) = AList.update f x result" for x y
      by (induction result) auto
    with taken_nested [OF t v' a', of "[]"] extract_found [OF v, of result] None Cons
    show ?thesis by (simp add: AList.update_conv')
  next
    case (Some e)
    with nal obtain kvs where "map_of result f = Some (Fresh kvs)" by (cases e) auto
    with taken_nested [OF t v' a', of kvs] extract_found [OF v, of result] Cons
    show ?thesis by simp
  qed
qed

lemma partial_loop_taken:
  assumes "\<forall>p \<in> set ps. segments p \<noteq> []" and "\<forall>p \<in> set ps. \<exists>x. walk obj (segments p) = Inr x"
    and "\<forall>p \<in> set ps. \<forall>q \<in> P \<union> segments ` set ps. q = segments p \<or> apart (segments p) q"
    and "taken obj P result"
  shows "\<exists>result'. partial_loop obj result ps = Inr (obj, result')
    \<and> taken obj (P \<union> segments ` set ps) result'"
  using assms
proof (induction ps arbitrary: P result)
  case (Cons p ps)
  obtain f fs where p: "segments p = f # fs" using Cons.prems(1) by (cases "segments p") auto
  obtain x where x: "walk obj (f # fs) = Inr x" using Cons.prems(2) p by auto
  have a: "\<forall>q \<in> P. q = f # fs \<or> apart (f # fs) q" using Cons.prems(3) p by auto
  obtain e result1 where step: "extractNestedField obj result (f # fs) = Inr (e, obj, result1)"
      and t: "taken obj (insert (f # fs) P) result1"
    using x extract_missing [of obj f fs result] taken_missing [OF Cons.prems(4)]
      extract_taken [OF _ a Cons.prems(4)] by (cases x) auto
  have "\<exists>result'. partial_loop obj result1 ps = Inr (obj, result')
      \<and> taken obj (insert (f # fs) P \<union> segments ` set ps) result'"
    by (rule Cons.IH [OF _ _ _ t]) (use Cons.prems(1,2,3) p in auto)
  then show ?case using step p by simp
qed simp

lemma map_of_map_entry: "map_of (map (\<lambda>(k, e). (k, f k e)) xs) k = map_option (f k) (map_of xs k)"
  by (induction xs) auto

lemma map_of_resolve:
  "map_of (resolve obj result) k =
     (case map_of result k of
        None \<Rightarrow> None
      | Some Alias \<Rightarrow> Some (case select obj k of None \<Rightarrow> GNil | Some (_, v) \<Rightarrow> v)
      | Some (Fresh kvs) \<Rightarrow> Some (GMap True kvs))"
  unfolding resolve_def map_of_map_entry by (auto split: option.split entry.split)

text \<open>An entry holds what the path to it leads to, and a path that leads nowhere has no entry.\<close>

lemma taken_walk:
  assumes t: "taken obj P result" and p: "p \<in> P" "p \<noteq> []" "walk obj p = Inr x"
    and a: "\<forall>q \<in> P. q = p \<or> apart p q"
  shows "map_walk (GMap True (resolve obj result)) p = x"
proof (cases p)
  case (Cons f fs)
  note entries = t [unfolded taken_def, THEN conjunct2, THEN conjunct1, rule_format, of f]
    t [unfolded taken_def, THEN conjunct2, THEN conjunct2, rule_format, of f]
  have ne: "map_of result f \<noteq> Some (Fresh [])" using t by (simp add: taken_def)
  show ?thesis
  proof (cases fs)
    case Nil
    have no: "f # k # ks \<notin> P" for k ks using a Cons Nil by (auto simp: apart_def)
    have "map_of result f \<noteq> Some (Fresh kvs)" for kvs
      using ne no entries(2) [of "fst (hd kvs)" "snd (hd kvs)"] by (cases kvs) auto
    then have "map_of result f = (if x = None then None else Some Alias)"
      using entries(1) p Cons Nil by (cases "map_of result f"; cases "the (map_of result f)") auto
    then show ?thesis using p(3) Cons Nil
      by (auto simp: map_of_resolve split: option.splits if_splits prod.splits)
  next
    case (Cons k ks)
    note pf = \<open>p = f # fs\<close> [unfolded Cons]
    have no: "map_of result f \<noteq> Some Alias" "f # k # ks' \<in> P \<Longrightarrow> ks' = ks" for ks'
      using a pf entries(1) by (auto simp: apart_def)
    have e: "(\<exists>kvs. map_of result f = Some (Fresh kvs) \<and> map_of kvs k = Some w)
        \<longleftrightarrow> (\<exists>v. x = Some v \<and> w = nest ks v)" for w
    proof -
      have x: "walk obj (f # k # ks) = Inr x" "f # k # ks \<in> P" using p(1,3) pf by simp_all
      have "(\<exists>ks' v. f # k # ks' \<in> P \<and> walk obj (f # k # ks') = Inr (Some v) \<and> w = nest ks' v)
          \<longleftrightarrow> (\<exists>v. walk obj (f # k # ks) = Inr (Some v) \<and> w = nest ks v)"
        using no(2) x(2) by blast
      then show ?thesis unfolding entries(2) x(1) by simp
    qed
    show ?thesis
    proof (cases "map_of result f")
      case None
      with e have "x = None" by (cases x) auto
      with None show ?thesis by (simp add: pf map_of_resolve)
    next
      case (Some en)
      with no(1) obtain kvs where kvs: "map_of result f = Some (Fresh kvs)" by (cases en) auto
      then have "map_of kvs k = Some w \<longleftrightarrow> (\<exists>v. x = Some v \<and> w = nest ks v)" for w
        using e [of w] by simp
      then have "map_of kvs k = map_option (nest ks) x"
        by (cases x) (auto intro: option.exhaust [of "map_of kvs k"])
      with kvs show ?thesis by (cases x) (simp_all add: pf map_of_resolve)
    qed
  qed
qed (use p in simp)

text \<open>Objects all of whose fields are exported: no path panics.\<close>

inductive exported :: "'a gov \<Rightarrow> bool" where
  "exported GNil" | "exported (GString s)" | "exported (GOther a)" | "exported (GPtr None)"
| "exported v \<Longrightarrow> exported (GPtr (Some v))"
| "(\<And>f v. (f, v) \<in> set fs \<Longrightarrow> Field_Exported f \<and> exported v) \<Longrightarrow> exported (GStruct fs)"
| "(\<And>k v. (k, v) \<in> set kvs \<Longrightarrow> exported v) \<Longrightarrow> exported (GMap t kvs)"

inductive_cases exportedE: "exported (GPtr (Some v))" "exported (GStruct fs)" "exported (GMap t kvs)"

lemma struct_field_exported:
  "(\<And>f v. (f, v) \<in> set fs \<Longrightarrow> Field_Exported f \<and> exported v) \<Longrightarrow> struct_field k fs = Some (e, w) \<Longrightarrow>
   e \<and> exported w"
  by (induction k fs rule: struct_field.induct) (auto split: if_splits)

lemma deref_exported: "exported v \<Longrightarrow> exported (deref v)"
  by (induction v rule: deref.induct) (auto intro: exported.intros elim: exportedE)

lemma select_exported:
  assumes "exported v" "select v k = Some (e, w)"
  shows "e \<and> exported w"
proof (cases "deref v")
  case (GStruct fs)
  with assms deref_exported [OF assms(1)] struct_field_exported [of fs k e w] show ?thesis
    by (auto simp: select_def elim!: exportedE)
next
  case (GMap t kvs)
  with assms deref_exported [OF assms(1)] show ?thesis
    by (auto simp: select_def elim!: exportedE dest: map_of_SomeD)
qed (use assms in \<open>auto simp: select_def\<close>)

lemma walk_exported: "exported v \<Longrightarrow> \<exists>x. walk v path = Inr x"
  by (induction path arbitrary: v) (auto split: option.split dest: select_exported)

definition paths_ok :: "string list \<Rightarrow> bool" where
  "paths_ok ps \<longleftrightarrow> (\<forall>p \<in> set ps. segments p \<noteq> [])
     \<and> (\<forall>p \<in> set ps. \<forall>q \<in> set ps. segments q = segments p \<or> apart (segments p) (segments q))"

text \<open>Several paths at once.\<close>

lemma partial_paths:
  assumes ps: "paths_ok ps" and w: "\<forall>p \<in> set ps. \<exists>x. walk (object_view obj) (segments p) = Inr x"
  shows "\<exists>u. ToPartialUnstructured obj ps = Inr (u, object_view obj)
    \<and> (\<forall>p \<in> set ps. walk (object_view obj) (segments p) = Inr (map_walk (GMap True u) (segments p)))"
proof -
  let ?o = "object_view obj" and ?P = "segments ` set ps"
  have "taken ?o {} []" by (simp add: taken_def)
  then obtain result where r: "partial_loop ?o [] ps = Inr (?o, result)" "taken ?o ?P result"
    using partial_loop_taken [of ps ?o "{}" "[]"] ps w by (auto simp: paths_ok_def)
  have "walk ?o (segments p) = Inr (map_walk (GMap True (resolve ?o result)) (segments p))"
    if p: "p \<in> set ps" for p
  proof -
    obtain x where x: "walk ?o (segments p) = Inr x" using w p by blast
    have "\<forall>q \<in> ?P. q = segments p \<or> apart (segments p) q" using ps p by (auto simp: paths_ok_def)
    moreover have "segments p \<in> ?P" "segments p \<noteq> []" using ps p by (auto simp: paths_ok_def)
    ultimately show ?thesis unfolding x sum.inject by (intro taken_walk [OF r(2) _ _ x, symmetric])
  qed
  then show ?thesis using r(1) by (simp add: ToPartialUnstructured_def)
qed

section \<open>Properties\<close>

text \<open>
  Property C13. One path: without a segment it panics with an index out of range, through an
  unexported field it panics; if it leads nowhere the result is empty, and otherwise the result is the
  chain of singleton maps along the path with the object's value at its end. The object is not changed.
\<close>

theorem partial_single:
  "ToPartialUnstructured obj [p] =
     (if segments p = [] then Inl IndexOutOfRange
      else case walk (object_view obj) (segments p) of
             Inl e \<Rightarrow> Inl e
           | Inr None \<Rightarrow> Inr ([], object_view obj)
           | Inr (Some v) \<Rightarrow>
               Inr ([(hd (segments p), nest (tl (segments p)) v)], object_view obj))"
proof (cases "segments p")
  case Nil
  then show ?thesis by (simp add: ToPartialUnstructured_def)
next
  case (Cons f fs)
  let ?o = "object_view obj"
  consider e where "walk ?o (f # fs) = Inl e" | "walk ?o (f # fs) = Inr None"
    | v where "walk ?o (f # fs) = Inr (Some v)"
    by (cases "walk ?o (f # fs)"; cases "projr (walk ?o (f # fs))") auto
  then show ?thesis
  proof cases
    case (1 e)
    with extract_panic [OF 1, of "[]"] Cons show ?thesis
      by (simp add: ToPartialUnstructured_def del: extractNestedField.simps walk.simps)
  next
    case 2
    with extract_missing [OF 2, of "[]"] Cons show ?thesis
      by (auto simp: ToPartialUnstructured_def resolve_def simp del: extractNestedField.simps walk.simps)
  next
    case (3 v)
    with extract_empty [OF 3] resolve_leaf [OF 3] Cons show ?thesis
      by (simp add: ToPartialUnstructured_def del: extractNestedField.simps walk.simps)
  qed
qed

text \<open>
  Property C14. Several paths that are pairwise apart, on an object whose fields are all exported: the
  conversion does not panic and does not
  change the object, and the result agrees with the object on every path, on those that lead
  somewhere and on those that do not.
\<close>

theorem partial_extracts:
  assumes "paths_ok ps" and "exported (object_view obj)"
  shows "\<exists>u. ToPartialUnstructured obj ps = Inr (u, object_view obj)
    \<and> (\<forall>p \<in> set ps. walk (object_view obj) (segments p) = Inr (map_walk (GMap True u) (segments p)))"
  by (rule partial_paths [OF assms(1)]) (use walk_exported [OF assms(2)] in blast)

definition demo_struct :: "unit goobj" where
  "demo_struct = Object_value (GPtr (Some (GStruct
     [(\<lparr>Field_Name = ''ObjectMeta'', Field_Tag = ''metadata,omitempty'', Field_Exported = True\<rparr>,
       GStruct [(\<lparr>Field_Name = ''Name'', Field_Tag = ''name,omitempty'', Field_Exported = True\<rparr>,
                 GString ''x'')]),
      (\<lparr>Field_Name = ''Spec'', Field_Tag = ''spec'', Field_Exported = True\<rparr>,
       GStruct [(\<lparr>Field_Name = ''Field1'', Field_Tag = ''field1,omitempty'', Field_Exported = True\<rparr>,
                 GString ''value1''),
                (\<lparr>Field_Name = ''Field2'', Field_Tag = ''field2,omitempty'', Field_Exported = True\<rparr>,
                 GString ''value2'')])])))"

theorem partial_extracts_witness:
  "\<exists>u. ToPartialUnstructured demo_struct [''.spec.field1'', ''.spec.field2'', ''.spec.field3''] =
       Inr (u, object_view demo_struct)
     \<and> map_walk (GMap True u) [''spec'', ''field1''] = Some (GString ''value1'')
     \<and> map_walk (GMap True u) [''spec'', ''field3''] = None"
proof -
  let ?ps = "[''.spec.field1'', ''.spec.field2'', ''.spec.field3'']"
  have s: "map segments ?ps
      = [[''spec'', ''field1''], [''spec'', ''field2''], [''spec'', ''field3'']]"
    by code_simp
  have w: "walk (object_view demo_struct) [''spec'', ''field1''] = Inr (Some (GString ''value1''))"
    "walk (object_view demo_struct) [''spec'', ''field2''] = Inr (Some (GString ''value2''))"
    "walk (object_view demo_struct) [''spec'', ''field3''] = Inr None"
    by code_simp+
  have "paths_ok ?ps" using s by (auto simp: paths_ok_def apart_def)
  moreover have "exported (object_view demo_struct)"
    by (auto simp: demo_struct_def intro!: exported.intros)
  ultimately show ?thesis
    using partial_extracts [of ?ps demo_struct] s w by auto
qed

text \<open>
  The limits of the merge, which copies the entries of the child map only one level deep: a path
  removes what an earlier path with the same first two segments has put there.
\<close>

lemma partial_loses_shared_prefix:
  "ToPartialUnstructured (Unstructured_object
     [(''a'', GMap True [(''b'', GMap True [(''c'', GString ''1''), (''d'', GString ''2'')])])])
     [''a.b.c'', ''a.b.d'']
   = Inr ([(''a'', GMap True [(''b'', GMap True [(''d'', GString ''2'')])])],
       (GMap True [(''a'', GMap True [(''b'', GMap True [(''c'', GString ''1''), (''d'', GString ''2'')])])])
         :: unit gov)"
  by code_simp

text \<open>A path below one that was taken as a whole panics on a struct and overwrites the object's own map.\<close>

lemma partial_panics_below_struct:
  "ToPartialUnstructured demo_struct [''spec'', ''spec.field1''] = Inl not_a_map"
  by code_simp

lemma partial_writes_object:
  "ToPartialUnstructured (Unstructured_object
     [(''a'', GMap True [(''b'', GMap True [(''c'', GString ''1''), (''d'', GString ''2'')])])])
     [''a'', ''a.b.c'']
   = Inr ([(''a'', GMap True [(''b'', GMap True [(''c'', GString ''1'')])])],
       (GMap True [(''a'', GMap True [(''b'', GMap True [(''c'', GString ''1'')])])]) :: unit gov)"
  by code_simp

end
