(* ===== verification/Object.thy ===== *)
theory Object
  imports Prelude "HOL-Library.Word"
begin

unbundle bit_operations_syntax

section \<open>Names and hashes of objects\<close>

text \<open>
  \<open>object/object.go\<close>: the name that identifies an object, and the hash of a value. \<open>Hash\<close> is the
  64-bit FNV-1a sum (\<open>hash/fnv\<close>) of a dump of the value, written in decimal; the dump
  (\<open>k8s.io/apimachinery/pkg/util/dump\<close>) is the parameter \<open>dump\<close>, a string of bytes.
\<close>

record gvk =
  gvk_Group :: string
  gvk_Version :: string
  gvk_Kind :: string

record gvknn =
  gvknn_GVK :: gvk
  gvknn_Namespace :: string
  gvknn_Name :: string

definition GVKNN :: "('o \<Rightarrow> gvk) \<Rightarrow> ('o \<Rightarrow> string) \<Rightarrow> ('o \<Rightarrow> string) \<Rightarrow> 'o \<Rightarrow> gvknn" where
  "GVKNN GVK namespace name ob =
     \<lparr>gvknn_GVK = GVK ob, gvknn_Namespace = namespace ob, gvknn_Name = name ob\<rparr>"

definition gvknn_String :: "gvknn \<Rightarrow> string" where
  "gvknn_String g =
     (let str = gvk_Group (gvknn_GVK g) @ ''/'' @ gvk_Kind (gvknn_GVK g);
          str = (if gvknn_Namespace g \<noteq> [] then str @ ''/'' @ gvknn_Namespace g else str)
      in str @ ''/'' @ gvknn_Name g)"

text \<open>
  \<open>GVK\<close> asks the scheme (\<open>apiutil.GVKForObject\<close>) and panics for an object it does not know; \<open>Unmarshal\<close> reads a document
  into the zero value and panics if \<open>yaml.Unmarshal\<close> fails. Both functions of the libraries are parameters.
\<close>

definition object_GVK :: "('o \<Rightarrow> string + gvk) \<Rightarrow> 'o \<Rightarrow> gvk go" where
  "object_GVK GVKForObject ob = (case GVKForObject ob of Inl e \<Rightarrow> Inl (MustFailed e) | Inr g \<Rightarrow> Inr g)"

definition Unmarshal :: "(string \<Rightarrow> 't \<Rightarrow> string + 't) \<Rightarrow> 't \<Rightarrow> string \<Rightarrow> 't go" where
  "Unmarshal yaml_Unmarshal zero raw =
     (case yaml_Unmarshal raw zero of Inl e \<Rightarrow> Inl (MustFailed e) | Inr t \<Rightarrow> Inr t)"

definition fnv_offset :: "64 word" where "fnv_offset = 14695981039346656037"
definition fnv_prime :: "64 word" where "fnv_prime = 1099511628211"

definition fnv_step :: "char \<Rightarrow> 64 word \<Rightarrow> 64 word" where
  "fnv_step b h = (h XOR of_nat (of_char b)) * fnv_prime"

definition fnv_Sum64 :: "string \<Rightarrow> 64 word" where
  "fnv_Sum64 bytes = fold fnv_step bytes fnv_offset"

fun FormatUint10 :: "nat \<Rightarrow> string" where
  "FormatUint10 n =
     (if n < 10 then [char_of (48 + n)] else FormatUint10 (n div 10) @ [char_of (48 + n mod 10)])"

definition Hash :: "('a \<Rightarrow> string) \<Rightarrow> 'a \<Rightarrow> string" where
  "Hash dump v = FormatUint10 (unat (fnv_Sum64 (dump v)))"

section \<open>Lemmas\<close>

declare FormatUint10.simps [simp del]

lemma digit_char:
  assumes "m < 10" "n < 10"
  shows "char_of (48 + m) = (char_of (48 + n) :: char) \<longleftrightarrow> m = (n :: nat)"
proof
  assume "char_of (48 + m) = (char_of (48 + n) :: char)"
  then have "(48 + m) mod 256 = (48 + n) mod 256" by (metis of_char_of)
  with assms show "m = n" by simp
qed simp

lemma FormatUint10_not_Nil: "FormatUint10 n \<noteq> []"
  by (subst FormatUint10.simps) simp

lemma div_mod_eqI: "m div 10 = n div 10 \<Longrightarrow> m mod 10 = n mod 10 \<Longrightarrow> m = (n :: nat)"
  by (metis div_mult_mod_eq)

lemma FormatUint10_inj: "FormatUint10 m = FormatUint10 n \<Longrightarrow> m = n"
proof (induction m arbitrary: n rule: less_induct)
  case (less m)
  show ?case
    using less.prems FormatUint10_not_Nil [of "m div 10"] FormatUint10_not_Nil [of "n div 10"]
      less.IH [of "m div 10" "n div 10"]
    by (subst (asm) (1 2) FormatUint10.simps)
      (auto simp: digit_char split: if_splits intro: div_mod_eqI)
qed

text \<open>A step of the sum is injective in the state and in the byte: the prime is odd.\<close>

lemma fnv_prime_inverse: "fnv_prime * 14886173955864302971 = 1"
  by (simp add: fnv_prime_def)

lemma times_prime_inj: "x * fnv_prime = y * fnv_prime \<longleftrightarrow> x = y"
proof
  assume "x * fnv_prime = y * fnv_prime"
  then have "x * (fnv_prime * 14886173955864302971) = y * (fnv_prime * 14886173955864302971)"
    by (simp only: mult.assoc [symmetric])
  then show "x = y" by (simp only: fnv_prime_inverse mult.right_neutral)
qed simp

lemma xor_left_inj: "(x :: 64 word) XOR y = x XOR z \<longleftrightarrow> y = z"
proof
  assume "x XOR y = x XOR z"
  then have "x XOR (x XOR y) = x XOR (x XOR z)" by simp
  then show "y = z" by (simp flip: xor.assoc)
qed simp

lemma xor_right_inj: "(y :: 64 word) XOR x = z XOR x \<longleftrightarrow> y = z"
  by (simp add: xor.commute [of _ x] xor_left_inj)

lemma byte_inj: "(of_nat (of_char b) :: 64 word) = of_nat (of_char c) \<longleftrightarrow> b = c"
proof -
  have "of_char d < (2 :: nat) ^ 64" for d :: char
  proof -
    have "of_char d = (of_char d mod 256 :: nat)" by simp
    also have "\<dots> < 256" by simp
    finally have "(of_char d :: nat) < 256" .
    then show ?thesis by (rule less_le_trans) simp
  qed
  then have u: "unat (of_nat (of_char d) :: 64 word) = of_char d" for d :: char
    by (simp add: unat_of_nat)
  show ?thesis
  proof
    assume "(of_nat (of_char b) :: 64 word) = of_nat (of_char c)"
    from arg_cong [OF this, of unat] show "b = c" unfolding u by (simp only: of_char_eq_iff)
  qed simp
qed

lemma fnv_step_inj: "fnv_step b h = fnv_step b h' \<longleftrightarrow> h = h'"
  by (simp add: fnv_step_def times_prime_inj xor_right_inj)

lemma fnv_step_byte_inj: "fnv_step b h = fnv_step c h \<longleftrightarrow> b = c"
  by (simp add: fnv_step_def times_prime_inj xor_left_inj byte_inj)

lemma fnv_suffix: "fold fnv_step s h = fold fnv_step s h' \<longleftrightarrow> h = h'"
  by (induction s arbitrary: h h') (simp_all add: fnv_step_inj)

section \<open>Properties\<close>

text \<open>
  The name of an object determines its group, kind, namespace and name: two objects whose
  parts contain no slash have the same \<open>String\<close> only if they agree in all four. The version is not
  part of it.
\<close>

lemma gvknn_string_identifies:
  assumes "\<forall>s \<in> {gvk_Group (gvknn_GVK a), gvk_Kind (gvknn_GVK a), gvknn_Namespace a, gvknn_Name a,
      gvk_Group (gvknn_GVK b), gvk_Kind (gvknn_GVK b), gvknn_Namespace b, gvknn_Name b}. CHR ''/'' \<notin> set s"
  shows "gvknn_String a = gvknn_String b \<longleftrightarrow>
    gvk_Group (gvknn_GVK a) = gvk_Group (gvknn_GVK b) \<and> gvk_Kind (gvknn_GVK a) = gvk_Kind (gvknn_GVK b)
    \<and> gvknn_Namespace a = gvknn_Namespace b \<and> gvknn_Name a = gvknn_Name b"
proof
  define parts where "parts g = [gvk_Group (gvknn_GVK g), gvk_Kind (gvknn_GVK g)]
      @ (if gvknn_Namespace g = [] then [] else [gvknn_Namespace g]) @ [gvknn_Name g]" for g :: gvknn
  have "gvknn_String g = strings_Join (parts g) ''/''" for g :: gvknn
    by (simp add: gvknn_String_def parts_def Let_def)
  moreover have "strings_Split CHR ''/'' (strings_Join (parts g) ''/'') = parts g" if "g \<in> {a, b}" for g
    using assms that by (intro strings_Split_Join) (auto simp: parts_def)
  moreover assume "gvknn_String a = gvknn_String b"
  ultimately have "parts a = parts b" by (metis insertI1 insertI2)
  then show "gvk_Group (gvknn_GVK a) = gvk_Group (gvknn_GVK b) \<and> gvk_Kind (gvknn_GVK a) = gvk_Kind (gvknn_GVK b)
    \<and> gvknn_Namespace a = gvknn_Namespace b \<and> gvknn_Name a = gvknn_Name b"
    by (auto simp: parts_def split: if_splits)
qed (auto simp add: gvknn_String_def Let_def)

definition demo_gvknn :: "string \<Rightarrow> string \<Rightarrow> gvknn" where
  "demo_gvknn ns name = \<lparr>gvknn_GVK = \<lparr>gvk_Group = ''apps'', gvk_Version = ''v1'', gvk_Kind = ''Deployment''\<rparr>,
     gvknn_Namespace = ns, gvknn_Name = name\<rparr>"

lemma gvknn_string_example:
  "gvknn_String (demo_gvknn [] ''ab'') \<noteq> gvknn_String (demo_gvknn ''a'' ''b'')
   \<and> gvknn_String (demo_gvknn ''a'' ''b'') = ''apps/Deployment/a/b''"
proof -
  have "\<forall>s \<in> {gvk_Group (gvknn_GVK (demo_gvknn [] ''ab'')), gvk_Kind (gvknn_GVK (demo_gvknn [] ''ab'')),
      gvknn_Namespace (demo_gvknn [] ''ab''), gvknn_Name (demo_gvknn [] ''ab''),
      gvk_Group (gvknn_GVK (demo_gvknn ''a'' ''b'')), gvk_Kind (gvknn_GVK (demo_gvknn ''a'' ''b'')),
      gvknn_Namespace (demo_gvknn ''a'' ''b''), gvknn_Name (demo_gvknn ''a'' ''b'')}. CHR ''/'' \<notin> set s"
    by (simp add: demo_gvknn_def)
  from gvknn_string_identifies [OF this] show ?thesis by (simp add: demo_gvknn_def gvknn_String_def)
qed

text \<open>
  The hash notices every change of one byte: two values whose dumps differ in exactly
  one byte have different hashes, and extending two dumps by the same bytes neither makes different
  hashes equal nor equal ones different.
\<close>

theorem hash_separates:
  "(Hash dump v = Hash dump w \<and> dump v = x @ b # y \<and> dump w = x @ c # y \<longrightarrow> b = c)
   \<and> (dump v' = dump v @ z \<and> dump w' = dump w @ z \<longrightarrow> (Hash dump v' = Hash dump w' \<longleftrightarrow> Hash dump v = Hash dump w))"
proof -
  have H: "Hash dump v = Hash dump w \<longleftrightarrow> fnv_Sum64 (dump v) = fnv_Sum64 (dump w)" for v w
    by (metis FormatUint10_inj Hash_def word_unat_eq_iff)
  show ?thesis by (auto simp: H fnv_Sum64_def fnv_suffix fnv_step_byte_inj)
qed

theorem hash_separates_witness:
  "Hash (\<lambda>s :: string. s) ''test1'' \<noteq> Hash (\<lambda>s. s) ''test2''"
  using hash_separates [of "\<lambda>s. s" "''test1''" "''test2''" "''test''" "CHR ''1''" "[]" "CHR ''2''"]
  by auto

text \<open>The values \<open>object_test.go\<close> expects of a string and of an integer, from the dumps of these.\<close>

lemma hash_vectors:
  "Hash (\<lambda>s. s) ''(string)test'' = ''4750482246928359241''"
  "Hash (\<lambda>s. s) ''(int)42'' = ''6502725087716144517''"
  unfolding Hash_def fnv_Sum64_def
  by (simp_all add: fnv_step_def fnv_offset_def fnv_prime_def FormatUint10.simps char_of_def bit_0)

end
