(* ===== verification/StatusController.thy ===== *)
theory StatusController
  imports ConditionSet StatusMetrics Unstructured Object
begin

section \<open>The status controller\<close>

text \<open>
  \<open>status/controller.go\<close>: a controller that is called for every change of an object and turns its
  conditions, finalizers and deletion into metrics and events. The order of the definitions is that of
  the file.

  The configuration of a \<open>Controller\<close> is the record \<open>controller\<close>, its four \<open>sync.Map\<close>s the record
  \<open>cstate\<close>, which also counts the clock readings and collects the calls on metrics and on the event
  recorder, in their order. The object is used through the record \<open>status_object\<close> of its methods.
  What \<open>kubeClient.Get\<close> returns is an argument of the step; \<open>unstructured.NestedString\<close> is the
  parameter \<open>NS\<close> (its first result, empty if there is no string at the path). A \<open>float64\<close> of seconds is
  kept as the duration it is computed from.
\<close>

record request =
  req_Namespace :: string
  req_Name :: string

record reconcile_result =
  result_Requeue :: bool
  result_RequeueAfter :: duration

definition empty_result :: reconcile_result where
  "empty_result = \<lparr>result_Requeue = False, result_RequeueAfter = 0\<rparr>"

definition second :: duration where "second = 1000000000"

datatype mvalue = One | Seconds duration

datatype 'o effect =
    CounterInc family metric labels
  | GaugeSet family metric mvalue labels
  | GaugeDeletePartialMatch family metric labels
  | HistogramObserve family metric mvalue labels
  | Event 'o string string string

record controller =
  controller_gvk :: gvk
  additionalMetricLabels :: "string list"
  additionalGaugeMetricLabels :: "string list"
  additionalMetricFields :: "(string \<times> string) list"
  additionalGaugeMetricFields :: "(string \<times> string) list"
  emitDeprecatedMetrics :: bool
  maxConcurrentReconciles :: int

record 'o cstate =
  observedConditions :: "request \<rightharpoonup> 'o condition_set"
  observedGaugeLabels :: "request \<rightharpoonup> labels"
  observedFinalizers :: "request \<rightharpoonup> string list"
  terminatingObjects :: "request \<rightharpoonup> 'o"
  tick :: nat
  out :: "'o effect list"

text \<open>
  The interface as the controller uses it: \<open>StatusConditions\<close> may initialise conditions of its
  receiver, so it returns the object along with the set.
\<close>

record ('o, 'a) status_object =
  Conditions_ops :: "'o object_ops"
  StatusConditions :: "clock \<Rightarrow> 'o \<Rightarrow> nat \<Rightarrow> ('o \<times> 'o condition_set \<times> nat) go"
  GetLabels :: "'o \<Rightarrow> strmap"
  GetFinalizers :: "'o \<Rightarrow> string list"
  Reflected :: "'o \<Rightarrow> 'a goobj"

datatype ('o, 'e) get_result = GetOk 'o | GetNotFound | GetError 'e

subsection \<open>Options\<close>

record 'b options =
  EmitDeprecatedMetrics_opt :: bool
  MetricLabels :: "string list"
  GaugeMetricLabels :: "string list"
  MetricFields :: "(string \<times> string) list"
  GaugeMetricFields :: "(string \<times> string) list"
  HistogramBuckets :: "'b list"
  MaxConcurrentReconciles :: int

definition zero_options :: "'b options" where
  "zero_options = \<lparr>EmitDeprecatedMetrics_opt = False, MetricLabels = [], GaugeMetricLabels = [],
     MetricFields = [], GaugeMetricFields = [], HistogramBuckets = [], MaxConcurrentReconciles = 0\<rparr>"

text \<open>\<open>option.Resolve\<close>: the options are applied in their order to the zero value, nil ones are skipped.\<close>

fun option_Resolve :: "'a \<Rightarrow> ('a \<Rightarrow> 'a) option list \<Rightarrow> 'a" where
  "option_Resolve x [] = x"
| "option_Resolve x (None # opts) = option_Resolve x opts"
| "option_Resolve x (Some f # opts) = option_Resolve (f x) opts"

definition EmitDeprecatedMetrics :: "'b options \<Rightarrow> 'b options" where
  "EmitDeprecatedMetrics p = p\<lparr>EmitDeprecatedMetrics_opt := True\<rparr>"

definition WithLabels :: "string list \<Rightarrow> 'b options \<Rightarrow> 'b options" where
  "WithLabels ls p = p\<lparr>MetricLabels := MetricLabels p @ ls\<rparr>"

definition WithGaugeLabels :: "string list \<Rightarrow> 'b options \<Rightarrow> 'b options" where
  "WithGaugeLabels ls p = p\<lparr>GaugeMetricLabels := GaugeMetricLabels p @ ls\<rparr>"

definition assign_fields :: "(string \<times> string) list \<Rightarrow> (string \<times> string) list \<Rightarrow> (string \<times> string) list" where
  "assign_fields a b = fold (\<lambda>(k, v). AList.update k v) b a"

definition WithFields :: "(string \<times> string) list \<Rightarrow> 'b options \<Rightarrow> 'b options" where
  "WithFields fs p = p\<lparr>MetricFields := assign_fields (MetricFields p) fs\<rparr>"

definition WithGaugeFields :: "(string \<times> string) list \<Rightarrow> 'b options \<Rightarrow> 'b options" where
  "WithGaugeFields fs p = p\<lparr>GaugeMetricFields := assign_fields (GaugeMetricFields p) fs\<rparr>"

definition WithHistogramBuckets :: "'b list \<Rightarrow> 'b options \<Rightarrow> 'b options" where
  "WithHistogramBuckets buckets p = p\<lparr>HistogramBuckets := buckets\<rparr>"

definition WitMaxConcurrentReconciles :: "int \<Rightarrow> 'b options \<Rightarrow> 'b options" where
  "WitMaxConcurrentReconciles m p = p\<lparr>MaxConcurrentReconciles := m\<rparr>"

subsection \<open>Label names\<close>

definition ReplaceAll_char :: "char \<Rightarrow> char \<Rightarrow> string \<Rightarrow> string" where
  "ReplaceAll_char old new k = map (\<lambda>c. if c = old then new else c) k"

definition toPrometheusLabel :: "string \<Rightarrow> string" where
  "toPrometheusLabel k =
     fold (\<lambda>ch k. ReplaceAll_char ch CHR ''_'' k) [CHR ''/'', CHR ''.'', CHR ''-''] k"

text \<open>
  \<open>NewController\<close>: the controller, and the description its six metrics are registered with.
  \<open>strings.ToLower\<close> is the parameter \<open>lower\<close>.
\<close>

definition metric_label_names :: "'b options \<Rightarrow> string list" where
  "metric_label_names p = map toPrometheusLabel (MetricLabels p @ map fst (MetricFields p))"

definition gauge_label_names :: "'b options \<Rightarrow> string list" where
  "gauge_label_names p = map toPrometheusLabel
     ((map fst (MetricFields p) @ map fst (GaugeMetricFields p)) @ (MetricLabels p @ GaugeMetricLabels p))"

fun controller_metric :: "'b list \<Rightarrow> string \<Rightarrow> 'b options \<Rightarrow> metric \<Rightarrow> 'b metric_desc" where
  "controller_metric D kind p ConditionDuration =
     conditionDurationMetric D kind (HistogramBuckets p) (metric_label_names p)"
| "controller_metric D kind p ConditionCount = conditionCountMetric kind (gauge_label_names p)"
| "controller_metric D kind p ConditionCurrentStatusSeconds =
     conditionCurrentStatusSecondsMetric kind (gauge_label_names p)"
| "controller_metric D kind p ConditionTransitionsTotal =
     conditionTransitionsTotalMetric kind (metric_label_names p)"
| "controller_metric D kind p TerminationCurrentTimeSeconds =
     terminationCurrentTimeSecondsMetric kind (gauge_label_names p)"
| "controller_metric D kind p TerminationDuration =
     terminationDurationMetric D kind (HistogramBuckets p) (metric_label_names p)"

definition NewController :: "'b list \<Rightarrow> (string \<Rightarrow> string) \<Rightarrow> gvk \<Rightarrow> ('b options \<Rightarrow> 'b options) option list
    \<Rightarrow> controller \<times> (metric \<Rightarrow> 'b metric_desc)" where
  "NewController D lower g opts =
     (let p = option_Resolve zero_options opts
      in (\<lparr>controller_gvk = g,
           additionalMetricLabels = MetricLabels p,
           additionalGaugeMetricLabels = GaugeMetricLabels p,
           additionalMetricFields = MetricFields p,
           additionalGaugeMetricFields = GaugeMetricFields p,
           emitDeprecatedMetrics = EmitDeprecatedMetrics_opt p,
           maxConcurrentReconciles =
             (if MaxConcurrentReconciles p \<le> 0 then 10 else MaxConcurrentReconciles p)\<rparr>,
          controller_metric D (lower (gvk_Kind g)) p))"

definition new_cstate :: "'o cstate" where
  "new_cstate = \<lparr>observedConditions = Map.empty, observedGaugeLabels = Map.empty,
     observedFinalizers = Map.empty, terminatingObjects = Map.empty, tick = 0, out = []\<rparr>"

subsection \<open>The additional labels of an object\<close>

text \<open>
  The entries of the configured field maps are visited in the order of their lists. The object as
  \<open>ToPartialUnstructured\<close> leaves it is not used further: it differs from the given one only where
  one path is a single segment and another one goes below it.
\<close>

definition field_labels :: "((string \<times> 'a gov) list \<Rightarrow> string list \<Rightarrow> string)
    \<Rightarrow> (string \<times> 'a gov) list \<Rightarrow> (string \<times> string) list \<Rightarrow> labels" where
  "field_labels NS u fs =
     to_labels (map (\<lambda>(k, v). (toPrometheusLabel k, NS u (segments v))) fs)"

definition object_labels :: "('o, 'a) status_object \<Rightarrow> 'o \<Rightarrow> string list \<Rightarrow> labels" where
  "object_labels S ob ls =
     to_labels (map (\<lambda>l. (toPrometheusLabel l,
       case GetLabels S ob l of None \<Rightarrow> [] | Some v \<Rightarrow> v)) ls)"

definition toAdditionalMetricLabels :: "controller \<Rightarrow> ('o, 'a) status_object
    \<Rightarrow> ((string \<times> 'a gov) list \<Rightarrow> string list \<Rightarrow> string) \<Rightarrow> 'o \<Rightarrow> labels go" where
  "toAdditionalMetricLabels c S NS ob =
     go_bind (ToPartialUnstructured (Reflected S ob) (map snd (additionalMetricFields c)))
       (\<lambda>(u, _). Inr (lo_Assign [field_labels NS u (additionalMetricFields c),
          object_labels S ob (additionalMetricLabels c)]))"

definition toAdditionalGaugeMetricLabels :: "controller \<Rightarrow> ('o, 'a) status_object
    \<Rightarrow> ((string \<times> 'a gov) list \<Rightarrow> string list \<Rightarrow> string) \<Rightarrow> 'o \<Rightarrow> labels go" where
  "toAdditionalGaugeMetricLabels c S NS ob =
     go_bind (ToPartialUnstructured (Reflected S ob) (map snd (additionalGaugeMetricFields c)))
       (\<lambda>(u, _). go_bind (toAdditionalMetricLabels c S NS ob)
         (\<lambda>ml. Inr (lo_Assign [field_labels NS u (additionalGaugeMetricFields c), ml,
            object_labels S ob (additionalGaugeMetricLabels c)])))"

subsection \<open>Emitting\<close>

definition emit :: "'o effect \<Rightarrow> 'o cstate \<Rightarrow> 'o cstate" where
  "emit e st = st\<lparr>out := out st @ [e]\<rparr>"

definition with_kind :: "controller \<Rightarrow> labels \<Rightarrow> labels" where
  "with_kind c l = label_put LabelGroup (gvk_Group (controller_gvk c))
     (label_put LabelKind (gvk_Kind (controller_gvk c)) l)"

definition incCounterMetric :: "controller \<Rightarrow> metric \<Rightarrow> labels \<Rightarrow> labels \<Rightarrow> 'o cstate \<Rightarrow> 'o cstate" where
  "incCounterMetric c m ls additional st =
     (let st = emit (CounterInc Current m (lo_Assign [ls, additional])) st
      in if emitDeprecatedMetrics c then emit (CounterInc Deprecated m (with_kind c ls)) st else st)"

definition setGaugeMetric :: "controller \<Rightarrow> metric \<Rightarrow> mvalue \<Rightarrow> labels \<Rightarrow> labels \<Rightarrow> 'o cstate \<Rightarrow> 'o cstate" where
  "setGaugeMetric c m v ls additional st =
     (let st = emit (GaugeSet Current m v (lo_Assign [ls, additional])) st
      in if emitDeprecatedMetrics c then emit (GaugeSet Deprecated m v (with_kind c ls)) st else st)"

definition deletePartialMatchGaugeMetric :: "controller \<Rightarrow> metric \<Rightarrow> labels \<Rightarrow> 'o cstate \<Rightarrow> 'o cstate" where
  "deletePartialMatchGaugeMetric c m ls st =
     (let st = emit (GaugeDeletePartialMatch Current m ls) st
      in if emitDeprecatedMetrics c then emit (GaugeDeletePartialMatch Deprecated m (with_kind c ls)) st
         else st)"

definition observeHistogram :: "controller \<Rightarrow> metric \<Rightarrow> mvalue \<Rightarrow> labels \<Rightarrow> labels \<Rightarrow> 'o cstate \<Rightarrow> 'o cstate" where
  "observeHistogram c m v ls additional st =
     (let st = emit (HistogramObserve Current m v (lo_Assign [ls, additional])) st
      in if emitDeprecatedMetrics c then emit (HistogramObserve Deprecated m v (with_kind c ls)) st
         else st)"

text \<open>\<open>time.Since(t).Seconds()\<close>\<close>

definition since :: "clock \<Rightarrow> go_time \<Rightarrow> 'o cstate \<Rightarrow> mvalue \<times> 'o cstate" where
  "since clk t st = (Seconds (time_Sub (clk (tick st)) t), st\<lparr>tick := Suc (tick st)\<rparr>)"

definition object_key_labels :: "request \<Rightarrow> labels" where
  "object_key_labels req =
     to_labels [(MetricLabelNamespace, req_Namespace req), (MetricLabelName, req_Name req)]"

definition condition_labels :: "request \<Rightarrow> condition \<Rightarrow> labels" where
  "condition_labels req cond =
     to_labels [(MetricLabelNamespace, req_Namespace req), (MetricLabelName, req_Name req),
       (LabelType, Type cond), (MetricLabelConditionStatus, Status cond), (LabelReason, Reason cond)]"

definition finalized :: "'o \<Rightarrow> string \<Rightarrow> 'o effect" where
  "finalized ob f = Event ob ''Normal'' ''Finalized'' (''Finalized '' @ f)"

subsection \<open>The object is gone\<close>

definition reconcile_not_found :: "controller \<Rightarrow> ('o, 'a) status_object
    \<Rightarrow> ((string \<times> 'a gov) list \<Rightarrow> string list \<Rightarrow> string) \<Rightarrow> clock \<Rightarrow> request \<Rightarrow> 'o \<Rightarrow> 'o cstate
    \<Rightarrow> 'o cstate go" where
  "reconcile_not_found c S NS clk req ob st =
     (let st = st\<lparr>observedConditions := (observedConditions st)(req := None)\<rparr>;
          st = st\<lparr>observedGaugeLabels := (observedGaugeLabels st)(req := None)\<rparr>;
          st = deletePartialMatchGaugeMetric c ConditionCount (object_key_labels req) st;
          st = deletePartialMatchGaugeMetric c ConditionCurrentStatusSeconds (object_key_labels req) st;
          st = deletePartialMatchGaugeMetric c TerminationCurrentTimeSeconds (object_key_labels req) st
      in go_bind
           (case terminatingObjects st req of
              None \<Rightarrow> Inr st
            | Some tob \<Rightarrow>
                let st = st\<lparr>terminatingObjects := (terminatingObjects st)(req := None)\<rparr>
                in case GetDeletionTimestamp (Conditions_ops S) tob of
                     None \<Rightarrow> Inl NilDereference
                   | Some t \<Rightarrow>
                       let (v, st) = since clk t st
                       in go_bind (toAdditionalMetricLabels c S NS tob)
                            (\<lambda>ml. Inr (observeHistogram c TerminationDuration v [] ml st)))
           (\<lambda>st. Inr
              (case observedFinalizers st req of
                 None \<Rightarrow> st
               | Some fs \<Rightarrow>
                   fold (\<lambda>f st. emit (finalized ob f) st) fs
                     (st\<lparr>observedFinalizers := (observedFinalizers st)(req := None)\<rparr>))))"

subsection \<open>The object is there\<close>

definition detect_finalizers :: "('o, 'a) status_object \<Rightarrow> request \<Rightarrow> 'o \<Rightarrow> 'o cstate \<Rightarrow> 'o cstate" where
  "detect_finalizers S req ob st =
     (let observed = observedFinalizers st req;
          st = st\<lparr>observedFinalizers := (observedFinalizers st)(req \<mapsto> GetFinalizers S ob)\<rparr>
      in case observed of
           None \<Rightarrow> st
         | Some fs \<Rightarrow> fold (\<lambda>f st. emit (finalized ob f) st)
                        (filter (\<lambda>f. f \<notin> set (GetFinalizers S ob)) fs) st)"

definition detect_termination :: "controller \<Rightarrow> ('o, 'a) status_object
    \<Rightarrow> ((string \<times> 'a gov) list \<Rightarrow> string list \<Rightarrow> string) \<Rightarrow> clock \<Rightarrow> request \<Rightarrow> 'o \<Rightarrow> 'o cstate
    \<Rightarrow> 'o cstate go" where
  "detect_termination c S NS clk req ob st =
     (case GetDeletionTimestamp (Conditions_ops S) ob of
        None \<Rightarrow> Inr st
      | Some t \<Rightarrow>
          let (v, st) = since clk t st
          in go_bind (toAdditionalGaugeMetricLabels c S NS ob)
               (\<lambda>gl. Inr ((setGaugeMetric c TerminationCurrentTimeSeconds v (object_key_labels req) gl st)
                 \<lparr>terminatingObjects := (terminatingObjects st)(req \<mapsto> ob)\<rparr>)))"

definition count_condition :: "controller \<Rightarrow> clock \<Rightarrow> request \<Rightarrow> labels \<Rightarrow> condition \<Rightarrow> 'o cstate \<Rightarrow> 'o cstate" where
  "count_condition c clk req gl cond st =
     (let st = setGaugeMetric c ConditionCount One (condition_labels req cond) gl st;
          (v, st) = since clk (LastTransitionTime cond) st
      in setGaugeMetric c ConditionCurrentStatusSeconds v (condition_labels req cond) gl st)"

definition delete_stale :: "controller \<Rightarrow> ('o, 'a) status_object \<Rightarrow> request \<Rightarrow> 'o condition_set \<Rightarrow> labels
    \<Rightarrow> labels \<Rightarrow> condition \<Rightarrow> 'o cstate \<Rightarrow> 'o cstate" where
  "delete_stale c S req current gl observed_gl oc st =
     (let cc = cs_Get (Conditions_ops S) current (Type oc)
      in if (case cc of None \<Rightarrow> True
                      | Some cc \<Rightarrow> Status cc \<noteq> Status oc \<or> Reason cc \<noteq> Reason oc \<or> gl \<noteq> observed_gl)
         then let ls = lo_Assign [condition_labels req oc, if gl \<noteq> observed_gl then observed_gl else []]
              in deletePartialMatchGaugeMetric c ConditionCurrentStatusSeconds ls
                   (deletePartialMatchGaugeMetric c ConditionCount ls st)
         else st)"

definition transition_message :: "condition \<Rightarrow> condition \<Rightarrow> string" where
  "transition_message oc cond =
     ''Status condition transitioned, Type: '' @ Type cond @ '', Status: '' @ Status oc @ '' -> ''
     @ Status cond @ '', Reason: '' @ Reason cond
     @ (if Message cond \<noteq> [] then '', Message: '' @ Message cond else [])"

definition transition :: "controller \<Rightarrow> ('o, 'a) status_object \<Rightarrow> 'o \<Rightarrow> 'o condition_set \<Rightarrow> labels
    \<Rightarrow> condition \<Rightarrow> 'o cstate \<Rightarrow> 'o cstate" where
  "transition c S ob observed ml cond st =
     (let oc = cs_Get (Conditions_ops S) observed (Type cond)
      in if GetStatus oc = GetStatus (Some cond) then st
         else let st = incCounterMetric c ConditionTransitionsTotal
                         (to_labels [(LabelType, Type cond), (MetricLabelConditionStatus, Status cond),
                            (LabelReason, Reason cond)]) ml st
              in case oc of
                   None \<Rightarrow> st
                 | Some oc \<Rightarrow>
                     let d = time_Sub (LastTransitionTime cond) (LastTransitionTime oc);
                         st = observeHistogram c ConditionDuration (Seconds d)
                                (to_labels [(LabelType, Type oc), (MetricLabelConditionStatus, Status oc)])
                                ml st
                     in emit (Event ob ''Normal'' (Type cond) (transition_message oc cond)) st)"

text \<open>
  \<open>toAdditionalGaugeMetricLabels\<close> and \<open>toAdditionalMetricLabels\<close> are functions of the object, which the
  loops do not change, so they are evaluated once; the second is part of the first and
  does not panic when the first does not. \<open>terminatingObjects\<close> holds the object by
  reference, so what \<open>StatusConditions\<close> does to it shows there.
\<close>

definition reconcile_found :: "controller \<Rightarrow> ('o, 'a) status_object
    \<Rightarrow> ((string \<times> 'a gov) list \<Rightarrow> string list \<Rightarrow> string) \<Rightarrow> clock \<Rightarrow> request \<Rightarrow> 'o \<Rightarrow> 'o cstate
    \<Rightarrow> 'o cstate go" where
  "reconcile_found c S NS clk req ob st =
     go_bind (detect_termination c S NS clk req ob (detect_finalizers S req ob st)) (\<lambda>st.
     go_bind (StatusConditions S clk ob (tick st)) (\<lambda>(ob', current, n).
       let st = st\<lparr>tick := n\<rparr>;
           st = (if GetDeletionTimestamp (Conditions_ops S) ob = None then st
                 else st\<lparr>terminatingObjects := (terminatingObjects st)(req \<mapsto> ob')\<rparr>);
           observed = (case observedConditions st req of None \<Rightarrow> empty_condition_set | Some v \<Rightarrow> v);
           observed_gl = (case observedGaugeLabels st req of None \<Rightarrow> [] | Some v \<Rightarrow> v);
           st = st\<lparr>observedConditions := (observedConditions st)(req \<mapsto> current)\<rparr>
       in go_bind (toAdditionalGaugeMetricLabels c S NS ob') (\<lambda>gl.
          go_bind (toAdditionalMetricLabels c S NS ob') (\<lambda>ml.
            let st = st\<lparr>observedGaugeLabels := (observedGaugeLabels st)(req \<mapsto> gl)\<rparr>;
                st = fold (count_condition c clk req gl) (GetConditions (Conditions_ops S) ob') st;
                st = fold (delete_stale c S req current gl observed_gl)
                       (cs_List (Conditions_ops S) observed) st
            in Inr (fold (transition c S ob' observed ml) (cs_List (Conditions_ops S) current) st)))))"

text \<open>
  \<open>reconcile\<close>: the result, the error (with the text it is wrapped in) and the state. \<open>ob0\<close> is the new
  object \<open>Get\<close> is called with, which it leaves empty when it fails.
\<close>

definition reconcile :: "controller \<Rightarrow> ('o, 'a) status_object
    \<Rightarrow> ((string \<times> 'a gov) list \<Rightarrow> string list \<Rightarrow> string) \<Rightarrow> clock \<Rightarrow> request \<Rightarrow> 'o \<Rightarrow> ('o, 'e) get_result
    \<Rightarrow> 'o cstate \<Rightarrow> (reconcile_result \<times> (string \<times> 'e) option \<times> 'o cstate) go" where
  "reconcile c S NS clk req ob0 r st =
     (case r of
        GetError e \<Rightarrow> Inr (empty_result, Some (''getting object'', e), st)
      | GetNotFound \<Rightarrow>
          go_bind (reconcile_not_found c S NS clk req ob0 st) (\<lambda>st. Inr (empty_result, None, st))
      | GetOk ob \<Rightarrow>
          go_bind (reconcile_found c S NS clk req ob st)
            (\<lambda>st. Inr (empty_result\<lparr>result_RequeueAfter := second * 10\<rparr>, None, st)))"

subsection \<open>The test object\<close>

text \<open>
  \<open>CustomObject\<close> of \<open>test/object.go\<close> as the controller uses it: its \<open>StatusConditions\<close>, and what
  reflection shows of its fields (of the object metadata the name and the namespace).
\<close>

definition gofield :: "string \<Rightarrow> string \<Rightarrow> field_info" where
  "gofield name tag = \<lparr>Field_Name = name, Field_Tag = tag, Field_Exported = True\<rparr>"

definition custom_reflect :: "custom_object \<Rightarrow> unit goobj" where
  "custom_reflect t = Object_value (GPtr (Some (GStruct
     [(gofield ''TypeMeta'' '',inline'', GOther ()),
      (gofield ''ObjectMeta'' ''metadata,omitempty'', GStruct
         [(gofield ''Name'' ''name,omitempty'', GString (meta_Name (ObjectMeta t))),
          (gofield ''Namespace'' ''namespace,omitempty'', GString (meta_Namespace (ObjectMeta t)))]),
      (gofield ''Spec'' ''spec'', GStruct
         [(gofield ''Field1'' ''field1,omitempty'', GString (Spec_Field1 t)),
          (gofield ''Field2'' ''field2,omitempty'', GString (Spec_Field2 t))]),
      (gofield ''Status'' ''status'', GStruct
         [(gofield ''Conditions'' ''conditions,omitempty'', GOther ())])])))"

definition custom_StatusConditions :: "clock \<Rightarrow> custom_object \<Rightarrow> nat
    \<Rightarrow> (custom_object \<times> custom_object condition_set \<times> nat) go" where
  "custom_StatusConditions clk t n =
     go_bind (cs_For CustomObject clk (NewReadyConditions [''Foo'', ''Bar'']) (Some t) n)
       (\<lambda>(cs, n). Inr (case object cs of None \<Rightarrow> t | Some t' \<Rightarrow> t', cs, n))"

definition CustomStatus :: "(custom_object, unit) status_object" where
  "CustomStatus =
     \<lparr>Conditions_ops = CustomObject,
      StatusConditions = custom_StatusConditions,
      GetLabels = (\<lambda>t. meta_Labels (ObjectMeta t)),
      GetFinalizers = (\<lambda>t. meta_Finalizers (ObjectMeta t)),
      Reflected = custom_reflect\<rparr>"

end
