(* ===== verification/ConditionSpec.thy ===== *)
theory ConditionSpec
  imports ConditionSet
begin

section \<open>What a condition set promises\<close>

text \<open>
  The abstract view of \<open>status/condition_set.go\<close>: the root condition summarises the dependent
  conditions. A dependent condition has a verdict for the object's current generation, the verdicts
  are ordered (false below unknown below true), and the root condition is their minimum.
  \<open>root_consistent\<close> says that the stored root condition is that summary. The lemmas show that every
  operation of the library that changes a condition establishes or keeps it, and that the
  object a set was made for with \<open>For\<close> keeps it through any sequence of calls.
\<close>

datatype verdict = VFalse | VUnknown | VTrue

instantiation verdict :: linorder
begin

fun verdict_rank :: "verdict \<Rightarrow> nat" where
  "verdict_rank VFalse = 0"
| "verdict_rank VUnknown = 1"
| "verdict_rank VTrue = 2"

definition less_eq_verdict :: "verdict \<Rightarrow> verdict \<Rightarrow> bool" where
  "less_eq_verdict v w \<longleftrightarrow> verdict_rank v \<le> verdict_rank w"

definition less_verdict :: "verdict \<Rightarrow> verdict \<Rightarrow> bool" where
  "less_verdict v w \<longleftrightarrow> verdict_rank v < verdict_rank w"

instance
proof
  fix v w :: verdict
  show "v \<le> w \<Longrightarrow> w \<le> v \<Longrightarrow> v = w"
    by (cases v; cases w) (simp_all add: less_eq_verdict_def)
qed (auto simp: less_eq_verdict_def less_verdict_def)

end

lemma verdict_le [simp]: "VFalse \<le> v" "v \<le> VTrue" "VUnknown \<le> v \<longleftrightarrow> v \<noteq> VFalse"
  by (cases v; simp add: less_eq_verdict_def)+

definition verdict_of :: "int \<Rightarrow> condition \<Rightarrow> verdict" where
  "verdict_of gen c =
     (if IsFalse (Some c) \<and> ObservedGeneration c = gen then VFalse
      else if IsFalse (Some c) \<or> IsUnknown (Some c) \<or> ObservedGeneration c \<noteq> gen then VUnknown
      else VTrue)"

definition root_verdict :: "condition_types \<Rightarrow> int \<Rightarrow> condition list \<Rightarrow> verdict" where
  "root_verdict ct gen cs =
     Min (insert VTrue (verdict_of gen ` {c \<in> set cs. Type c \<in> set (dependents ct)}))"

fun verdict_status :: "verdict \<Rightarrow> string" where
  "verdict_status VFalse = ConditionFalse"
| "verdict_status VUnknown = ConditionUnknown"
| "verdict_status VTrue = ConditionTrue"

definition root_consistent :: "'o object_ops \<Rightarrow> condition_types \<Rightarrow> 'o \<Rightarrow> bool" where
  "root_consistent M ct ob \<longleftrightarrow>
     (\<exists>r. Get_object M ob (root ct) = Some r \<and> ObservedGeneration r = GetGeneration M ob
        \<and> Status r = verdict_status (root_verdict ct (GetGeneration M ob) (GetConditions M ob)))"

definition all_present :: "'o object_ops \<Rightarrow> condition_types \<Rightarrow> 'o \<Rightarrow> bool" where
  "all_present M ct ob \<longleftrightarrow> (\<forall>t \<in> insert (root ct) (set (dependents ct)). Get_object M ob t \<noteq> None)"

subsection \<open>The root condition the code computes\<close>

lemma Min_verdicts:
  "finite V \<Longrightarrow> Min (insert VTrue V) =
     (if VFalse \<in> V then VFalse else if VUnknown \<in> V then VUnknown else VTrue)"
proof (rule Min_eqI)
  fix v assume "v \<in> insert VTrue V"
  then show "(if VFalse \<in> V then VFalse else if VUnknown \<in> V then VUnknown else VTrue) \<le> v"
    by (cases v) auto
qed auto

lemma verdicts_all_True: "V \<subseteq> {VTrue} \<longleftrightarrow> VFalse \<notin> V \<and> VUnknown \<notin> V"
proof -
  have "v = VTrue \<longleftrightarrow> v \<noteq> VFalse \<and> v \<noteq> VUnknown" for v by (cases v) auto
  then show ?thesis by (auto simp: subset_iff)
qed

lemma verdict_status_inject [simp]: "verdict_status v = verdict_status w \<longleftrightarrow> v = w"
  by (cases v; cases w) auto

lemma set_findUnhealthyDependents:
  "set (findUnhealthyDependents M ct ob) =
     {c \<in> set (GetConditions M ob). Type c \<in> set (dependents ct)
        \<and> verdict_of (GetGeneration M ob) c \<noteq> VTrue}"
  by (auto simp: findUnhealthyDependents_def verdict_of_def Let_def)

lemma root_condition_status:
  "Status (root_condition M ct ob) =
     verdict_status (root_verdict ct (GetGeneration M ob) (GetConditions M ob))"
proof -
  let ?u = "findUnhealthyDependents M ct ob" and ?g = "GetGeneration M ob"
  let ?D = "{c \<in> set (GetConditions M ob). Type c \<in> set (dependents ct)}"
  have F: "(\<exists>c \<in> set ?u. IsFalse (Some c) \<and> ObservedGeneration c = ?g)
      \<longleftrightarrow> VFalse \<in> verdict_of ?g ` ?D"
    by (auto simp: set_findUnhealthyDependents verdict_of_def image_iff split: if_splits)
  have E: "?u = [] \<longleftrightarrow> verdict_of ?g ` ?D \<subseteq> {VTrue}"
    using set_findUnhealthyDependents [of M ct ob] by (auto simp flip: set_empty)
  show ?thesis
    unfolding root_condition_def root_verdict_def Let_def F length_0_conv E verdicts_all_True
    by (simp add: Min_verdicts)
qed

text \<open>The verdict depends on what \<open>Get\<close> returns for the dependent conditions only.\<close>

lemma root_verdict_cong:
  assumes "wf_conditions M ob" "wf_conditions M ob'"
    and "\<And>t. t \<in> set (dependents ct) \<Longrightarrow> Get_object M ob t = Get_object M ob' t"
  shows "root_verdict ct gen (GetConditions M ob) = root_verdict ct gen (GetConditions M ob')"
proof -
  have "{c \<in> set (GetConditions M ob). Type c \<in> set (dependents ct)}
      = {c \<in> set (GetConditions M ob'). Type c \<in> set (dependents ct)}"
    using assms by (metis (no_types, lifting) Get_object_iff)
  then show ?thesis by (simp add: root_verdict_def)
qed

lemma root_verdict_True:
  assumes "wf_conditions M ob"
    and "\<And>t c. t \<in> set (dependents ct) \<Longrightarrow> Get_object M ob t = Some c \<Longrightarrow> verdict_of gen c = VTrue"
  shows "root_verdict ct gen (GetConditions M ob) = VTrue"
  using assms by (auto simp: root_verdict_def Min_verdicts Get_object_iff image_iff)

lemma root_verdict_le:
  assumes "wf_conditions M ob" "t \<in> set (dependents ct)" "Get_object M ob t = Some c"
  shows "root_verdict ct gen (GetConditions M ob) \<le> verdict_of gen c"
  using assms by (auto simp: root_verdict_def Get_object_iff intro!: Min_le)

subsection \<open>Set keeps the promise\<close>

context lawful_object
begin

lemma settle_consistent:
  assumes "wf_conditions M (fst s)" "bumped M (fst s)" "wf_types ct"
  shows "root_consistent M ct (fst (settle M clk ct s))"
proof -
  obtain r where r: "Get_object M (fst (settle M clk ct s)) (root ct) = Some r"
      "Status r = Status (root_condition M ct (fst s))"
      "ObservedGeneration r = GetGeneration M (fst s)"
    using Get_settle_root [OF assms(1)] by blast
  have "root_verdict ct (GetGeneration M (fst s)) (GetConditions M (fst (settle M clk ct s)))
      = root_verdict ct (GetGeneration M (fst s)) (GetConditions M (fst s))"
  proof (rule root_verdict_cong)
    fix t assume "t \<in> set (dependents ct)"
    with assms(3) have "t \<noteq> root ct" by (auto simp: wf_types_def)
    with assms(1,2) show
      "Get_object M (fst (settle M clk ct s)) t = Get_object M (fst s) t"
      by (rule Get_settle_other)
  qed (simp_all add: assms(1) wf_settle)
  with r show ?thesis by (simp add: root_consistent_def root_condition_status)
qed

lemma Set_object_consistent:
  assumes "wf_conditions M (fst s)" "wf_types ct" "Type c \<noteq> root ct"
    and "fst (Set_object M clk ct c s) \<or> root_consistent M ct (fst s)"
  shows "root_consistent M ct (fst (snd (Set_object M clk ct c s)))"
  using assms
  by (auto simp: Set_object_eq settle_consistent wf_store bumped_store split: if_splits)

lemma Set_object_present:
  assumes "wf_conditions M (fst s)" "Get_object M (fst s) t \<noteq> None \<or> t = Type c"
  shows "Get_object M (fst (snd (Set_object M clk ct c s))) t \<noteq> None"
proof -
  have st: "Get_object M (fst (settle M clk ct s')) t \<noteq> None"
    if "wf_conditions M (fst s')" "Get_object M (fst s') t \<noteq> None" for s'
    using that by (simp add: settle_def Get_store)
  show ?thesis
  proof (cases "unchanged M (fst s) c")
    case True
    with assms show ?thesis by (auto simp: Set_object_eq unchanged_def)
  next
    case False
    have p: "Get_object M (fst (store M clk ct c s)) t \<noteq> None"
      using assms by (auto simp: Get_store)
    with st [OF wf_store [OF assms(1)] p] False assms(1) show ?thesis
      by (simp add: Set_object_eq)
  qed
qed

lemma cs_Set_eq:
  "cs_Set M clk \<lparr>ctypes = ct, object = Some ob\<rparr> c n =
     Inr (fst (Set_object M clk ct c (ob, n)),
          \<lparr>ctypes = ct, object = Some (fst (snd (Set_object M clk ct c (ob, n))))\<rparr>,
          snd (snd (Set_object M clk ct c (ob, n))))"
  by (simp add: cs_Set_def split: prod.split)

subsection \<open>Clear\<close>

lemma Clear_conditions:
  assumes "object cs = Some ob" "\<not> IsDependentCondition (ctypes cs) t"
    "Get_object M ob t \<noteq> None"
  shows "\<exists>ob'. cs_Clear M cs t = (ClearOk, cs\<lparr>object := Some ob'\<rparr>)
    \<and> mset (GetConditions M ob') = mset (filter (\<lambda>c. Type c \<noteq> t) (GetConditions M ob))
    \<and> GetGeneration M ob' = GetGeneration M ob
    \<and> GetCreationTimestamp M ob' = GetCreationTimestamp M ob
    \<and> GetDeletionTimestamp M ob' = GetDeletionTimestamp M ob"
  using assms by (auto simp: cs_Clear_def cs_Get_def object_simps Let_def)

lemma Get_Clear:
  assumes "mset (GetConditions M ob') = mset (filter (\<lambda>c. Type c \<noteq> t) (GetConditions M ob))"
    and "wf_conditions M ob"
  shows "wf_conditions M ob' \<and>
    Get_object M ob' u = (if u = t then None else Get_object M ob u)"
proof
  have d: "distinct (map Type (filter (\<lambda>c. Type c \<noteq> t) (GetConditions M ob)))"
    using assms(2) by (simp add: wf_conditions_def distinct_map_filter)
  with assms(1) show w: "wf_conditions M ob'"
    unfolding wf_conditions_def by (metis mset_map mset_eq_imp_distinct_iff)
  have "Get_object M ob' u = find (\<lambda>c. Type c = u) (filter (\<lambda>c. Type c \<noteq> t) (GetConditions M ob))"
    unfolding Get_object_def
    by (rule find_key_cong [OF assms(1)]) (use w in \<open>simp add: wf_conditions_def\<close>)
  then show "Get_object M ob' u = (if u = t then None else Get_object M ob u)"
    by (auto simp: find_key_filter Get_object_def)
qed

end

subsection \<open>For\<close>

abbreviation awaiting :: "string \<Rightarrow> condition" where
  "awaiting t \<equiv> mk_condition t ConditionUnknown ''AwaitingReconciliation''
     ''object is awaiting reconciliation''"

text \<open>One iteration of the loop of \<open>For\<close>, on the object.\<close>

definition ensure :: "'o object_ops \<Rightarrow> clock \<Rightarrow> condition_types \<Rightarrow> string \<Rightarrow> 'o \<times> nat \<Rightarrow> 'o \<times> nat" where
  "ensure M clk ct t s =
     (if Get_object M (fst s) t = None
      then snd (Set_object M clk ct (awaiting t) s)
      else s)"

lemma For_loop_eq:
  "For_loop M clk ts \<lparr>ctypes = ct, object = Some ob\<rparr> n =
     Inr (\<lparr>ctypes = ct, object = Some (fst (fold (ensure M clk ct) ts (ob, n)))\<rparr>,
          snd (fold (ensure M clk ct) ts (ob, n)))"
proof (induction ts arbitrary: ob n)
  case (Cons t ts)
  obtain ob' n' where e: "ensure M clk ct t (ob, n) = (ob', n')" by (metis surj_pair)
  have "For_loop M clk (t # ts) \<lparr>ctypes = ct, object = Some ob\<rparr> n =
      For_loop M clk ts \<lparr>ctypes = ct, object = Some ob'\<rparr> n'"
    using e by (auto simp: cs_Get_def cs_SetUnknown_def cs_SetUnknownWithReason_def ensure_def
        cs_Set_def split: prod.splits if_splits)
  with e show ?case by (simp add: Cons.IH)
qed simp

lemma cs_For_eq:
  "cs_For M clk ct (Some ob) n =
     Inr (\<lparr>ctypes = ct,
           object = Some (fst (fold (ensure M clk ct) (root ct # dependents ct) (ob, n)))\<rparr>,
          snd (fold (ensure M clk ct) (root ct # dependents ct) (ob, n)))"
  unfolding cs_For_def For_loop_eq by simp

lemma cs_For_total: "\<exists>cs n'. cs_For M clk ct (Some ob) n = Inr (cs, n')"
  unfolding cs_For_eq by blast

lemma ensure_present_id: "Get_object M (fst s) t \<noteq> None \<Longrightarrow> ensure M clk ct t s = s"
  by (auto simp: ensure_def)

lemma fold_ensure_id:
  "\<forall>t \<in> set ts. Get_object M (fst s) t \<noteq> None \<Longrightarrow> fold (ensure M clk ct) ts s = s"
  by (induction ts) (simp_all add: ensure_present_id)

context lawful_object
begin

lemma ensure_wf: "wf_conditions M (fst s) \<Longrightarrow> wf_conditions M (fst (ensure M clk ct t s))"
  by (simp add: ensure_def Set_object_wf)

lemma ensure_meta:
  assumes "wf_conditions M (fst s)"
  shows "GetGeneration M (fst (ensure M clk ct t s)) = GetGeneration M (fst s)"
    "GetCreationTimestamp M (fst (ensure M clk ct t s)) = GetCreationTimestamp M (fst s)"
    "GetDeletionTimestamp M (fst (ensure M clk ct t s)) = GetDeletionTimestamp M (fst s)"
  using assms by (simp_all add: ensure_def Set_object_meta)

lemma ensure_present:
  assumes "wf_conditions M (fst s)" "u = t \<or> Get_object M (fst s) u \<noteq> None"
  shows "Get_object M (fst (ensure M clk ct t s)) u \<noteq> None"
  using assms Set_object_present [OF assms(1), of u "awaiting t" clk ct]
  by (auto simp: ensure_def)

lemma ensure_consistent:
  "wf_conditions M (fst s) \<Longrightarrow> wf_types ct \<Longrightarrow> t \<noteq> root ct \<Longrightarrow>
   Get_object M (fst s) t = None \<or> root_consistent M ct (fst s) \<Longrightarrow>
   root_consistent M ct (fst (ensure M clk ct t s))"
  by (auto simp: ensure_def Set_object_eq unchanged_def settle_consistent wf_store bumped_store)

lemma ensure_root_missing:
  "wf_conditions M (fst s) \<Longrightarrow> u \<noteq> root ct \<Longrightarrow>
   Get_object M (fst (ensure M clk ct (root ct) s)) u = None \<longleftrightarrow> Get_object M (fst s) u = None"
  by (simp add: ensure_def Set_object_Get_other)

lemma fold_ensure_wf:
  "wf_conditions M (fst s) \<Longrightarrow> wf_conditions M (fst (fold (ensure M clk ct) ts s))"
  by (induction ts arbitrary: s) (simp_all add: ensure_wf)

lemma fold_ensure_meta:
  assumes "wf_conditions M (fst s)"
  shows "GetGeneration M (fst (fold (ensure M clk ct) ts s)) = GetGeneration M (fst s)
    \<and> GetCreationTimestamp M (fst (fold (ensure M clk ct) ts s)) = GetCreationTimestamp M (fst s)
    \<and> GetDeletionTimestamp M (fst (fold (ensure M clk ct) ts s)) = GetDeletionTimestamp M (fst s)"
  using assms by (induction ts arbitrary: s) (simp_all add: ensure_wf ensure_meta)

lemma fold_ensure_present:
  "wf_conditions M (fst s) \<Longrightarrow> u \<in> set ts \<or> Get_object M (fst s) u \<noteq> None \<Longrightarrow>
   Get_object M (fst (fold (ensure M clk ct) ts s)) u \<noteq> None"
proof (induction ts arbitrary: s)
  case (Cons t ts)
  have "u \<in> set ts \<or> Get_object M (fst (ensure M clk ct t s)) u \<noteq> None"
    using Cons.prems ensure_present [of s u t clk ct] by auto
  with Cons.IH [OF ensure_wf [OF Cons.prems(1)]] show ?case by simp
qed simp

lemma fold_ensure_consistent:
  assumes "wf_conditions M (fst s)" "wf_types ct" "root ct \<notin> set ts"
    and "root_consistent M ct (fst s) \<or> (\<exists>t \<in> set ts. Get_object M (fst s) t = None)"
  shows "root_consistent M ct (fst (fold (ensure M clk ct) ts s))"
  using assms
proof (induction ts arbitrary: s)
  case (Cons t ts)
  let ?s = "ensure M clk ct t s"
  have "root_consistent M ct (fst ?s) \<or> (\<exists>t \<in> set ts. Get_object M (fst ?s) t = None)"
  proof (cases "Get_object M (fst s) t = None \<or> root_consistent M ct (fst s)")
    case True
    with Cons.prems show ?thesis by (auto intro!: ensure_consistent)
  next
    case False
    then have "?s = s" by (auto simp: ensure_def)
    with False Cons.prems(4) show ?thesis by auto
  qed
  with Cons show ?case by (simp add: ensure_wf)
qed simp

lemma For_wf_present:
  assumes "wf_conditions M ob" "cs_For M clk ct (Some ob) n = Inr (cs, n')"
  shows "\<exists>ob'. cs = \<lparr>ctypes = ct, object = Some ob'\<rparr> \<and> wf_conditions M ob' \<and> all_present M ct ob'
    \<and> GetGeneration M ob' = GetGeneration M ob \<and> GetDeletionTimestamp M ob' = GetDeletionTimestamp M ob"
proof -
  let ?s = "fold (ensure M clk ct) (root ct # dependents ct) (ob, n)"
  have "cs = \<lparr>ctypes = ct, object = Some (fst ?s)\<rparr>"
    using assms(2) unfolding cs_For_eq by simp
  moreover have "wf_conditions M (fst ?s)" by (rule fold_ensure_wf) (simp add: assms)
  moreover have "GetGeneration M (fst ?s) = GetGeneration M ob
      \<and> GetDeletionTimestamp M (fst ?s) = GetDeletionTimestamp M ob"
    using fold_ensure_meta [of "(ob, n)" clk ct "root ct # dependents ct"] assms(1)
    by (simp only: fst_conv)
  moreover have "all_present M ct (fst ?s)"
    unfolding all_present_def using assms(1) by (intro ballI fold_ensure_present) auto
  ultimately show ?thesis by blast
qed

lemma For_consistent:
  assumes "wf_conditions M ob" "wf_types ct" "cs_For M clk ct (Some ob) n = Inr (cs, n')"
    and "root_consistent M ct ob \<or> (\<exists>t \<in> set (dependents ct). Get_object M ob t = None)"
  shows "\<exists>ob'. object cs = Some ob' \<and> root_consistent M ct ob'"
proof -
  let ?s = "ensure M clk ct (root ct) (ob, n)"
  have eq: "object cs = Some (fst (fold (ensure M clk ct) (dependents ct) ?s))"
    using assms(3) unfolding cs_For_eq by auto
  have "root_consistent M ct (fst ?s) \<or> (\<exists>t \<in> set (dependents ct). Get_object M (fst ?s) t = None)"
  proof (cases "root_consistent M ct ob")
    case True
    then show ?thesis by (auto simp: ensure_def root_consistent_def)
  next
    case False
    with assms(4) obtain t where t: "t \<in> set (dependents ct)" "Get_object M ob t = None" by auto
    with assms(2) have "t \<noteq> root ct" by (auto simp: wf_types_def)
    with t assms(1) show ?thesis using ensure_root_missing [of "(ob, n)" t] by auto
  qed
  then have "root_consistent M ct (fst (fold (ensure M clk ct) (dependents ct) ?s))"
    using assms(1,2) by (intro fold_ensure_consistent) (auto simp: ensure_wf wf_types_def)
  with eq show ?thesis by blast
qed

end

text \<open>
  A new object: every condition \<open>For\<close> initialises is unknown since the object's creation.
\<close>

definition initial :: "'o object_ops \<Rightarrow> 'o \<Rightarrow> condition \<Rightarrow> bool" where
  "initial M ob c \<longleftrightarrow> Status c = ConditionUnknown \<and> ObservedGeneration c = GetGeneration M ob
     \<and> LastTransitionTime c = GetCreationTimestamp M ob"

context lawful_object
begin

lemma store_initial:
  assumes "wf_conditions M (fst s)" "\<forall>t d. Get_object M (fst s) t = Some d \<longrightarrow> initial M (fst s) d"
    and "Status c = ConditionUnknown" "IsDependentCondition ct (Type c)"
  shows "snd (store M clk ct c s) = snd s"
    and "\<forall>t d. Get_object M (fst (store M clk ct c s)) t = Some d
           \<longrightarrow> initial M (fst (store M clk ct c s)) d"
proof -
  have st: "stamp_time M clk ct c s = (GetCreationTimestamp M (fst s), snd s)"
    using assms(2-4) by (cases "Get_object M (fst s) (Type c)")
      (auto simp: stamp_time_def initial_def)
  then show "snd (store M clk ct c s) = snd s" by (simp add: store_def)
  have "bump M (fst s) d = d" if "Get_object M (fst s) t = Some d" for t d
    using assms(2) that by (auto simp: initial_def intro: bump_current)
  with st assms show "\<forall>t d. Get_object M (fst (store M clk ct c s)) t = Some d
      \<longrightarrow> initial M (fst (store M clk ct c s)) d"
    by (auto simp: Get_store initial_def)
qed

lemma initial_root_condition:
  assumes "wf_conditions M ob" "\<forall>t d. Get_object M ob t = Some d \<longrightarrow> initial M ob d"
    and "t \<in> set (dependents ct)" "Get_object M ob t \<noteq> None"
  shows "Status (root_condition M ct ob) = ConditionUnknown"
proof -
  let ?g = "GetGeneration M ob"
  have v: "verdict_of ?g d = VUnknown" if "d \<in> set (GetConditions M ob)" for d
    using that assms(1,2) by (auto simp: Get_object_iff verdict_of_def initial_def)
  obtain d where "Get_object M ob t = Some d" using assms(4) by auto
  then have "VUnknown \<in> verdict_of ?g ` {c \<in> set (GetConditions M ob). Type c \<in> set (dependents ct)}"
    using assms(1,3) v by (auto simp: Get_object_iff image_iff)
  moreover have "VFalse \<notin> verdict_of ?g ` {c \<in> set (GetConditions M ob). Type c \<in> set (dependents ct)}"
    using v by auto
  ultimately show ?thesis by (simp add: root_condition_status root_verdict_def Min_verdicts)
qed

lemma ensure_initial:
  assumes wf: "wf_conditions M (fst s)"
    and ini: "\<forall>u d. Get_object M (fst s) u = Some d \<longrightarrow> initial M (fst s) d"
    and dep: "IsDependentCondition ct t"
  shows "snd (ensure M clk ct t s) = snd s
    \<and> (\<forall>u d. Get_object M (fst (ensure M clk ct t s)) u = Some d
          \<longrightarrow> initial M (fst (ensure M clk ct t s)) d)"
proof (cases "Get_object M (fst s) t = None")
  case False
  with ini show ?thesis by (auto simp: ensure_def)
next
  case True
  let ?s = "store M clk ct (awaiting t) s"
  note st = store_initial [OF wf ini, of "awaiting t" ct clk, simplified, OF dep]
  have eq: "ensure M clk ct t s = (if t = root ct then ?s else settle M clk ct ?s)"
    using True wf by (simp add: ensure_def Set_object_eq unchanged_def)
  show ?thesis
  proof (cases "t = root ct")
    case True
    with st eq show ?thesis by simp
  next
    case False
    with dep have t: "t \<in> set (dependents ct)" by (simp add: IsDependentCondition_def)
    have "Get_object M (fst ?s) t \<noteq> None" by (simp add: Get_store wf)
    with wf_store [OF wf] st(2) t have "Status (root_condition M ct (fst ?s)) = ConditionUnknown"
      by (intro initial_root_condition) auto
    with store_initial [OF wf_store [OF wf] st(2), of "root_condition M ct (fst ?s)" ct clk] st
    show ?thesis using False by (simp add: eq settle_def IsDependentCondition_def)
  qed
qed

lemma fold_ensure_initial:
  assumes "wf_conditions M (fst s)"
    and "\<forall>u d. Get_object M (fst s) u = Some d \<longrightarrow> initial M (fst s) d"
    and "\<forall>t \<in> set ts. IsDependentCondition ct t"
  shows "snd (fold (ensure M clk ct) ts s) = snd s
    \<and> (\<forall>u d. Get_object M (fst (fold (ensure M clk ct) ts s)) u = Some d
          \<longrightarrow> initial M (fst (fold (ensure M clk ct) ts s)) d)"
  using assms
proof (induction ts arbitrary: s)
  case (Cons t ts)
  let ?s = "ensure M clk ct t s"
  have e: "snd ?s = snd s"
      "\<forall>u d. Get_object M (fst ?s) u = Some d \<longrightarrow> initial M (fst ?s) d"
    using ensure_initial [OF Cons.prems(1,2), of ct t clk] Cons.prems(3) by auto
  with Cons.IH [OF ensure_wf [OF Cons.prems(1)] e(2)] Cons.prems(3) show ?case by simp
qed simp

lemma For_new_object:
  assumes "GetConditions M ob = []" "cs_For M clk ct (Some ob) n = Inr (cs, n')"
    and "t = root ct \<or> t \<in> set (dependents ct)"
  shows "n' = n \<and> (\<exists>ob' c. object cs = Some ob' \<and> Get_object M ob' t = Some c \<and> initial M ob c)"
proof -
  let ?ts = "root ct # dependents ct"
  let ?s = "fold (ensure M clk ct) ?ts (ob, n)"
  have cs: "object cs = Some (fst ?s)" "n' = snd ?s"
    using assms(2) unfolding cs_For_eq by auto
  have wf: "wf_conditions M ob" using assms(1) by (simp add: wf_conditions_def)
  have "Get_object M ob u = None" for u using assms(1) by (simp add: Get_object_def)
  then have ini: "snd ?s = n \<and> (\<forall>u d. Get_object M (fst ?s) u = Some d \<longrightarrow> initial M (fst ?s) d)"
    using fold_ensure_initial [of "(ob, n)" ?ts ct clk] wf
    by (simp only: fst_conv snd_conv) (simp add: IsDependentCondition_def)
  have "Get_object M (fst ?s) t \<noteq> None"
    by (rule fold_ensure_present) (use wf assms(3) in auto)
  then obtain c where c: "Get_object M (fst ?s) t = Some c" by blast
  moreover have "initial M ob c"
    using ini c fold_ensure_meta [of "(ob, n)" clk ct ?ts] wf
    by (simp only: fst_conv) (auto simp: initial_def)
  ultimately show ?thesis using cs ini by blast
qed

end

subsection \<open>Any sequence of calls\<close>

text \<open>
  The states a client can reach from \<open>For\<close> through \<open>Set\<close> of any condition but the root (the
  methods \<open>SetTrue\<close>, \<open>SetFalse\<close>, \<open>SetUnknown\<close> and their variants are calls of \<open>Set\<close>) and \<open>Clear\<close>.
\<close>

inductive reachable :: "'o object_ops \<Rightarrow> clock \<Rightarrow> condition_types \<Rightarrow> 'o \<Rightarrow> nat
    \<Rightarrow> 'o condition_set \<Rightarrow> nat \<Rightarrow> bool"
  for M clk ct ob0 n0 where
  start: "cs_For M clk ct (Some ob0) n0 = Inr (cs, n) \<Longrightarrow> reachable M clk ct ob0 n0 cs n"
| set: "reachable M clk ct ob0 n0 cs n \<Longrightarrow> Type c \<noteq> root ct \<Longrightarrow>
    cs_Set M clk cs c n = Inr (modified, cs', n') \<Longrightarrow> reachable M clk ct ob0 n0 cs' n'"
| clear: "reachable M clk ct ob0 n0 cs n \<Longrightarrow> cs_Clear M cs t = (r, cs') \<Longrightarrow>
    reachable M clk ct ob0 n0 cs' n"

definition promise :: "'o object_ops \<Rightarrow> condition_types \<Rightarrow> 'o condition_set \<Rightarrow> bool" where
  "promise M ct cs \<longleftrightarrow> ctypes cs = ct \<and>
     (\<exists>ob. object cs = Some ob \<and> wf_conditions M ob \<and> all_present M ct ob \<and> root_consistent M ct ob)"

fun set_all_true :: "'o object_ops \<Rightarrow> clock \<Rightarrow> string list \<Rightarrow> 'o condition_set \<Rightarrow> nat
    \<Rightarrow> ('o condition_set \<times> nat) go" where
  "set_all_true M clk [] cs n = Inr (cs, n)"
| "set_all_true M clk (t # ts) cs n =
     (case cs_SetTrue M clk cs t n of
        Inl p \<Rightarrow> Inl p
      | Inr (_, cs, n) \<Rightarrow> set_all_true M clk ts cs n)"

lemma promiseE:
  assumes "promise M ct cs"
  obtains ob where "cs = \<lparr>ctypes = ct, object = Some ob\<rparr>" "wf_conditions M ob"
    "all_present M ct ob" "root_consistent M ct ob"
  using assms by (cases cs) (auto simp: promise_def)

text \<open>Setting a condition to true confirms it, and the other conditions stay confirmed.\<close>

definition confirmed :: "'o object_ops \<Rightarrow> 'o condition_set \<Rightarrow> string \<Rightarrow> bool" where
  "confirmed M cs t \<longleftrightarrow> (\<exists>ob c. object cs = Some ob \<and> Get_object M ob t = Some c
     \<and> Status c = ConditionTrue \<and> ObservedGeneration c = GetGeneration M ob)"

lemma cs_IsTrue_iff: "cs_IsTrue M cs ts \<longleftrightarrow> (\<forall>t \<in> set ts. IsTrue (cs_Get M cs t))"
  by (induction ts) auto

context lawful_object
begin

lemma For_promise:
  assumes "wf_conditions M ob" "wf_types ct" "cs_For M clk ct (Some ob) n = Inr (cs, n')"
    and "root_consistent M ct ob \<or> (\<exists>t \<in> set (dependents ct). Get_object M ob t = None)"
  shows "promise M ct cs"
  using For_wf_present [OF assms(1,3)] For_consistent [OF assms] by (auto simp: promise_def)

lemma Set_promise:
  assumes "promise M ct cs" "wf_types ct" "Type c \<noteq> root ct"
    and "cs_Set M clk cs c n = Inr (modified, cs', n')"
  shows "promise M ct cs'"
proof -
  obtain ob where ob: "cs = \<lparr>ctypes = ct, object = Some ob\<rparr>" "wf_conditions M ob"
      "all_present M ct ob" "root_consistent M ct ob"
    using assms(1) by (rule promiseE)
  let ?s = "snd (Set_object M clk ct c (ob, n))"
  have "cs' = \<lparr>ctypes = ct, object = Some (fst ?s)\<rparr>"
    using assms(4) by (auto simp: ob(1) cs_Set_eq)
  moreover have "all_present M ct (fst ?s)"
    using ob(2,3) Set_object_present [of "(ob, n)"] by (auto simp: all_present_def)
  ultimately show ?thesis
    using ob Set_object_wf [of "(ob, n)"] Set_object_consistent [of "(ob, n)"] assms(2,3)
    by (simp add: promise_def)
qed

lemma Clear_promise:
  assumes "promise M ct cs" "wf_types ct" "cs_Clear M cs t = (r, cs')"
  shows "promise M ct cs'"
proof -
  obtain ob where ob: "cs = \<lparr>ctypes = ct, object = Some ob\<rparr>" "wf_conditions M ob"
      "all_present M ct ob" "root_consistent M ct ob"
    using assms(1) by (rule promiseE)
  show ?thesis
  proof (cases "IsDependentCondition ct t \<or> Get_object M ob t = None")
    case True
    with assms(1,3) ob(1) show ?thesis
      by (auto simp: cs_Clear_def cs_Get_def split: if_splits)
  next
    case False
    then obtain ob' where cs': "cs' = \<lparr>ctypes = ct, object = Some ob'\<rparr>"
      and m: "mset (GetConditions M ob') = mset (filter (\<lambda>c. Type c \<noteq> t) (GetConditions M ob))"
      and g: "GetGeneration M ob' = GetGeneration M ob"
      using Clear_conditions [of cs ob t] assms(3) ob(1) by (auto simp del: mset_filter)
    have wf: "wf_conditions M ob'" using Get_Clear [OF m ob(2)] by blast
    have get: "Get_object M ob' u = Get_object M ob u" if "u = root ct \<or> u \<in> set (dependents ct)" for u
    proof -
      have "u \<noteq> t" using False that by (auto simp: IsDependentCondition_def)
      then show ?thesis using Get_Clear [OF m ob(2), of u] by simp
    qed
    have "root_verdict ct gen (GetConditions M ob') = root_verdict ct gen (GetConditions M ob)" for gen
      by (rule root_verdict_cong [OF wf ob(2)]) (simp add: get)
    with cs' wf get g ob show ?thesis
      by (auto simp: promise_def all_present_def root_consistent_def)
  qed
qed

lemma reachable_promise:
  assumes "reachable M clk ct ob0 n0 cs n" "wf_conditions M ob0" "wf_types ct"
    and "root_consistent M ct ob0 \<or> (\<exists>t \<in> set (dependents ct). Get_object M ob0 t = None)"
  shows "promise M ct cs"
  using assms(1)
proof induction
  case (start cs n)
  from For_promise [OF assms(2,3) start assms(4)] show ?case .
next
  case (set cs n c modified cs' n')
  from Set_promise [OF set.IH assms(3) set.hyps(2,3)] show ?case .
next
  case (clear cs n t r cs')
  from Clear_promise [OF clear.IH assms(3) clear.hyps(2)] show ?case .
qed

lemma SetTrue_confirmed:
  assumes "wf_conditions M ob" "u \<noteq> root ct" "u = t \<or> confirmed M \<lparr>ctypes = ct, object = Some ob\<rparr> u"
    and "cs_SetTrue M clk \<lparr>ctypes = ct, object = Some ob\<rparr> t n = Inr (m, cs', n')"
  shows "confirmed M cs' u"
proof -
  let ?c = "mk_condition t ConditionTrue t []"
  let ?s = "snd (Set_object M clk ct ?c (ob, n))"
  have cs': "cs' = \<lparr>ctypes = ct, object = Some (fst ?s)\<rparr>"
    using assms(4) by (auto simp: cs_SetTrue_def cs_SetTrueWithReason_def cs_Set_eq)
  have g: "GetGeneration M (fst ?s) = GetGeneration M ob"
    using Set_object_meta(1) [of "(ob, n)"] assms(1) by simp
  consider (same) "u = t" "unchanged M ob ?c" | (new) "u = t" "\<not> unchanged M ob ?c"
    | (other) "u \<noteq> t" by blast
  then have "\<exists>c. Get_object M (fst ?s) u = Some c \<and> Status c = ConditionTrue
    \<and> ObservedGeneration c = GetGeneration M ob"
  proof cases
    case same
    then obtain d where "Get_object M ob t = Some d" "Status d = ConditionTrue"
        "ObservedGeneration d = GetGeneration M ob" by (auto simp: unchanged_def)
    with same assms(1) show ?thesis by (simp add: Set_object_eq)
  next
    case new
    then have "Get_object M (fst ?s) t = Some (stamped M clk ct ?c (ob, n))"
      using Set_object_Get_set [of "(ob, n)" ?c] assms(1) by simp
    with new show ?thesis by simp
  next
    case other
    with assms(3) obtain c where c: "Get_object M ob u = Some c" "Status c = ConditionTrue"
        "ObservedGeneration c = GetGeneration M ob" by (auto simp: confirmed_def)
    with other assms(1,2) show ?thesis
      using Set_object_Get_other [of "(ob, n)" u ?c ct clk] by (simp add: bump_current)
  qed
  with cs' g show ?thesis by (simp add: confirmed_def)
qed

lemma set_all_true_confirmed:
  assumes "promise M ct cs" "wf_types ct" "root ct \<notin> set ts"
  shows "\<exists>cs' n'. set_all_true M clk ts cs n = Inr (cs', n') \<and> promise M ct cs'
    \<and> (\<forall>u. u \<noteq> root ct \<and> (u \<in> set ts \<or> confirmed M cs u) \<longrightarrow> confirmed M cs' u)"
  using assms
proof (induction ts arbitrary: cs n)
  case (Cons t ts)
  obtain ob where ob: "cs = \<lparr>ctypes = ct, object = Some ob\<rparr>" "wf_conditions M ob"
    using Cons.prems(1) by (rule promiseE)
  obtain m cs1 n1 where s1: "cs_SetTrue M clk cs t n = Inr (m, cs1, n1)"
    by (simp add: ob(1) cs_SetTrue_def cs_SetTrueWithReason_def cs_Set_eq)
  then have "cs_Set M clk cs (mk_condition t ConditionTrue t []) n = Inr (m, cs1, n1)"
    by (simp add: cs_SetTrue_def cs_SetTrueWithReason_def)
  then have p1: "promise M ct cs1"
    by (rule Set_promise [OF Cons.prems(1,2), rotated]) (use Cons.prems(3) in auto)
  have "root ct \<notin> set ts" using Cons.prems(3) by simp
  from Cons.IH [OF p1 Cons.prems(2) this] obtain cs' n' where IH: "set_all_true M clk ts cs1 n1 = Inr (cs', n')"
      "promise M ct cs'" "\<forall>u. u \<noteq> root ct \<and> (u \<in> set ts \<or> confirmed M cs1 u) \<longrightarrow> confirmed M cs' u"
    by blast
  moreover have "confirmed M cs1 u" if "u \<noteq> root ct" "u = t \<or> confirmed M cs u" for u
    using SetTrue_confirmed [OF ob(2) that(1)] that(2) s1 by (simp add: ob(1))
  ultimately show ?case using s1 by auto
qed simp

lemma all_confirmed_root_True:
  assumes "promise M ct cs" "wf_types ct" "\<forall>t \<in> set (dependents ct). confirmed M cs t"
  shows "cs_IsTrue M cs (root ct # dependents ct)"
proof -
  obtain ob where ob: "cs = \<lparr>ctypes = ct, object = Some ob\<rparr>" "wf_conditions M ob"
      "root_consistent M ct ob"
    using assms(1) by (rule promiseE)
  have conf: "\<exists>c. Get_object M ob t = Some c \<and> Status c = ConditionTrue
      \<and> ObservedGeneration c = GetGeneration M ob" if "t \<in> set (dependents ct)" for t
    using assms(3) that by (auto simp: confirmed_def ob(1))
  have dep: "IsTrue (cs_Get M cs t)" if "t \<in> set (dependents ct)" for t
    using conf [OF that] by (auto simp: cs_Get_def ob(1))
  have "root_verdict ct (GetGeneration M ob) (GetConditions M ob) = VTrue"
    by (rule root_verdict_True [OF ob(2)]) (use conf in \<open>fastforce simp: verdict_of_def\<close>)
  with ob(3) have root: "IsTrue (cs_Get M cs (root ct))"
    by (auto simp: root_consistent_def cs_Get_def ob(1))
  with root dep show ?thesis by (simp add: cs_IsTrue_iff)
qed

end

end
