(* ===== verification/StatusControllerSpec.thy ===== *)
theory StatusControllerSpec
  imports StatusController ConditionSpec
begin

section \<open>What the calls on metrics add up to\<close>

text \<open>
  A gauge vector is described by its series: which label sets it has, with which value. By the
  documentation of Prometheus, \<open>Set\<close> writes the series of exactly the given labels and
  \<open>DeletePartialMatch\<close> removes every series that has all the given labels among its own.
  \<open>gauge f m st\<close> is the content of the vector \<open>m\<close> of the family \<open>f\<close> after the calls made so far.
\<close>

type_synonym series = "labels \<rightharpoonup> mvalue"

definition partial_match :: "labels \<Rightarrow> labels \<Rightarrow> bool" where
  "partial_match l k \<longleftrightarrow> (\<forall>(n, v) \<in> set l. map_of k n = Some v)"

fun gauge_step :: "family \<Rightarrow> metric \<Rightarrow> 'o effect \<Rightarrow> series \<Rightarrow> series" where
  "gauge_step f m (GaugeSet f' m' v l) G = (if f' = f \<and> m' = m then G(l \<mapsto> v) else G)"
| "gauge_step f m (GaugeDeletePartialMatch f' m' l) G =
     (if f' = f \<and> m' = m then (\<lambda>k. if partial_match l k then None else G k) else G)"
| "gauge_step f m _ G = G"

definition gauge :: "family \<Rightarrow> metric \<Rightarrow> 'o cstate \<Rightarrow> series" where
  "gauge f m st = fold (gauge_step f m) (out st) Map.empty"

lemma gauge_emit: "gauge f m (emit e st) = gauge_step f m e (gauge f m st)"
  by (simp add: gauge_def emit_def)

lemma gauge_eq_out: "out st' = out st \<Longrightarrow> gauge f m st' = gauge f m st"
  by (simp add: gauge_def)

lemma gauge_update [simp]:
  "gauge f m (st\<lparr>observedConditions := a\<rparr>) = gauge f m st"
  "gauge f m (st\<lparr>observedGaugeLabels := b\<rparr>) = gauge f m st"
  "gauge f m (st\<lparr>observedFinalizers := d\<rparr>) = gauge f m st"
  "gauge f m (st\<lparr>terminatingObjects := e\<rparr>) = gauge f m st"
  "gauge f m (st\<lparr>tick := n\<rparr>) = gauge f m st"
  by (simp_all add: gauge_def)

lemma gauge_Current [simp]:
  "gauge Current m (setGaugeMetric c m' v ls add st) =
     (if m' = m then (gauge Current m st)(lo_Assign [ls, add] \<mapsto> v) else gauge Current m st)"
  "gauge Current m (deletePartialMatchGaugeMetric c m' ls st) =
     (if m' = m then (\<lambda>k. if partial_match ls k then None else gauge Current m st k)
      else gauge Current m st)"
  by (simp_all add: setGaugeMetric_def deletePartialMatchGaugeMetric_def gauge_emit Let_def)

lemma gauge_counter [simp]: "gauge f m (incCounterMetric c m' ls add st) = gauge f m st"
  by (simp add: incCounterMetric_def gauge_emit Let_def)

lemma gauge_histogram [simp]: "gauge f m (observeHistogram c m' v ls add st) = gauge f m st"
  by (simp add: observeHistogram_def gauge_emit Let_def)

lemma gauge_finalized [simp]: "gauge f m (emit (finalized ob s) st) = gauge f m st"
  by (simp add: gauge_emit finalized_def)

lemma fold_keeps: "(\<And>x s. P (f x s) = P s) \<Longrightarrow> P (fold f xs s) = P s"
  by (induction xs arbitrary: s) simp_all

lemma gauge_transition [simp]: "gauge f m (transition c S ob obs ml cond st) = gauge f m st"
  by (simp add: transition_def Let_def gauge_emit split: option.split)

subsection \<open>What an operation leaves alone\<close>

text \<open>\<open>core\<close> is the part of the state the emitting operations do not touch: the four maps.\<close>

definition core :: "'o cstate \<Rightarrow> 'o cstate" where
  "core st = st\<lparr>tick := 0, out := []\<rparr>"

lemma core_emit [simp]: "core (emit e st) = core st"
  by (simp add: core_def emit_def)

lemma core_metrics [simp]:
  "core (setGaugeMetric c m v ls add st) = core st"
  "core (deletePartialMatchGaugeMetric c m ls st) = core st"
  "core (incCounterMetric c m ls add st) = core st"
  "core (observeHistogram c m v ls add st) = core st"
  by (simp_all add: setGaugeMetric_def deletePartialMatchGaugeMetric_def incCounterMetric_def
      observeHistogram_def Let_def)

lemma core_tick [simp]: "core (st\<lparr>tick := n\<rparr>) = core st"
  by (simp add: core_def)

lemma core_since [simp]: "core (snd (since clk t st)) = core st" "out (snd (since clk t st)) = out st"
  by (simp_all add: since_def core_def)

lemma core_loops [simp]:
  "core (count_condition c clk req gl cond st) = core st"
  "core (delete_stale c S req cur gl ogl oc st) = core st"
  "core (transition c S ob obs ml cond st) = core st"
  by (simp_all add: count_condition_def delete_stale_def transition_def since_def Let_def
      split: option.split)

lemma core_fields:
  "core st = core st' \<Longrightarrow> observedConditions st = observedConditions st'
    \<and> observedGaugeLabels st = observedGaugeLabels st'
    \<and> observedFinalizers st = observedFinalizers st' \<and> terminatingObjects st = terminatingObjects st'"
  by (cases st; cases st') (simp add: core_def)

lemma core_folds [simp]:
  "core (fold (count_condition c clk req gl) xs st) = core st"
  "core (fold (delete_stale c S req cur gl ogl) ys st) = core st"
  "core (fold (transition c S ob obs ml) zs st) = core st"
  "core (fold (\<lambda>f st. emit (finalized ob f) st) fs st) = core st"
  by (rule fold_keeps; simp)+

lemmas maps_of_core = core_fields [OF core_metrics(1)] core_fields [OF core_metrics(2)]
  core_fields [OF core_metrics(4)]
  core_fields [OF core_folds(1)] core_fields [OF core_folds(2)] core_fields [OF core_folds(3)]
  core_fields [OF core_folds(4)]

section \<open>The labels of a series\<close>

lemma partial_match_iff: "labels_ok l \<Longrightarrow> partial_match l k \<longleftrightarrow> map_of l \<subseteq>\<^sub>m map_of k"
proof -
  assume "labels_ok l"
  then have "distinct (map fst l)" by (auto simp: labels_ok_def strict_sorted_iff)
  then have "(n, v) \<in> set l \<longleftrightarrow> map_of l n = Some v" for n v by simp
  then have "partial_match l k \<longleftrightarrow> (\<forall>n v. map_of l n = Some v \<longrightarrow> map_of k n = Some v)"
    unfolding partial_match_def by blast
  then show ?thesis unfolding map_le_def dom_def by force
qed

definition base_keys :: "string set" where
  "base_keys = {MetricLabelNamespace, MetricLabelName, LabelType, MetricLabelConditionStatus, LabelReason}"

definition gauge_keys :: "controller \<Rightarrow> string set" where
  "gauge_keys c = toPrometheusLabel ` (set (map fst (additionalMetricFields c))
     \<union> set (map fst (additionalGaugeMetricFields c)) \<union> set (additionalMetricLabels c)
     \<union> set (additionalGaugeMetricLabels c))"

definition metric_keys :: "controller \<Rightarrow> string set" where
  "metric_keys c = toPrometheusLabel ` (set (map fst (additionalMetricFields c))
     \<union> set (additionalMetricLabels c))"

lemma field_labels_keys [simp]:
  "label_keys (field_labels NS u fs) = toPrometheusLabel ` fst ` set fs" "labels_ok (field_labels NS u fs)"
  by (force simp: field_labels_def image_iff)+

lemma object_labels_keys [simp]:
  "label_keys (object_labels S ob ls) = toPrometheusLabel ` set ls" "labels_ok (object_labels S ob ls)"
  by (force simp: object_labels_def image_iff)+

lemma map_of_to_labels_distinct: "distinct (map fst kvs) \<Longrightarrow> map_of (to_labels kvs) = map_of kvs"
  by (simp add: map_of_to_labels map_of_rev_distinct)

lemma metric_labels_keys:
  assumes "toAdditionalMetricLabels c S NS ob = Inr ml"
  shows "labels_ok ml \<and> label_keys ml = metric_keys c"
proof -
  obtain u where "ml = lo_Assign [field_labels NS u (additionalMetricFields c),
      object_labels S ob (additionalMetricLabels c)]"
    using assms by (auto simp: toAdditionalMetricLabels_def go_bind_eq_Inr)
  then show ?thesis by (simp add: metric_keys_def image_Un)
qed

lemma gauge_labels_keys:
  assumes "toAdditionalGaugeMetricLabels c S NS ob = Inr gl"
  shows "labels_ok gl \<and> label_keys gl = gauge_keys c"
proof -
  obtain u ml where ml: "toAdditionalMetricLabels c S NS ob = Inr ml"
    and gl: "gl = lo_Assign [field_labels NS u (additionalGaugeMetricFields c), ml,
      object_labels S ob (additionalGaugeMetricLabels c)]"
    using assms by (auto simp: toAdditionalGaugeMetricLabels_def go_bind_eq_Inr)
  have "label_keys ml = metric_keys c" using metric_labels_keys [OF ml] ..
  then show ?thesis by (auto simp: gl gauge_keys_def metric_keys_def)
qed

text \<open>The labels evaluated for the gauges contain those of the other metrics.\<close>

lemma gauge_labels_metric_labels:
  "toAdditionalGaugeMetricLabels c S NS ob = Inr gl \<Longrightarrow>
   \<exists>ml. toAdditionalMetricLabels c S NS ob = Inr ml"
  by (auto simp: toAdditionalGaugeMetricLabels_def go_bind_eq_Inr)

definition cond_series :: "request \<Rightarrow> labels \<Rightarrow> condition \<Rightarrow> labels" where
  "cond_series req gl cond = lo_Assign [condition_labels req cond, gl]"

lemma map_of_condition_labels:
  "map_of (condition_labels req cond) =
     [MetricLabelNamespace \<mapsto> req_Namespace req, MetricLabelName \<mapsto> req_Name req,
      LabelType \<mapsto> Type cond, MetricLabelConditionStatus \<mapsto> Status cond, LabelReason \<mapsto> Reason cond]"
  by (simp add: condition_labels_def map_of_to_labels label_defs fun_upd_twist)

lemma labels_ok_condition_labels [simp]: "labels_ok (condition_labels req cond)"
  by (simp add: condition_labels_def)

lemma map_of_object_key_labels:
  "map_of (object_key_labels req) =
     [MetricLabelNamespace \<mapsto> req_Namespace req, MetricLabelName \<mapsto> req_Name req]"
  by (simp add: object_key_labels_def map_of_to_labels label_defs fun_upd_twist)

lemma labels_ok_object_key_labels [simp]: "labels_ok (object_key_labels req)"
  by (simp add: object_key_labels_def)

text \<open>
  A label map the controller can compute, and a configuration whose additional labels do not
  overwrite the ones every series has.
\<close>

definition gl_ok :: "controller \<Rightarrow> labels \<Rightarrow> bool" where
  "gl_ok c gl \<longleftrightarrow> labels_ok gl \<and> label_keys gl = gauge_keys c"

definition config_ok :: "controller \<Rightarrow> bool" where
  "config_ok c \<longleftrightarrow> gauge_keys c \<inter> base_keys = {}"

lemma gl_ok_base: "config_ok c \<Longrightarrow> gl_ok c gl \<Longrightarrow> k \<in> base_keys \<Longrightarrow> map_of gl k = None"
  by (auto simp: config_ok_def gl_ok_def label_keys_def map_of_eq_None_iff)

lemma dom_condition_labels: "dom (map_of (condition_labels req cond)) = base_keys"
  by (auto simp: map_of_condition_labels base_keys_def)

lemma map_of_cond_series:
  "labels_ok gl \<Longrightarrow> map_of (cond_series req gl cond) = map_of (condition_labels req cond) ++ map_of gl"
  by (simp add: cond_series_def map_of_Assign2)

lemma cond_series_base:
  assumes "config_ok c" "gl_ok c gl" "k \<in> base_keys"
  shows "map_of (cond_series req gl cond) k = map_of (condition_labels req cond) k"
  using assms gl_ok_base [OF assms] by (simp add: map_of_cond_series gl_ok_def map_add_def)

lemma cond_series_extra:
  assumes "gl_ok c gl" "k \<notin> base_keys"
  shows "map_of (cond_series req gl cond) k = map_of gl k"
  using assms dom_condition_labels [of req cond]
  by (auto simp: map_of_cond_series gl_ok_def map_add_def dom_def split: option.split)

lemma base_lookup:
  "map_of (condition_labels req cond) MetricLabelNamespace = Some (req_Namespace req)"
  "map_of (condition_labels req cond) MetricLabelName = Some (req_Name req)"
  "map_of (condition_labels req cond) LabelType = Some (Type cond)"
  "map_of (condition_labels req cond) MetricLabelConditionStatus = Some (Status cond)"
  "map_of (condition_labels req cond) LabelReason = Some (Reason cond)"
  by (simp_all add: map_of_condition_labels label_defs)

definition same_condition :: "request \<Rightarrow> condition \<Rightarrow> request \<Rightarrow> condition \<Rightarrow> bool" where
  "same_condition req c req' c' \<longleftrightarrow>
     req = req' \<and> Type c = Type c' \<and> Status c = Status c' \<and> Reason c = Reason c'"

lemma condition_labels_le:
  "map_of (condition_labels req c) \<subseteq>\<^sub>m map_of (condition_labels req' c') \<longleftrightarrow> same_condition req c req' c'"
proof
  assume le: "map_of (condition_labels req c) \<subseteq>\<^sub>m map_of (condition_labels req' c')"
  have "k \<in> base_keys \<Longrightarrow> map_of (condition_labels req c) k = map_of (condition_labels req' c') k" for k
    using le by (simp add: map_le_def dom_condition_labels)
  from this [of MetricLabelNamespace] this [of MetricLabelName] this [of LabelType]
    this [of MetricLabelConditionStatus] this [of LabelReason]
  show "same_condition req c req' c'"
    by (simp add: base_lookup base_keys_def same_condition_def)
next
  assume "same_condition req c req' c'"
  then show "map_of (condition_labels req c) \<subseteq>\<^sub>m map_of (condition_labels req' c')"
    by (simp add: map_of_condition_labels same_condition_def)
qed

lemma partial_match_condition:
  assumes cf: "config_ok c" and gl: "gl_ok c gl" and X: "X = [] \<or> gl_ok c X"
  shows "partial_match (lo_Assign [condition_labels req oc, X]) (cond_series req' gl cond)
    \<longleftrightarrow> same_condition req oc req' cond \<and> (X = [] \<or> X = gl)"
proof -
  have Xok: "labels_ok X" using X by (auto simp: gl_ok_def labels_ok_def)
  have Xb: "dom (map_of X) \<inter> base_keys = {}"
    using X cf by (elim disjE) (simp_all add: gl_ok_def config_ok_def flip: label_keys_dom)
  have "partial_match (lo_Assign [condition_labels req oc, X]) (cond_series req' gl cond)
      \<longleftrightarrow> map_of (condition_labels req oc) ++ map_of X \<subseteq>\<^sub>m map_of (cond_series req' gl cond)"
    by (simp add: partial_match_iff map_of_Assign2 Xok)
  also have "\<dots> \<longleftrightarrow> map_of (condition_labels req oc) \<subseteq>\<^sub>m map_of (cond_series req' gl cond)
      \<and> map_of X \<subseteq>\<^sub>m map_of (cond_series req' gl cond)"
    using Xb dom_condition_labels [of req oc] map_add_comm [of "map_of (condition_labels req oc)" "map_of X"]
    by (auto intro: map_le_trans [OF map_le_map_add] map_add_le_mapI)
      (metis Int_commute map_le_map_add map_le_trans)
  also have "map_of (condition_labels req oc) \<subseteq>\<^sub>m map_of (cond_series req' gl cond)
      \<longleftrightarrow> same_condition req oc req' cond"
    unfolding condition_labels_le [symmetric]
    by (simp add: map_le_def dom_condition_labels cond_series_base [OF cf gl])
  also have "map_of X \<subseteq>\<^sub>m map_of (cond_series req' gl cond) \<longleftrightarrow> map_of X \<subseteq>\<^sub>m map_of gl"
  proof -
    have "map_of (cond_series req' gl cond) k = map_of gl k" if "k \<in> dom (map_of X)" for k
      using Xb that by (intro cond_series_extra [OF gl]) (simp add: disjoint_iff)
    then show ?thesis by (simp add: map_le_def)
  qed
  also have "\<dots> \<longleftrightarrow> X = [] \<or> X = gl"
  proof
    assume le: "map_of X \<subseteq>\<^sub>m map_of gl"
    show "X = [] \<or> X = gl"
    proof (rule disjCI)
      assume "\<not> X = gl"
      have "X = gl" if "gl_ok c X"
      proof (rule labels_eqI)
        have "dom (map_of X) = dom (map_of gl)"
          using that gl by (simp add: gl_ok_def flip: label_keys_dom)
        with le show "map_of X = map_of gl" by (intro map_le_antisym) (simp_all add: map_le_def)
      qed (use that gl in \<open>simp_all add: gl_ok_def\<close>)
      with X \<open>\<not> X = gl\<close> show "X = []" by blast
    qed
  qed auto
  finally show ?thesis by blast
qed

lemma partial_match_object:
  assumes cf: "config_ok c" and gl: "gl_ok c gl"
  shows "partial_match (object_key_labels req) (cond_series req' gl cond) \<longleftrightarrow> req = req'"
proof -
  have d: "dom (map_of (object_key_labels req)) = {MetricLabelNamespace, MetricLabelName}"
    by (auto simp: map_of_object_key_labels)
  have k: "MetricLabelNamespace \<in> base_keys" "MetricLabelName \<in> base_keys"
    by (simp_all add: base_keys_def)
  have l: "map_of (object_key_labels req) MetricLabelNamespace = Some (req_Namespace req)"
    "map_of (object_key_labels req) MetricLabelName = Some (req_Name req)"
    by (simp_all add: map_of_object_key_labels label_defs)
  have "partial_match (object_key_labels req) (cond_series req' gl cond)
      \<longleftrightarrow> req_Namespace req = req_Namespace req' \<and> req_Name req = req_Name req'"
    by (simp add: partial_match_iff map_le_def d l cond_series_base [OF cf gl k(1)]
        cond_series_base [OF cf gl k(2)] base_lookup)
  then show ?thesis by (cases req; cases req') auto
qed

lemma cond_series_eq:
  assumes cf: "config_ok c" and gl: "gl_ok c gl" "gl_ok c gl'"
  shows "cond_series req gl cond = cond_series req' gl' cond'
    \<longleftrightarrow> same_condition req cond req' cond' \<and> gl = gl'"
proof
  assume e: "cond_series req gl cond = cond_series req' gl' cond'"
  have "partial_match (lo_Assign [condition_labels req cond, gl]) (cond_series req gl cond)"
    by (simp add: partial_match_condition [OF cf gl(1) disjI2 [OF gl(1)]] same_condition_def)
  then have *: "same_condition req cond req' cond' \<and> (gl = [] \<or> gl = gl')"
    unfolding e partial_match_condition [OF cf gl(2) disjI2 [OF gl(1)]] .
  have "gl' = []" if "gl = []"
    using gl that by (simp add: gl_ok_def label_keys_def)
  with * show "same_condition req cond req' cond' \<and> gl = gl'" by auto
next
  assume "same_condition req cond req' cond' \<and> gl = gl'"
  then show "cond_series req gl cond = cond_series req' gl' cond'"
    by (simp add: cond_series_def condition_labels_def same_condition_def)
qed

section \<open>The condition gauges\<close>

definition cond_gauges :: "metric set" where
  "cond_gauges = {ConditionCount, ConditionCurrentStatusSeconds}"

lemma gauge_count_condition:
  "m \<in> cond_gauges \<Longrightarrow> dom (gauge Current m (count_condition c clk req gl cond st))
     = insert (cond_series req gl cond) (dom (gauge Current m st))"
  "gauge Current ConditionCount (count_condition c clk req gl cond st)
     = (gauge Current ConditionCount st)(cond_series req gl cond \<mapsto> One)"
  by (auto simp: count_condition_def since_def cond_gauges_def cond_series_def Let_def)

lemma gauge_count_conditions:
  "m \<in> cond_gauges \<Longrightarrow> dom (gauge Current m (fold (count_condition c clk req gl) conds st))
     = dom (gauge Current m st) \<union> cond_series req gl ` set conds"
  "ran (gauge Current ConditionCount st) \<subseteq> {One} \<Longrightarrow>
   ran (gauge Current ConditionCount (fold (count_condition c clk req gl) conds st)) \<subseteq> {One}"
proof (induction conds arbitrary: st)
  case (Cons cond conds)
  { case 1 with Cons.IH(1) show ?case by (simp add: gauge_count_condition) }
  { case 2
    then have "ran (gauge Current ConditionCount (count_condition c clk req gl cond st)) \<subseteq> {One}"
      by (auto simp: gauge_count_condition ran_def split: if_splits)
    then show ?case using Cons.IH(2) by simp }
qed simp_all

definition is_stale :: "('o, 'a) status_object \<Rightarrow> 'o condition_set \<Rightarrow> labels \<Rightarrow> labels \<Rightarrow> condition \<Rightarrow> bool" where
  "is_stale S current gl ogl oc \<longleftrightarrow>
     (case cs_Get (Conditions_ops S) current (Type oc) of None \<Rightarrow> True
      | Some cc \<Rightarrow> Status cc \<noteq> Status oc \<or> Reason cc \<noteq> Reason oc \<or> gl \<noteq> ogl)"

definition stale_labels :: "request \<Rightarrow> labels \<Rightarrow> labels \<Rightarrow> condition \<Rightarrow> labels" where
  "stale_labels req gl ogl oc =
     lo_Assign [condition_labels req oc, if gl \<noteq> ogl then ogl else []]"

lemma dom_delete: "dom (\<lambda>k. if P k then None else f k) = {k \<in> dom f. \<not> P k}"
  by (auto split: if_splits)

lemma ran_delete: "ran f \<subseteq> A \<Longrightarrow> ran (\<lambda>k. if P k then None else f k) \<subseteq> A"
  by (auto simp: ran_def)

lemma gauge_delete_stale:
  "m \<in> cond_gauges \<Longrightarrow> gauge Current m (delete_stale c S req current gl ogl oc st)
     = (\<lambda>k. if is_stale S current gl ogl oc \<and> partial_match (stale_labels req gl ogl oc) k
            then None else gauge Current m st k)"
  by (auto simp: delete_stale_def cond_gauges_def is_stale_def stale_labels_def Let_def)

lemma gauge_delete_stales:
  "m \<in> cond_gauges \<Longrightarrow> gauge Current m (fold (delete_stale c S req current gl ogl) ocs st)
     = (\<lambda>k. if \<exists>oc \<in> set ocs. is_stale S current gl ogl oc
                 \<and> partial_match (stale_labels req gl ogl oc) k
            then None else gauge Current m st k)"
  by (induction ocs arbitrary: st) (auto simp: gauge_delete_stale fun_eq_iff)

lemma gauge_transitions [simp]:
  "gauge f m (fold (transition c S ob obs ml) conds st) = gauge f m st"
  "gauge f m (fold (\<lambda>s st. emit (finalized ob s) st) fs st) = gauge f m st"
  by (rule fold_keeps; simp)+

lemma gauge_detect [simp]: "gauge f m (detect_finalizers S req ob st) = gauge f m st"
  by (simp add: detect_finalizers_def Let_def split: option.split)

lemma core_detect:
  "observedConditions (detect_finalizers S req ob st) = observedConditions st
   \<and> observedGaugeLabels (detect_finalizers S req ob st) = observedGaugeLabels st
   \<and> terminatingObjects (detect_finalizers S req ob st) = terminatingObjects st
   \<and> observedFinalizers (detect_finalizers S req ob st)
       = (observedFinalizers st)(req \<mapsto> GetFinalizers S ob)"
  by (simp add: detect_finalizers_def Let_def maps_of_core split: option.split)

lemma detect_termination_frame:
  assumes "detect_termination c S NS clk req ob st = Inr st'"
  shows "observedConditions st' = observedConditions st
    \<and> observedGaugeLabels st' = observedGaugeLabels st
    \<and> observedFinalizers st' = observedFinalizers st
    \<and> terminatingObjects st' = (if GetDeletionTimestamp (Conditions_ops S) ob = None
         then terminatingObjects st else (terminatingObjects st)(req \<mapsto> ob))
    \<and> (\<forall>m \<in> cond_gauges. gauge Current m st' = gauge Current m st)"
  using assms
  by (auto simp: detect_termination_def since_def go_bind_eq_Inr maps_of_core cond_gauges_def
      split: option.splits)

text \<open>The step on an object that was found, opened.\<close>

lemma reconcile_foundE:
  assumes "reconcile_found c S NS clk req ob st = Inr st'"
  obtains st1 ob' current n gl ml st2 where
    "detect_termination c S NS clk req ob (detect_finalizers S req ob st) = Inr st1"
    "StatusConditions S clk ob (tick st1) = Inr (ob', current, n)"
    "toAdditionalGaugeMetricLabels c S NS ob' = Inr gl" "toAdditionalMetricLabels c S NS ob' = Inr ml"
    "out st2 = out st1" "tick st2 = n"
    "observedConditions st2 = (observedConditions st1)(req \<mapsto> current)"
    "observedGaugeLabels st2 = (observedGaugeLabels st1)(req \<mapsto> gl)"
    "observedFinalizers st2 = observedFinalizers st1"
    "terminatingObjects st2 = (if GetDeletionTimestamp (Conditions_ops S) ob = None
       then terminatingObjects st1 else (terminatingObjects st1)(req \<mapsto> ob'))"
    "st' = fold (transition c S ob'
             (case observedConditions st1 req of None \<Rightarrow> empty_condition_set | Some v \<Rightarrow> v) ml)
           (cs_List (Conditions_ops S) current)
           (fold (delete_stale c S req current gl
               (case observedGaugeLabels st1 req of None \<Rightarrow> [] | Some v \<Rightarrow> v))
             (cs_List (Conditions_ops S)
               (case observedConditions st1 req of None \<Rightarrow> empty_condition_set | Some v \<Rightarrow> v))
             (fold (count_condition c clk req gl) (GetConditions (Conditions_ops S) ob') st2))"
proof -
  obtain st1 where 1: "detect_termination c S NS clk req ob (detect_finalizers S req ob st) = Inr st1"
    using assms by (auto simp: reconcile_found_def go_bind_eq_Inr)
  obtain ob' current n where 2: "StatusConditions S clk ob (tick st1) = Inr (ob', current, n)"
    using assms 1 by (auto simp: reconcile_found_def go_bind_eq_Inr)
  obtain gl ml where 3: "toAdditionalGaugeMetricLabels c S NS ob' = Inr gl"
      "toAdditionalMetricLabels c S NS ob' = Inr ml"
    using assms 1 2 by (auto simp: reconcile_found_def go_bind_eq_Inr Let_def)
  show thesis
    by (rule that [OF 1 2 3, of "(if GetDeletionTimestamp (Conditions_ops S) ob = None
            then st1\<lparr>tick := n\<rparr>
            else (st1\<lparr>tick := n\<rparr>)\<lparr>terminatingObjects := (terminatingObjects st1)(req \<mapsto> ob')\<rparr>)
          \<lparr>observedConditions := (observedConditions st1)(req \<mapsto> current),
           observedGaugeLabels := (observedGaugeLabels st1)(req \<mapsto> gl)\<rparr>"])
      (use assms 1 2 3 in \<open>auto simp: reconcile_found_def Let_def split: if_splits\<close>)
qed

lemma found_frame:
  assumes "reconcile_found c S NS clk req ob st = Inr st'"
  shows "\<forall>req'. req' \<noteq> req \<longrightarrow>
      observedConditions st' req' = observedConditions st req'
    \<and> observedGaugeLabels st' req' = observedGaugeLabels st req'
    \<and> observedFinalizers st' req' = observedFinalizers st req'
    \<and> terminatingObjects st' req' = terminatingObjects st req'"
  using assms
  by (rule reconcile_foundE)
    (auto simp: maps_of_core core_detect split: if_splits dest!: detect_termination_frame)

section \<open>The invariant of the controller\<close>

text \<open>
  \<open>tracked\<close> is the set of series the controller ought to export: one for every condition of every
  object it knows, with the labels the object had when it was last seen. \<open>ctl_inv\<close> says that both
  condition gauges have exactly these.
\<close>

definition tracked :: "('o, 'a) status_object \<Rightarrow> 'o cstate \<Rightarrow> labels set" where
  "tracked S st = {cond_series req gl cond | req gl cond. \<exists>cs.
     observedConditions st req = Some cs \<and> observedGaugeLabels st req = Some gl
     \<and> cond \<in> set (cs_List (Conditions_ops S) cs)}"

definition observed_ok :: "controller \<Rightarrow> ('o, 'a) status_object \<Rightarrow> 'o cstate \<Rightarrow> bool" where
  "observed_ok c S st \<longleftrightarrow> (\<forall>req cs. observedConditions st req = Some cs \<longrightarrow>
     distinct (map Type (cs_List (Conditions_ops S) cs))
     \<and> (\<exists>gl. observedGaugeLabels st req = Some gl \<and> gl_ok c gl))"

definition ctl_inv :: "controller \<Rightarrow> ('o, 'a) status_object \<Rightarrow> 'o cstate \<Rightarrow> bool" where
  "ctl_inv c S st \<longleftrightarrow> observed_ok c S st
     \<and> (\<forall>m \<in> cond_gauges. dom (gauge Current m st) = tracked S st)
     \<and> ran (gauge Current ConditionCount st) \<subseteq> {One}"

lemma observed_labels:
  "ctl_inv c S st \<Longrightarrow> observedConditions st req = Some cs \<Longrightarrow>
   \<exists>gl. observedGaugeLabels st req = Some gl \<and> gl_ok c gl"
  unfolding ctl_inv_def observed_ok_def by blast

definition owned :: "request \<Rightarrow> labels \<Rightarrow> bool" where
  "owned req k \<longleftrightarrow> partial_match (object_key_labels req) k"

lemma tracked_update:
  assumes "config_ok c" "observed_ok c S st"
    and "observedConditions st' = (observedConditions st)(req := x)"
    and "observedGaugeLabels st' = (observedGaugeLabels st)(req := y)"
  shows "tracked S st' = {k \<in> tracked S st. \<not> owned req k}
    \<union> (case (x, y) of (Some cs, Some gl) \<Rightarrow> cond_series req gl ` set (cs_List (Conditions_ops S) cs)
        | _ \<Rightarrow> {})"
proof -
  have own: "owned req (cond_series req' gl cond) \<longleftrightarrow> req = req'"
    if "observedConditions st req' = Some cs" "observedGaugeLabels st req' = Some gl" for req' gl cond cs
    using assms(1,2) that unfolding owned_def observed_ok_def by (metis option.inject partial_match_object)
  show ?thesis
  proof (intro set_eqI iffI)
    fix k assume "k \<in> tracked S st'"
    then obtain req' gl cond cs where k: "k = cond_series req' gl cond"
      "observedConditions st' req' = Some cs" "observedGaugeLabels st' req' = Some gl"
      "cond \<in> set (cs_List (Conditions_ops S) cs)"
      by (auto simp: tracked_def)
    show "k \<in> {k \<in> tracked S st. \<not> owned req k}
      \<union> (case (x, y) of (Some cs, Some gl) \<Rightarrow> cond_series req gl ` set (cs_List (Conditions_ops S) cs)
        | _ \<Rightarrow> {})"
    proof (cases "req' = req")
      case True
      with k show ?thesis by (simp add: assms(3,4))
    next
      case False
      with k have "observedConditions st req' = Some cs" "observedGaugeLabels st req' = Some gl"
        by (simp_all add: assms(3,4))
      with k False own show ?thesis unfolding tracked_def by blast
    qed
  next
    fix k assume "k \<in> {k \<in> tracked S st. \<not> owned req k}
      \<union> (case (x, y) of (Some cs, Some gl) \<Rightarrow> cond_series req gl ` set (cs_List (Conditions_ops S) cs)
        | _ \<Rightarrow> {})"
    then show "k \<in> tracked S st'"
    proof
      assume "k \<in> {k \<in> tracked S st. \<not> owned req k}"
      then obtain req' gl cond cs where k: "k = cond_series req' gl cond" "\<not> owned req k"
        "observedConditions st req' = Some cs" "observedGaugeLabels st req' = Some gl"
        "cond \<in> set (cs_List (Conditions_ops S) cs)"
        by (auto simp: tracked_def)
      then have "req' \<noteq> req" using own by blast
      with k show ?thesis unfolding tracked_def assms(3,4) by auto
    next
      assume "k \<in> (case (x, y) of (Some cs, Some gl) \<Rightarrow>
          cond_series req gl ` set (cs_List (Conditions_ops S) cs) | _ \<Rightarrow> {})"
      then show ?thesis unfolding tracked_def assms(3,4) by (auto split: option.splits)
    qed
  qed
qed

locale status_object =
  fixes S :: "('o, 'a) status_object"
  assumes status_conditions: "wf_conditions (Conditions_ops S) ob \<Longrightarrow>
    StatusConditions S clk ob n = Inr (ob', cs, n') \<Longrightarrow>
    object cs = Some ob' \<and> wf_conditions (Conditions_ops S) ob'"
begin

text \<open>
  What the two loops make of the gauges: among the series of the object exactly those of its
  current conditions remain.
\<close>

lemma stale_series:
  assumes cf: "config_ok c" and gl: "gl_ok c gl" "gl_ok c ogl"
    and d: "distinct (map Type new)" and cur: "\<And>t. cs_Get (Conditions_ops S) current t = find (\<lambda>x. Type x = t) new"
    and oc: "oc \<in> set old"
  shows "cond_series req ogl oc \<in> cond_series req gl ` set new
    \<or> is_stale S current gl ogl oc \<and> partial_match (stale_labels req gl ogl oc) (cond_series req ogl oc)"
proof (cases "is_stale S current gl ogl oc")
  case True
  then show ?thesis
    using partial_match_condition [OF cf gl(2), of "if gl \<noteq> ogl then ogl else []" req oc req oc] gl
    by (auto simp: stale_labels_def same_condition_def)
next
  case False
  then obtain cc where cc: "find (\<lambda>x. Type x = Type oc) new = Some cc" "Status cc = Status oc"
      "Reason cc = Reason oc" "gl = ogl"
    by (auto simp: is_stale_def cur split: option.splits)
  then have "cc \<in> set new" "Type cc = Type oc" using find_key_iff [OF d] by auto
  then have "cond_series req ogl oc = cond_series req gl cc"
    using cc cond_series_eq [OF cf gl(1) gl(2), of req cc req oc] by (auto simp: same_condition_def)
  then show ?thesis using \<open>cc \<in> set new\<close> by blast
qed

lemma fresh_series:
  assumes cf: "config_ok c" and gl: "gl_ok c gl" "gl_ok c ogl"
    and d: "distinct (map Type new)" and cur: "\<And>t. cs_Get (Conditions_ops S) current t = find (\<lambda>x. Type x = t) new"
    and cc: "cc \<in> set new" and st: "is_stale S current gl ogl oc"
  shows "\<not> partial_match (stale_labels req gl ogl oc) (cond_series req gl cc)"
proof
  assume "partial_match (stale_labels req gl ogl oc) (cond_series req gl cc)"
  then have s: "same_condition req oc req cc" "(if gl \<noteq> ogl then ogl else []) = []
      \<or> (if gl \<noteq> ogl then ogl else []) = gl"
    using partial_match_condition [OF cf gl(1), of "if gl \<noteq> ogl then ogl else []" req oc req cc] gl(2)
    by (auto simp: stale_labels_def split: if_splits)
  have "ogl = [] \<Longrightarrow> gl = []" using gl by (simp add: gl_ok_def label_keys_def)
  with s(2) have "gl = ogl" by (auto split: if_splits)
  moreover have "find (\<lambda>x. Type x = Type oc) new = Some cc"
    using cc s(1) find_key_iff [OF d] by (simp add: same_condition_def)
  ultimately show False using st s(1) by (simp add: is_stale_def cur same_condition_def)
qed

lemma stale_owned:
  assumes "config_ok c" "gl_ok c gl" "gl_ok c ogl" "gl_ok c gl'"
    and "partial_match (stale_labels req gl ogl oc) (cond_series req' gl' cond)"
  shows "req' = req"
  using partial_match_condition [OF assms(1,4), of "if gl \<noteq> ogl then ogl else []" req oc req' cond]
    assms(3,5) by (auto simp: stale_labels_def same_condition_def split: if_splits)

lemma tracked_owned:
  assumes "config_ok c" "observed_ok c S st" "k \<in> tracked S st" "owned req k"
  obtains cs gl cond where "observedConditions st req = Some cs" "observedGaugeLabels st req = Some gl"
    "gl_ok c gl" "cond \<in> set (cs_List (Conditions_ops S) cs)" "k = cond_series req gl cond"
proof -
  obtain req' gl cond cs where k: "k = cond_series req' gl cond"
    "observedConditions st req' = Some cs" "observedGaugeLabels st req' = Some gl"
    "cond \<in> set (cs_List (Conditions_ops S) cs)"
    using assms(3) by (auto simp: tracked_def)
  have gl: "gl_ok c gl" using assms(2) k(2,3) by (fastforce simp: observed_ok_def)
  have "req' = req"
    using assms(4) partial_match_object [OF assms(1) gl, of req req' cond] by (simp add: owned_def k(1))
  with k gl that show thesis by blast
qed

lemma loop_series:
  assumes cf: "config_ok c" and ok: "observed_ok c S st" and gl: "gl_ok c gl"
    and d: "distinct (map Type new)" and cur: "\<And>t. cs_Get (Conditions_ops S) current t = find (\<lambda>x. Type x = t) new"
    and old: "old = (case observedConditions st req of None \<Rightarrow> [] | Some cs \<Rightarrow> cs_List (Conditions_ops S) cs)"
    and ogl: "ogl = (case observedGaugeLabels st req of None \<Rightarrow> [] | Some l \<Rightarrow> l)"
  shows "{k \<in> tracked S st \<union> cond_series req gl ` set new.
      \<not> (\<exists>oc \<in> set old. is_stale S current gl ogl oc \<and> partial_match (stale_labels req gl ogl oc) k)}
    = {k \<in> tracked S st. \<not> owned req k} \<union> cond_series req gl ` set new"
proof -
  let ?m = "\<lambda>k oc. is_stale S current gl ogl oc \<and> partial_match (stale_labels req gl ogl oc) k"
  have oglok: "gl_ok c ogl" if "oc \<in> set old" for oc
  proof (cases "observedConditions st req")
    case (Some cs)
    with ok obtain l where "observedGaugeLabels st req = Some l" "gl_ok c l"
      unfolding observed_ok_def by blast
    then show ?thesis by (simp add: ogl)
  qed (use that in \<open>simp add: old\<close>)
  have 1: "k \<in> cond_series req gl ` set new \<or> (\<exists>oc \<in> set old. ?m k oc)"
    if k: "k \<in> tracked S st" "owned req k" for k
  proof -
    obtain cs l oc where l: "observedConditions st req = Some cs" "observedGaugeLabels st req = Some l"
      "gl_ok c l" "oc \<in> set (cs_List (Conditions_ops S) cs)" "k = cond_series req l oc"
      by (rule tracked_owned [OF cf ok k])
    then have "oc \<in> set old" "ogl = l" by (simp_all add: old ogl)
    with stale_series [OF cf gl _ d cur, of ogl oc old req] l show ?thesis by blast
  qed
  have 2: "\<not> ?m k oc" if k: "k \<in> tracked S st" "\<not> owned req k" and oc: "oc \<in> set old" for k oc
  proof
    assume m: "?m k oc"
    obtain req' l cond cs where k': "k = cond_series req' l cond"
      "observedConditions st req' = Some cs" "observedGaugeLabels st req' = Some l"
      using k(1) by (auto simp: tracked_def)
    have l: "gl_ok c l" using ok k'(2,3) by (fastforce simp: observed_ok_def)
    have "partial_match (stale_labels req gl ogl oc) (cond_series req' l cond)"
      using m k'(1) by simp
    then have "req' = req" by (rule stale_owned [OF cf gl oglok [OF oc] l])
    then show False
      using k(2) partial_match_object [OF cf l, of req req' cond] by (simp add: owned_def k'(1))
  qed
  have 3: "\<not> ?m k oc" if k: "k \<in> cond_series req gl ` set new" and oc: "oc \<in> set old" for k oc
    using k fresh_series [OF cf gl oglok [OF oc] d cur] by blast
  show ?thesis using 1 2 3 by blast
qed

text \<open>The two loops, on a state whose maps are those of \<open>st\<close> with the new conditions and labels of \<open>req\<close>.\<close>

lemma loops_inv:
  fixes st st2 :: "'o cstate"
  assumes cf: "config_ok c" and inv: "ctl_inv c S st" and gl: "gl_ok c gl"
    and new: "cs_List (Conditions_ops S) current = new" "\<And>t. cs_Get (Conditions_ops S) current t = find (\<lambda>x. Type x = t) new"
      "distinct (map Type new)"
    and maps: "observedConditions st' = (observedConditions st)(req \<mapsto> current)"
      "observedGaugeLabels st' = (observedGaugeLabels st)(req \<mapsto> gl)"
    and old: "old = (case observedConditions st req of None \<Rightarrow> [] | Some cs \<Rightarrow> cs_List (Conditions_ops S) cs)"
    and ogl: "ogl = (case observedGaugeLabels st req of None \<Rightarrow> [] | Some l \<Rightarrow> l)"
    and g2: "\<And>m. m \<in> cond_gauges \<Longrightarrow> gauge Current m st2 = gauge Current m st"
    and g: "\<And>m. m \<in> cond_gauges \<Longrightarrow> gauge Current m st' =
      (\<lambda>k. if \<exists>oc \<in> set old. is_stale S current gl ogl oc \<and> partial_match (stale_labels req gl ogl oc) k
          then None else gauge Current m (fold (count_condition c clk req gl) new st2) k)"
  shows "ctl_inv c S st'"
proof -
  have ok: "observed_ok c S st" using inv by (simp add: ctl_inv_def)
  have ok': "observed_ok c S st'"
    using ok gl new(1,3) by (auto simp: observed_ok_def maps)
  have "dom (gauge Current m st') = tracked S st'" if m: "m \<in> cond_gauges" for m
  proof -
    have "dom (gauge Current m st') = {k \<in> tracked S st \<union> cond_series req gl ` set new.
        \<not> (\<exists>oc \<in> set old. is_stale S current gl ogl oc \<and> partial_match (stale_labels req gl ogl oc) k)}"
      using gauge_count_conditions(1) [OF m, of c clk req gl new st2] inv m
      by (simp add: g [OF m] g2 [OF m] ctl_inv_def dom_delete)
    also have "\<dots> = {k \<in> tracked S st. \<not> owned req k} \<union> cond_series req gl ` set new"
      by (rule loop_series [OF cf ok gl new(3,2) old ogl])
    also have "\<dots> = tracked S st'"
      using tracked_update [OF cf ok maps] new(1) by simp
    finally show ?thesis .
  qed
  moreover have "ran (gauge Current ConditionCount st') \<subseteq> {One}"
    using gauge_count_conditions(2) [of st2 c clk req gl new] g2 [of ConditionCount] inv
    by (simp add: g cond_gauges_def ctl_inv_def ran_delete)
  ultimately show "ctl_inv c S st'" using ok' by (simp add: ctl_inv_def)
qed

lemma reconcile_found_inv:
  assumes cf: "config_ok c" and inv: "ctl_inv c S st" and wf: "wf_conditions (Conditions_ops S) ob"
    and r: "reconcile_found c S NS clk req ob st = Inr st'"
  shows "ctl_inv c S st'"
  using r
proof (rule reconcile_foundE)
  let ?M = "Conditions_ops S"
  fix st1 :: "'o cstate" and ob' current n gl ml and st2 :: "'o cstate"
  let ?obs = "case observedConditions st1 req of None \<Rightarrow> empty_condition_set | Some v \<Rightarrow> v"
  let ?ogl = "case observedGaugeLabels st1 req of None \<Rightarrow> [] | Some v \<Rightarrow> v"
  assume dt: "detect_termination c S NS clk req ob (detect_finalizers S req ob st) = Inr st1"
    and sc: "StatusConditions S clk ob (tick st1) = Inr (ob', current, n)"
    and gl: "toAdditionalGaugeMetricLabels c S NS ob' = Inr gl"
    and out: "out st2 = out st1"
    and oc2: "observedConditions st2 = (observedConditions st1)(req \<mapsto> current)"
    and og2: "observedGaugeLabels st2 = (observedGaugeLabels st1)(req \<mapsto> gl)"
    and st': "st' = fold (transition c S ob' ?obs ml) (cs_List ?M current)
      (fold (delete_stale c S req current gl ?ogl) (cs_List ?M ?obs)
        (fold (count_condition c clk req gl) (GetConditions ?M ob') st2))"
  have same: "observedConditions st1 = observedConditions st" "observedGaugeLabels st1 = observedGaugeLabels st"
    "\<And>m. m \<in> cond_gauges \<Longrightarrow> gauge Current m st1 = gauge Current m st"
    using detect_termination_frame [OF dt] core_detect [of S req ob st] by auto
  have glok: "gl_ok c gl" using gauge_labels_keys [OF gl] by (simp add: gl_ok_def)
  have "object current = Some ob'" "wf_conditions ?M ob'"
    using status_conditions [OF wf sc] by auto
  then have new: "cs_List ?M current = GetConditions ?M ob'" "\<And>t. cs_Get ?M current t = find (\<lambda>x. Type x = t) (GetConditions ?M ob')"
    "distinct (map Type (GetConditions ?M ob'))"
    by (simp_all add: cs_List_def cs_Get_def Get_object_def wf_conditions_def)
  have maps: "observedConditions st' = (observedConditions st)(req \<mapsto> current)"
    "observedGaugeLabels st' = (observedGaugeLabels st)(req \<mapsto> gl)"
    by (simp_all add: st' maps_of_core oc2 og2 same)
  have obs: "cs_List ?M ?obs = (case observedConditions st req of None \<Rightarrow> [] | Some cs \<Rightarrow> cs_List ?M cs)"
    by (simp add: same cs_List_def empty_condition_set_def split: option.split)
  show "ctl_inv c S st'"
  proof (rule loops_inv [OF cf inv glok new maps obs, where ?st2.0 = st2 and clk = clk])
    show "gauge Current m st2 = gauge Current m st" if "m \<in> cond_gauges" for m
      using gauge_eq_out [OF out] same(3) [OF that] by simp
    show "?ogl = (case observedGaugeLabels st req of None \<Rightarrow> [] | Some l \<Rightarrow> l)" by (simp only: same)
  qed (simp add: st' gauge_delete_stales)
qed

lemma reconcile_not_found_frame:
  assumes "reconcile_not_found c S NS clk req ob st = Inr st'"
  shows "observedConditions st' = (observedConditions st)(req := None)
    \<and> observedGaugeLabels st' = (observedGaugeLabels st)(req := None)
    \<and> (\<forall>m \<in> insert TerminationCurrentTimeSeconds cond_gauges.
         gauge Current m st' = (\<lambda>k. if owned req k then None else gauge Current m st k))"
  using assms
  by (auto simp: reconcile_not_found_def go_bind_eq_Inr Let_def since_def maps_of_core cond_gauges_def
      owned_def fun_eq_iff split: option.splits)

lemma reconcile_inv:
  assumes cf: "config_ok c" and inv: "ctl_inv c S st"
    and wf: "\<And>ob. r = GetOk ob \<Longrightarrow> wf_conditions (Conditions_ops S) ob"
    and r: "reconcile c S NS clk req ob0 r st = Inr (res, err, st')"
  shows "ctl_inv c S st'"
proof (cases r)
  case (GetOk ob)
  with r show ?thesis
    by (auto simp: reconcile_def go_bind_eq_Inr intro: reconcile_found_inv [OF cf inv wf])
next
  case GetNotFound
  with r have "reconcile_not_found c S NS clk req ob0 st = Inr st'"
    by (auto simp: reconcile_def go_bind_eq_Inr)
  note f = reconcile_not_found_frame [OF this]
  have ok: "observed_ok c S st" using inv by (simp add: ctl_inv_def)
  have "tracked S st' = {k \<in> tracked S st. \<not> owned req k}"
    using tracked_update [OF cf ok, of st' req None None] f by simp
  moreover have "observed_ok c S st'" using ok f by (auto simp: observed_ok_def)
  ultimately show ?thesis
    using f inv by (simp add: ctl_inv_def dom_delete ran_delete cond_gauges_def)
next
  case (GetError e)
  with r inv show ?thesis by (simp add: reconcile_def)
qed

end

subsection \<open>The test object, and reachable states\<close>

lemma CustomStatus_simps [simp]:
  "Conditions_ops CustomStatus = CustomObject" "StatusConditions CustomStatus = custom_StatusConditions"
  "GetLabels CustomStatus t = meta_Labels (ObjectMeta t)"
  "GetFinalizers CustomStatus t = meta_Finalizers (ObjectMeta t)"
  "Reflected CustomStatus = custom_reflect"
  by (simp_all add: CustomStatus_def)

lemma custom_StatusConditions_For:
  "custom_StatusConditions clk t n = Inr (t', cs, n') \<longleftrightarrow>
     cs_For CustomObject clk (NewReadyConditions [''Foo'', ''Bar'']) (Some t) n = Inr (cs, n')
     \<and> object cs = Some t'"
  by (auto simp: custom_StatusConditions_def cs_For_eq)

interpretation custom_status: status_object CustomStatus
proof (unfold_locales, goal_cases)
  case (1 ob clk n ob' cs n')
  then have f: "cs_For CustomObject clk (NewReadyConditions [''Foo'', ''Bar'']) (Some ob) n = Inr (cs, n')"
    and o: "object cs = Some ob'"
    by (simp_all add: custom_StatusConditions_For)
  from 1(1) have "wf_conditions CustomObject ob" by simp
  from custom.For_wf_present [OF this f] o show ?case by auto
qed

text \<open>
  The states a controller runs through, for any sequence of calls and any answers of the API server
  whose objects have distinct condition types.
\<close>

inductive ctl_reachable :: "controller \<Rightarrow> ('o, 'a) status_object
    \<Rightarrow> ((string \<times> 'a gov) list \<Rightarrow> string list \<Rightarrow> string) \<Rightarrow> clock \<Rightarrow> 'o cstate \<Rightarrow> bool"
  for c S NS clk where
  ctl_start: "ctl_reachable c S NS clk new_cstate"
| ctl_step: "ctl_reachable c S NS clk st \<Longrightarrow>
    (\<And>ob. r = GetOk ob \<Longrightarrow> wf_conditions (Conditions_ops S) ob) \<Longrightarrow>
    reconcile c S NS clk req ob0 (r :: ('o, string) get_result) st = Inr (res, err, st') \<Longrightarrow>
    ctl_reachable c S NS clk st'"

lemma new_cstate_inv: "ctl_inv c S new_cstate"
  by (simp add: ctl_inv_def observed_ok_def tracked_def new_cstate_def gauge_def)

context status_object
begin

lemma reachable_inv: "ctl_reachable c S NS clk st \<Longrightarrow> config_ok c \<Longrightarrow> ctl_inv c S st"
  by (induction rule: ctl_reachable.induct) (auto intro: new_cstate_inv reconcile_inv)

end

end
