(* ===== verification/StatusEffects.thy ===== *)
theory StatusEffects
  imports StatusControllerSpec
begin

section \<open>The calls a step makes\<close>

text \<open>
  Lemmas on the calls collected in a state: \<open>calls P st\<close> are those that satisfy \<open>P\<close>, in their order,
  and \<open>effect_ok\<close> compares a call with what its metric is registered with.
\<close>

definition calls :: "('o effect \<Rightarrow> bool) \<Rightarrow> 'o cstate \<Rightarrow> 'o effect list" where
  "calls P st = filter P (out st)"

fun is_event :: "'o effect \<Rightarrow> bool" where
  "is_event (Event ob t r m) = True"
| "is_event _ = False"

fun is_counter :: "'o effect \<Rightarrow> bool" where
  "is_counter (CounterInc Current ConditionTransitionsTotal l) = True"
| "is_counter _ = False"

fun is_histogram :: "metric \<Rightarrow> 'o effect \<Rightarrow> bool" where
  "is_histogram m (HistogramObserve Current m' v l) = (m' = m)"
| "is_histogram m _ = False"

lemma calls_emit: "calls P (emit e st) = calls P st @ (if P e then [e] else [])"
  by (simp add: calls_def emit_def)

lemma calls_out: "out st' = out st \<Longrightarrow> calls P st' = calls P st"
  by (simp add: calls_def)

lemma calls_update [simp]:
  "calls P (st\<lparr>observedConditions := a\<rparr>) = calls P st"
  "calls P (st\<lparr>observedGaugeLabels := b\<rparr>) = calls P st"
  "calls P (st\<lparr>observedFinalizers := d\<rparr>) = calls P st"
  "calls P (st\<lparr>terminatingObjects := e\<rparr>) = calls P st"
  "calls P (st\<lparr>tick := n\<rparr>) = calls P st"
  by (simp_all add: calls_def)

lemma calls_fold:
  assumes "\<And>x s. calls P (f x s) = calls P s @ g x"
  shows "calls P (fold f xs s) = calls P s @ concat (map g xs)"
  by (induction xs arbitrary: s) (simp_all add: assms)

lemma calls_fold_same: "(\<And>x s. calls P (f x s) = calls P s) \<Longrightarrow> calls P (fold f xs s) = calls P s"
  by (rule fold_keeps)

definition not_gauge :: "('o effect \<Rightarrow> bool) \<Rightarrow> bool" where
  "not_gauge P \<longleftrightarrow> (\<forall>f m v l. \<not> P (GaugeSet f m v l)) \<and> (\<forall>f m l. \<not> P (GaugeDeletePartialMatch f m l))"

lemma not_gauge_calls [simp]:
  "not_gauge is_event" "not_gauge is_counter" "not_gauge (is_histogram m)"
  by (simp_all add: not_gauge_def)

lemma calls_gauges [simp]:
  assumes "not_gauge P"
  shows "calls P (setGaugeMetric c m v ls add st) = calls P st"
    "calls P (deletePartialMatchGaugeMetric c m ls st) = calls P st"
    "calls P (count_condition c clk req gl cond st) = calls P st"
    "calls P (delete_stale c S req cur gl ogl oc st) = calls P st"
    "calls P (fold (count_condition c clk req gl) conds st) = calls P st"
    "calls P (fold (delete_stale c S req cur gl ogl) ocs st) = calls P st"
proof -
  show 1: "calls P (setGaugeMetric c m v ls add st) = calls P st"
    "calls P (deletePartialMatchGaugeMetric c m ls st) = calls P st" for m v ls add st
    using assms
    by (simp_all add: setGaugeMetric_def deletePartialMatchGaugeMetric_def calls_emit Let_def not_gauge_def)
  show 2: "calls P (count_condition c clk req gl cond st) = calls P st"
    "calls P (delete_stale c S req cur gl ogl oc st) = calls P st" for cond oc st
    by (simp_all add: count_condition_def delete_stale_def since_def Let_def 1)
  show "calls P (fold (count_condition c clk req gl) conds st) = calls P st"
    "calls P (fold (delete_stale c S req cur gl ogl) ocs st) = calls P st"
    by (rule calls_fold_same, rule 2)+
qed

lemma calls_finalized:
  "calls P (fold (\<lambda>f st. emit (finalized ob f) st) fs st)
     = calls P st @ (if P (finalized ob undefined) then map (finalized ob) fs else [])"
  if "\<And>f g. P (finalized ob f) = P (finalized ob g)"
proof -
  have "calls P (fold (\<lambda>f st. emit (finalized ob f) st) fs st)
      = calls P st @ concat (map (\<lambda>f. if P (finalized ob f) then [finalized ob f] else []) fs)"
    by (rule calls_fold) (rule calls_emit)
  also have "concat (map (\<lambda>f. if P (finalized ob f) then [finalized ob f] else []) fs)
      = (if P (finalized ob undefined) then map (finalized ob) fs else [])"
    using that [of _ undefined] by (induction fs) auto
  finally show ?thesis .
qed

lemma is_call_finalized [simp]:
  "is_event (finalized ob f)" "\<not> is_counter (finalized ob f)" "\<not> is_histogram m (finalized ob f)"
  by (simp_all add: finalized_def)

lemma calls_finalizeds [simp]:
  "calls is_event (fold (\<lambda>f st. emit (finalized ob f) st) fs st)
     = calls is_event st @ map (finalized ob) fs"
  "calls is_counter (fold (\<lambda>f st. emit (finalized ob f) st) fs st) = calls is_counter st"
  "calls (is_histogram m) (fold (\<lambda>f st. emit (finalized ob f) st) fs st) = calls (is_histogram m) st"
  by (simp_all add: calls_finalized)

text \<open>What a condition of the object contributes to the transitions.\<close>

definition transitions_counter :: "labels \<Rightarrow> condition \<Rightarrow> 'o effect" where
  "transitions_counter ml cond =
     CounterInc Current ConditionTransitionsTotal
       (lo_Assign [to_labels [(LabelType, Type cond), (MetricLabelConditionStatus, Status cond),
          (LabelReason, Reason cond)], ml])"

definition duration_observed :: "labels \<Rightarrow> condition \<Rightarrow> condition \<Rightarrow> 'o effect" where
  "duration_observed ml oc cond =
     HistogramObserve Current ConditionDuration
       (Seconds (time_Sub (LastTransitionTime cond) (LastTransitionTime oc)))
       (lo_Assign [to_labels [(LabelType, Type oc), (MetricLabelConditionStatus, Status oc)], ml])"

definition changed_from :: "('o, 'a) status_object \<Rightarrow> 'o condition_set \<Rightarrow> condition \<Rightarrow> condition list" where
  "changed_from S observed cond =
     (case cs_Get (Conditions_ops S) observed (Type cond) of
        None \<Rightarrow> [] | Some oc \<Rightarrow> if Status oc = Status cond then [] else [oc])"

lemma calls_transition:
  "calls is_event (transition c S ob obs ml cond st) = calls is_event st
     @ map (\<lambda>oc. Event ob ''Normal'' (Type cond) (transition_message oc cond)) (changed_from S obs cond)"
  "calls is_counter (transition c S ob obs ml cond st) = calls is_counter st
     @ (if GetStatus (cs_Get (Conditions_ops S) obs (Type cond)) \<noteq> Status cond
        then [transitions_counter ml cond] else [])"
  "calls (is_histogram ConditionDuration) (transition c S ob obs ml cond st)
     = calls (is_histogram ConditionDuration) st
       @ map (\<lambda>oc. duration_observed ml oc cond) (changed_from S obs cond)"
  by (auto simp: transition_def changed_from_def Let_def calls_emit incCounterMetric_def
      observeHistogram_def transitions_counter_def duration_observed_def split: option.splits)

lemmas calls_transitions =
  calls_fold [where P = is_event, OF calls_transition(1)]
  calls_fold [where P = is_counter, OF calls_transition(2)]
  calls_fold [where P = "is_histogram ConditionDuration", OF calls_transition(3)]

lemma calls_detect_finalizers:
  "calls is_event (detect_finalizers S req ob st) = calls is_event st
     @ map (finalized ob) (filter (\<lambda>f. f \<notin> set (GetFinalizers S ob))
         (case observedFinalizers st req of None \<Rightarrow> [] | Some fs \<Rightarrow> fs))"
  "calls is_counter (detect_finalizers S req ob st) = calls is_counter st"
  "calls (is_histogram m) (detect_finalizers S req ob st) = calls (is_histogram m) st"
  by (auto simp: detect_finalizers_def Let_def split: option.split)

lemma calls_detect_termination:
  "detect_termination c S NS clk req ob st = Inr st' \<Longrightarrow> not_gauge P \<Longrightarrow> calls P st' = calls P st"
  by (auto simp: detect_termination_def since_def go_bind_eq_Inr split: option.splits)

section \<open>Calls fit their metrics\<close>

text \<open>
  \<open>effect_ok R e\<close>: the call is one the kind of metric has and, where Prometheus requires it, its
  labels have exactly the names \<open>R\<close> registers the metric with.
\<close>

fun effect_ok :: "(family \<Rightarrow> metric \<Rightarrow> 'b metric_desc) \<Rightarrow> 'o effect \<Rightarrow> bool" where
  "effect_ok R (CounterInc f m l) =
     (desc_kind (R f m) = Counter \<and> label_keys l = set (desc_labelNames (R f m)))"
| "effect_ok R (GaugeSet f m v l) =
     (desc_kind (R f m) = Gauge \<and> label_keys l = set (desc_labelNames (R f m)))"
| "effect_ok R (HistogramObserve f m v l) =
     (desc_kind (R f m) = Histogram \<and> label_keys l = set (desc_labelNames (R f m)))"
| "effect_ok R (GaugeDeletePartialMatch f m l) = (desc_kind (R f m) = Gauge)"
| "effect_ok R (Event ob t r msg) = True"

definition all_ok :: "(family \<Rightarrow> metric \<Rightarrow> 'b metric_desc) \<Rightarrow> 'o cstate \<Rightarrow> bool" where
  "all_ok R st \<longleftrightarrow> list_all (effect_ok R) (out st)"

definition registered :: "'b list \<Rightarrow> (metric \<Rightarrow> 'b metric_desc) \<Rightarrow> family \<Rightarrow> metric \<Rightarrow> 'b metric_desc" where
  "registered D descs f m = (case f of Current \<Rightarrow> descs m | Deprecated \<Rightarrow> deprecated_metric D m)"

lemma all_ok_emit [simp]: "all_ok R (emit e st) \<longleftrightarrow> all_ok R st \<and> effect_ok R e"
  by (simp add: all_ok_def emit_def)

lemma all_ok_update [simp]:
  "all_ok R (st\<lparr>observedConditions := a\<rparr>) = all_ok R st"
  "all_ok R (st\<lparr>observedGaugeLabels := b\<rparr>) = all_ok R st"
  "all_ok R (st\<lparr>observedFinalizers := d\<rparr>) = all_ok R st"
  "all_ok R (st\<lparr>terminatingObjects := e\<rparr>) = all_ok R st"
  "all_ok R (st\<lparr>tick := n\<rparr>) = all_ok R st"
  by (simp_all add: all_ok_def)

lemma all_ok_out: "out st' = out st \<Longrightarrow> all_ok R st' = all_ok R st"
  by (simp add: all_ok_def)

lemma all_ok_fold:
  "(\<And>x s. all_ok R s \<Longrightarrow> all_ok R (f x s)) \<Longrightarrow> all_ok R s \<Longrightarrow> all_ok R (fold f xs s)"
  by (induction xs arbitrary: s) auto

text \<open>A controller and the metrics \<open>NewController\<close> registers for it.\<close>

definition fits :: "controller \<Rightarrow> 'b list \<Rightarrow> (metric \<Rightarrow> 'b metric_desc) \<Rightarrow> bool" where
  "fits c D descs \<longleftrightarrow> (\<exists>lower g opts. NewController D lower g opts = (c, descs))"

lemma fits_options:
  assumes "fits c D descs"
  obtains kind p where "descs = controller_metric D kind p"
    "metric_keys c = set (metric_label_names p)" "gauge_keys c = set (gauge_label_names p)"
proof -
  obtain lower g opts where n: "NewController D lower g opts = (c, descs)"
    using assms by (auto simp: fits_def)
  define p where "p = option_Resolve zero_options opts"
  have d: "descs = controller_metric D (lower (gvk_Kind g)) p"
    and c: "additionalMetricLabels c = MetricLabels p" "additionalMetricFields c = MetricFields p"
      "additionalGaugeMetricLabels c = GaugeMetricLabels p"
      "additionalGaugeMetricFields c = GaugeMetricFields p"
    using n by (auto simp: NewController_def Let_def p_def)
  have "metric_keys c = set (metric_label_names p)"
    unfolding metric_keys_def c metric_label_names_def set_map set_append by (simp only: Un_commute)
  moreover have "gauge_keys c = set (gauge_label_names p)"
    unfolding gauge_keys_def c gauge_label_names_def set_map set_append by (simp only: Un_ac)
  ultimately show thesis using that d by blast
qed

lemma fits_names:
  assumes "fits c D descs"
  shows "set (desc_labelNames (descs ConditionDuration)) = {LabelType, MetricLabelConditionStatus} \<union> metric_keys c"
    "set (desc_labelNames (descs ConditionCount)) = base_keys \<union> gauge_keys c"
    "set (desc_labelNames (descs ConditionCurrentStatusSeconds)) = base_keys \<union> gauge_keys c"
    "set (desc_labelNames (descs ConditionTransitionsTotal))
       = {LabelType, MetricLabelConditionStatus, LabelReason} \<union> metric_keys c"
    "set (desc_labelNames (descs TerminationCurrentTimeSeconds))
       = {MetricLabelNamespace, MetricLabelName} \<union> gauge_keys c"
    "set (desc_labelNames (descs TerminationDuration)) = metric_keys c"
  by (rule fits_options [OF assms]; simp add: metric_defs base_keys_def)+

lemma fits_kinds:
  assumes "fits c D descs"
  shows "desc_kind (descs m) = (case m of ConditionTransitionsTotal \<Rightarrow> Counter
    | ConditionDuration \<Rightarrow> Histogram | TerminationDuration \<Rightarrow> Histogram | _ \<Rightarrow> Gauge)"
  using assms
  by (cases m) (auto simp: fits_def NewController_def Let_def metric_defs)

lemma deprecated_kinds:
  "desc_kind (deprecated_metric D m) = (case m of ConditionTransitionsTotal \<Rightarrow> Counter
    | ConditionDuration \<Rightarrow> Histogram | TerminationDuration \<Rightarrow> Histogram | _ \<Rightarrow> Gauge)"
  by (cases m) (auto simp: metric_defs)

lemma deprecated_names:
  "set (desc_labelNames (deprecated_metric D ConditionDuration))
     = {LabelType, MetricLabelConditionStatus, LabelGroup, LabelKind}"
  "set (desc_labelNames (deprecated_metric D ConditionCount)) = base_keys \<union> {LabelGroup, LabelKind}"
  "set (desc_labelNames (deprecated_metric D ConditionCurrentStatusSeconds))
     = base_keys \<union> {LabelGroup, LabelKind}"
  "set (desc_labelNames (deprecated_metric D ConditionTransitionsTotal))
     = {LabelType, MetricLabelConditionStatus, LabelReason, LabelGroup, LabelKind}"
  "set (desc_labelNames (deprecated_metric D TerminationCurrentTimeSeconds))
     = {MetricLabelNamespace, MetricLabelName, LabelGroup, LabelKind}"
  "set (desc_labelNames (deprecated_metric D TerminationDuration)) = {LabelGroup, LabelKind}"
  by (auto simp: metric_defs base_keys_def)

lemma emitted_keys [simp]:
  "label_keys (condition_labels req cond) = base_keys"
  "label_keys (object_key_labels req) = {MetricLabelNamespace, MetricLabelName}"
  "label_keys (with_kind c l) = {LabelGroup, LabelKind} \<union> label_keys l"
  "label_keys [] = {}"
  by (auto simp: condition_labels_def object_key_labels_def with_kind_def base_keys_def)
    (simp_all add: label_keys_def)

lemmas ok_simps = setGaugeMetric_def deletePartialMatchGaugeMetric_def incCounterMetric_def
  observeHistogram_def registered_def deprecated_kinds deprecated_names Let_def

declare deprecated_metric.simps [simp del]

lemma count_condition_ok:
  "fits c D descs \<Longrightarrow> all_ok (registered D descs) st \<Longrightarrow> label_keys gl = gauge_keys c \<Longrightarrow>
   all_ok (registered D descs) (count_condition c clk req gl cond st)"
  by (simp add: count_condition_def since_def ok_simps fits_names fits_kinds insert_commute Un_commute)

lemma delete_stale_ok:
  "fits c D descs \<Longrightarrow> all_ok (registered D descs) st \<Longrightarrow>
   all_ok (registered D descs) (delete_stale c S req cur gl ogl oc st)"
  by (simp add: delete_stale_def ok_simps fits_kinds)

lemma transition_ok:
  "fits c D descs \<Longrightarrow> label_keys ml = metric_keys c \<Longrightarrow> all_ok (registered D descs) st \<Longrightarrow>
   all_ok (registered D descs) (transition c S ob obs ml cond st)"
  by (auto simp: transition_def ok_simps fits_kinds fits_names split: option.split)

lemma finalized_ok:
  "all_ok R st \<Longrightarrow> all_ok R (fold (\<lambda>f st. emit (finalized ob f) st) fs st)"
  by (rule all_ok_fold) (simp_all add: finalized_def)

lemma detect_finalizers_ok: "all_ok R st \<Longrightarrow> all_ok R (detect_finalizers S req ob st)"
  by (simp add: detect_finalizers_def Let_def finalized_ok split: option.split)

lemma detect_termination_ok:
  assumes "fits c D descs" "all_ok (registered D descs) st"
    and "detect_termination c S NS clk req ob st = Inr st'"
  shows "all_ok (registered D descs) st'"
  using assms gauge_labels_keys [of c S NS ob]
  by (auto simp: detect_termination_def since_def go_bind_eq_Inr ok_simps fits_kinds fits_names
      split: option.splits)

lemma reconcile_found_ok:
  fixes S :: "('o, 'a) status_object"
  assumes f: "fits c D descs" and ok: "all_ok (registered D descs) st"
    and r: "reconcile_found c S NS clk req ob st = Inr st'"
  shows "all_ok (registered D descs) st'"
  using r
proof (rule reconcile_foundE)
  fix st1 :: "'o cstate" and ob' current n gl ml and st2 :: "'o cstate"
  let ?obs = "case observedConditions st1 req of None \<Rightarrow> empty_condition_set | Some v \<Rightarrow> v"
  let ?ogl = "case observedGaugeLabels st1 req of None \<Rightarrow> [] | Some v \<Rightarrow> v"
  assume dt: "detect_termination c S NS clk req ob (detect_finalizers S req ob st) = Inr st1"
    and gl: "toAdditionalGaugeMetricLabels c S NS ob' = Inr gl"
    and ml: "toAdditionalMetricLabels c S NS ob' = Inr ml" and out: "out st2 = out st1"
    and st': "st' = fold (transition c S ob' ?obs ml) (cs_List (Conditions_ops S) current)
      (fold (delete_stale c S req current gl ?ogl) (cs_List (Conditions_ops S) ?obs)
        (fold (count_condition c clk req gl) (GetConditions (Conditions_ops S) ob') st2))"
  have "all_ok (registered D descs) st2"
    using detect_termination_ok [OF f detect_finalizers_ok [OF ok] dt]
    unfolding all_ok_out [OF out] .
  then show "all_ok (registered D descs) st'"
    unfolding st' using gauge_labels_keys [OF gl] metric_labels_keys [OF ml]
    by (intro all_ok_fold transition_ok [OF f] delete_stale_ok [OF f] count_condition_ok [OF f]) auto
qed

lemma reconcile_not_found_ok:
  assumes "fits c D descs" "all_ok (registered D descs) st"
    and "reconcile_not_found c S NS clk req ob st = Inr st'"
  shows "all_ok (registered D descs) st'"
  using assms metric_labels_keys [of c S NS]
  by (auto simp: reconcile_not_found_def since_def go_bind_eq_Inr ok_simps fits_kinds fits_names
      finalized_ok split: option.splits)

lemma reachable_ok:
  "ctl_reachable c S NS clk st \<Longrightarrow> fits c D descs \<Longrightarrow> all_ok (registered D descs) st"
proof (induction rule: ctl_reachable.induct)
  case ctl_start
  show ?case by (simp add: all_ok_def new_cstate_def)
next
  case (ctl_step st r req ob0 res err st')
  then show ?case
  proof (cases r)
    case (GetOk ob)
    with ctl_step.hyps have "reconcile_found c S NS clk req ob st = Inr st'"
      by (auto simp: reconcile_def go_bind_eq_Inr)
    with ctl_step show ?thesis by (blast intro: reconcile_found_ok)
  next
    case GetNotFound
    with ctl_step.hyps have "reconcile_not_found c S NS clk req ob0 st = Inr st'"
      by (auto simp: reconcile_def go_bind_eq_Inr)
    with ctl_step show ?thesis by (blast intro: reconcile_not_found_ok)
  qed (simp add: reconcile_def)
qed

section \<open>The transitions a step reports\<close>

lemma concat_if_filter: "concat (map (\<lambda>x. if P x then [f x] else []) xs) = map f (filter P xs)"
  by (induction xs) auto

lemma custom_found_calls:
  fixes st :: "custom_object cstate"
  assumes "reconcile_found c CustomStatus NS clk req ob st = Inr st'"
  shows "\<exists>ob' cs n n' ml. cs_For CustomObject clk (NewReadyConditions [''Foo'', ''Bar'']) (Some ob) n = Inr (cs, n')
    \<and> object cs = Some ob' \<and> toAdditionalMetricLabels c CustomStatus NS ob' = Inr ml
    \<and> calls is_event st' = calls is_event st
        @ map (finalized ob) (filter (\<lambda>f. f \<notin> set (meta_Finalizers (ObjectMeta ob)))
            (case observedFinalizers st req of None \<Rightarrow> [] | Some fs \<Rightarrow> fs))
        @ concat (map (\<lambda>cond. map (\<lambda>oc. Event ob' ''Normal'' (Type cond) (transition_message oc cond))
            (changed_from CustomStatus
               (case observedConditions st req of None \<Rightarrow> empty_condition_set | Some cs \<Rightarrow> cs) cond))
            (Status_Conditions ob'))
    \<and> calls (is_histogram ConditionDuration) st' = calls (is_histogram ConditionDuration) st
        @ concat (map (\<lambda>cond. map (\<lambda>oc. duration_observed ml oc cond)
            (changed_from CustomStatus
               (case observedConditions st req of None \<Rightarrow> empty_condition_set | Some cs \<Rightarrow> cs) cond))
            (Status_Conditions ob'))
    \<and> calls is_counter st' = calls is_counter st
        @ map (transitions_counter ml)
            (filter (\<lambda>cond. GetStatus (cs_Get CustomObject
                (case observedConditions st req of None \<Rightarrow> empty_condition_set | Some cs \<Rightarrow> cs) (Type cond))
                \<noteq> Status cond) (Status_Conditions ob'))"
  using assms
proof (rule reconcile_foundE)
  fix st1 st2 :: "custom_object cstate" and ob' current n gl ml
  let ?obs = "case observedConditions st1 req of None \<Rightarrow> empty_condition_set | Some v \<Rightarrow> v"
  let ?ogl = "case observedGaugeLabels st1 req of None \<Rightarrow> [] | Some v \<Rightarrow> v"
  assume dt: "detect_termination c CustomStatus NS clk req ob (detect_finalizers CustomStatus req ob st) = Inr st1"
    and sc: "StatusConditions CustomStatus clk ob (tick st1) = Inr (ob', current, n)"
    and ml: "toAdditionalMetricLabels c CustomStatus NS ob' = Inr ml" and out: "out st2 = out st1"
    and st': "st' = fold (transition c CustomStatus ob' ?obs ml) (cs_List (Conditions_ops CustomStatus) current)
      (fold (delete_stale c CustomStatus req current gl ?ogl) (cs_List (Conditions_ops CustomStatus) ?obs)
        (fold (count_condition c clk req gl) (GetConditions (Conditions_ops CustomStatus) ob') st2))"
  have f: "cs_For CustomObject clk (NewReadyConditions [''Foo'', ''Bar'']) (Some ob) (tick st1) = Inr (current, n)"
    "object current = Some ob'"
    using sc by (simp_all add: custom_StatusConditions_For)
  have l: "cs_List CustomObject current = Status_Conditions ob'" by (simp add: cs_List_def f(2))
  have obs: "observedConditions st1 = observedConditions st"
    using detect_termination_frame [OF dt] core_detect [of CustomStatus req ob st] by simp
  have 1: "calls P st2 = calls P (detect_finalizers CustomStatus req ob st)" if "not_gauge P" for P
    using calls_detect_termination [OF dt that] calls_out [OF out] by metis
  show ?thesis
    using f ml by (intro exI conjI)
      (simp_all add: st' calls_transitions 1 calls_detect_finalizers l obs concat_if_filter)
qed

section \<open>The step on an object that is gone\<close>

lemma gauge_Deprecated_delete [simp]:
  "gauge Deprecated m (deletePartialMatchGaugeMetric c m' ls st) =
     (if m' = m \<and> emitDeprecatedMetrics c
      then (\<lambda>k. if partial_match (with_kind c ls) k then None else gauge Deprecated m st k)
      else gauge Deprecated m st)"
  by (simp add: deletePartialMatchGaugeMetric_def gauge_emit Let_def)

lemma tick_metrics [simp]: "tick (deletePartialMatchGaugeMetric c m ls st) = tick st"
  by (simp add: deletePartialMatchGaugeMetric_def emit_def Let_def)

lemma calls_histogram [simp]:
  "calls is_event (observeHistogram c m v ls add st) = calls is_event st"
  "calls (is_histogram m') (observeHistogram c m v ls add st) = calls (is_histogram m') st
     @ (if m = m' then [HistogramObserve Current m v (lo_Assign [ls, add])] else [])"
  by (simp_all add: observeHistogram_def calls_emit Let_def)

text \<open>The state after the deletions and the observation of the termination, and the rest of the step.\<close>

definition after_deletes :: "controller \<Rightarrow> request \<Rightarrow> 'o cstate \<Rightarrow> 'o cstate" where
  "after_deletes c req st =
     deletePartialMatchGaugeMetric c TerminationCurrentTimeSeconds (object_key_labels req)
      (deletePartialMatchGaugeMetric c ConditionCurrentStatusSeconds (object_key_labels req)
       (deletePartialMatchGaugeMetric c ConditionCount (object_key_labels req)
         (st\<lparr>observedConditions := (observedConditions st)(req := None),
             observedGaugeLabels := (observedGaugeLabels st)(req := None)\<rparr>)))"

lemma after_deletes_maps [simp]:
  "observedConditions (after_deletes c req st) = (observedConditions st)(req := None)"
  "observedGaugeLabels (after_deletes c req st) = (observedGaugeLabels st)(req := None)"
  "observedFinalizers (after_deletes c req st) = observedFinalizers st"
  "terminatingObjects (after_deletes c req st) = terminatingObjects st"
  "tick (after_deletes c req st) = tick st"
  by (simp_all add: after_deletes_def maps_of_core)

lemma reconcile_not_found_alt:
  "reconcile_not_found c S NS clk req ob st =
     (let st = after_deletes c req st
      in go_bind
           (case terminatingObjects st req of
              None \<Rightarrow> Inr st
            | Some tob \<Rightarrow>
                let st = st\<lparr>terminatingObjects := (terminatingObjects st)(req := None)\<rparr>
                in case GetDeletionTimestamp (Conditions_ops S) tob of
                     None \<Rightarrow> Inl NilDereference
                   | Some t \<Rightarrow>
                       let (v, st) = since clk t st
                       in go_bind (toAdditionalMetricLabels c S NS tob)
                            (\<lambda>ml. Inr (observeHistogram c TerminationDuration v [] ml st)))
           (\<lambda>st. Inr
              (case observedFinalizers st req of
                 None \<Rightarrow> st
               | Some fs \<Rightarrow>
                   fold (\<lambda>f st. emit (finalized ob f) st) fs
                     (st\<lparr>observedFinalizers := (observedFinalizers st)(req := None)\<rparr>))))"
  unfolding reconcile_not_found_def after_deletes_def Let_def by (simp cong: option.case_cong)

lemma not_foundE:
  assumes "reconcile_not_found c S NS clk req ob st = Inr st'"
  obtains st2 where
    "terminatingObjects st req = None \<and> st2 = after_deletes c req st
     \<or> (\<exists>tob t ml. terminatingObjects st req = Some tob
          \<and> GetDeletionTimestamp (Conditions_ops S) tob = Some t
          \<and> toAdditionalMetricLabels c S NS tob = Inr ml
          \<and> st2 = observeHistogram c TerminationDuration (Seconds (time_Sub (clk (tick st)) t)) [] ml
              ((after_deletes c req st)\<lparr>terminatingObjects := (terminatingObjects st)(req := None),
                 tick := Suc (tick st)\<rparr>))"
    "st' = (case observedFinalizers st2 req of None \<Rightarrow> st2
       | Some fs \<Rightarrow> fold (\<lambda>f st. emit (finalized ob f) st) fs
           (st2\<lparr>observedFinalizers := (observedFinalizers st2)(req := None)\<rparr>))"
proof (cases "terminatingObjects st req")
  case None
  show thesis
    by (rule that [of "after_deletes c req st"])
      (use None assms in \<open>simp_all add: reconcile_not_found_alt Let_def\<close>)
next
  case (Some tob)
  then obtain t where t: "GetDeletionTimestamp (Conditions_ops S) tob = Some t"
    using assms by (auto simp: reconcile_not_found_alt Let_def split: option.splits)
  with Some obtain ml where ml: "toAdditionalMetricLabels c S NS tob = Inr ml"
    using assms by (auto simp: reconcile_not_found_alt Let_def since_def go_bind_eq_Inr)
  show thesis
    by (rule that [of "observeHistogram c TerminationDuration (Seconds (time_Sub (clk (tick st)) t)) [] ml
          ((after_deletes c req st)\<lparr>terminatingObjects := (terminatingObjects st)(req := None),
             tick := Suc (tick st)\<rparr>)"])
      (use Some t ml assms in
        \<open>simp_all add: reconcile_not_found_alt Let_def since_def\<close>)
qed

lemma after_deletes_gauges [simp]:
  "m \<in> {ConditionCount, ConditionCurrentStatusSeconds, TerminationCurrentTimeSeconds} \<Longrightarrow>
   gauge Current m (after_deletes c req st)
     = (\<lambda>k. if partial_match (object_key_labels req) k then None else gauge Current m st k)"
  "m \<in> {ConditionCount, ConditionCurrentStatusSeconds, TerminationCurrentTimeSeconds} \<Longrightarrow>
   gauge Deprecated m (after_deletes c req st)
     = (\<lambda>k. if emitDeprecatedMetrics c \<and> partial_match (with_kind c (object_key_labels req)) k
            then None else gauge Deprecated m st k)"
  by (auto simp: after_deletes_def)

lemma after_deletes_calls [simp]: "not_gauge P \<Longrightarrow> calls P (after_deletes c req st) = calls P st"
  by (simp add: after_deletes_def)

lemma not_found_maps:
  assumes "reconcile_not_found c S NS clk req ob st = Inr st'"
  shows "observedConditions st' = (observedConditions st)(req := None)
    \<and> observedGaugeLabels st' = (observedGaugeLabels st)(req := None)
    \<and> observedFinalizers st' = (observedFinalizers st)(req := None)
    \<and> terminatingObjects st' = (terminatingObjects st)(req := None)"
  using assms
  by (rule not_foundE) (auto simp: maps_of_core fun_upd_idem split: option.split)

lemma not_found_gauges:
  assumes "reconcile_not_found c S NS clk req ob st = Inr st'"
  shows "\<forall>m \<in> {ConditionCount, ConditionCurrentStatusSeconds, TerminationCurrentTimeSeconds}. \<forall>k.
      gauge Current m st' k = (if partial_match (object_key_labels req) k then None else gauge Current m st k)
    \<and> gauge Deprecated m st' k
        = (if emitDeprecatedMetrics c \<and> partial_match (with_kind c (object_key_labels req)) k
           then None else gauge Deprecated m st k)"
  using assms
  by (rule not_foundE) (auto split: option.split)

lemma not_found_calls:
  assumes "reconcile_not_found c CustomStatus NS clk req ob st = Inr st'"
  shows "calls is_event st' = calls is_event st @ map (finalized ob)
      (case observedFinalizers st req of None \<Rightarrow> [] | Some fs \<Rightarrow> fs)
    \<and> calls (is_histogram TerminationDuration) st' = calls (is_histogram TerminationDuration) st @
      (case terminatingObjects st req of None \<Rightarrow> []
       | Some tob \<Rightarrow> [HistogramObserve Current TerminationDuration
           (Seconds (time_Sub (clk (tick st)) (the (meta_DeletionTimestamp (ObjectMeta tob)))))
           (lo_Assign [[], projr (toAdditionalMetricLabels c CustomStatus NS tob)])])"
  using assms
  by (rule not_foundE) (auto simp: maps_of_core split: option.split)

section \<open>A step returns\<close>

definition config_paths_ok :: "controller \<Rightarrow> bool" where
  "config_paths_ok c \<longleftrightarrow> paths_ok (map snd (additionalMetricFields c))
     \<and> paths_ok (map snd (additionalGaugeMetricFields c))"

lemma labels_return:
  assumes "config_paths_ok c" "exported (object_view (Reflected S ob))"
  shows "\<exists>gl. toAdditionalGaugeMetricLabels c S NS ob = Inr gl"
    "\<exists>ml. toAdditionalMetricLabels c S NS ob = Inr ml"
proof -
  have w: "\<forall>p \<in> set ps. \<exists>x. walk (object_view (Reflected S ob)) (segments p) = Inr x" for ps
    using walk_exported [OF assms(2)] by blast
  obtain u1 u2 where
    "ToPartialUnstructured (Reflected S ob) (map snd (additionalMetricFields c)) = Inr u1"
    "ToPartialUnstructured (Reflected S ob) (map snd (additionalGaugeMetricFields c)) = Inr u2"
    using partial_paths [OF _ w] assms(1) unfolding config_paths_ok_def by meson
  then show "\<exists>gl. toAdditionalGaugeMetricLabels c S NS ob = Inr gl"
    "\<exists>ml. toAdditionalMetricLabels c S NS ob = Inr ml"
    by (auto simp: toAdditionalGaugeMetricLabels_def toAdditionalMetricLabels_def split: prod.split)
qed

lemma custom_reflect_exported: "exported (object_view (custom_reflect t))"
  by (auto simp: custom_reflect_def gofield_def intro!: exported.intros)

lemma custom_labels_return:
  assumes "config_paths_ok c"
  obtains gl ml where "toAdditionalGaugeMetricLabels c CustomStatus NS ob = Inr gl"
    "toAdditionalMetricLabels c CustomStatus NS ob = Inr ml"
proof -
  have e: "exported (object_view (Reflected CustomStatus ob))"
    by (simp add: custom_reflect_exported)
  from labels_return(1) [OF assms e, of NS] labels_return(2) [OF assms e, of NS] that
  show thesis by blast
qed

definition terminating_ok :: "custom_object cstate \<Rightarrow> bool" where
  "terminating_ok st \<longleftrightarrow> (\<forall>req t. terminatingObjects st req = Some t \<longrightarrow>
     meta_DeletionTimestamp (ObjectMeta t) \<noteq> None)"

lemma custom_found_returns:
  assumes "config_paths_ok c"
  shows "\<exists>st'. reconcile_found c CustomStatus NS clk req ob st = Inr st'"
proof -
  obtain gl where gl: "toAdditionalGaugeMetricLabels c CustomStatus NS ob = Inr gl"
    using custom_labels_return [OF assms] by metis
  obtain st1 where 1: "detect_termination c CustomStatus NS clk req ob
      (detect_finalizers CustomStatus req ob st) = Inr st1"
    by (cases "meta_DeletionTimestamp (ObjectMeta ob)")
      (auto simp: detect_termination_def gl since_def)
  obtain ob' current n where 2: "custom_StatusConditions clk ob (tick st1) = Inr (ob', current, n)"
    by (auto simp: custom_StatusConditions_def cs_For_eq)
  obtain gl' ml' where 3: "toAdditionalGaugeMetricLabels c CustomStatus NS ob' = Inr gl'"
      "toAdditionalMetricLabels c CustomStatus NS ob' = Inr ml'"
    using custom_labels_return [OF assms] by metis
  show ?thesis using 1 2 3 by (auto simp: reconcile_found_def Let_def)
qed

lemma custom_not_found_returns:
  assumes "config_paths_ok c" "terminating_ok st"
  shows "\<exists>st'. reconcile_not_found c CustomStatus NS clk req ob st = Inr st'"
proof (cases "terminatingObjects st req")
  case None
  then show ?thesis by (simp add: reconcile_not_found_def Let_def maps_of_core)
next
  case (Some tob)
  then obtain t where "meta_DeletionTimestamp (ObjectMeta tob) = Some t"
    using assms(2) by (auto simp: terminating_ok_def)
  moreover obtain ml where "toAdditionalMetricLabels c CustomStatus NS tob = Inr ml"
    using custom_labels_return [OF assms(1)] by metis
  ultimately show ?thesis
    using Some by (simp add: reconcile_not_found_def Let_def maps_of_core since_def)
qed

lemma custom_found_terminating:
  assumes t: "terminating_ok st" and wf: "wf_conditions CustomObject ob"
    and r: "reconcile_found c CustomStatus NS clk req ob st = Inr st'"
  shows "terminating_ok st'"
  using r
proof (rule reconcile_foundE)
  fix st1 st2 :: "custom_object cstate" and ob' current n gl ml
  let ?obs = "case observedConditions st1 req of None \<Rightarrow> empty_condition_set | Some v \<Rightarrow> v"
  let ?ogl = "case observedGaugeLabels st1 req of None \<Rightarrow> [] | Some v \<Rightarrow> v"
  assume dt: "detect_termination c CustomStatus NS clk req ob (detect_finalizers CustomStatus req ob st) = Inr st1"
    and sc: "StatusConditions CustomStatus clk ob (tick st1) = Inr (ob', current, n)"
    and t2: "terminatingObjects st2 = (if GetDeletionTimestamp (Conditions_ops CustomStatus) ob = None
       then terminatingObjects st1 else (terminatingObjects st1)(req \<mapsto> ob'))"
    and st': "st' = fold (transition c CustomStatus ob' ?obs ml) (cs_List (Conditions_ops CustomStatus) current)
      (fold (delete_stale c CustomStatus req current gl ?ogl) (cs_List (Conditions_ops CustomStatus) ?obs)
        (fold (count_condition c clk req gl) (GetConditions (Conditions_ops CustomStatus) ob') st2))"
  have "cs_For CustomObject clk (NewReadyConditions [''Foo'', ''Bar'']) (Some ob) (tick st1) = Inr (current, n)"
    "object current = Some ob'"
    using sc by (simp_all add: custom_StatusConditions_For)
  from custom.For_wf_present [OF wf this(1)] this(2)
  have "meta_DeletionTimestamp (ObjectMeta ob') = meta_DeletionTimestamp (ObjectMeta ob)" by auto
  then show "terminating_ok st'"
    using t detect_termination_frame [OF dt] core_detect [of CustomStatus req ob st]
    by (auto simp: st' maps_of_core t2 terminating_ok_def split: if_splits)
qed

lemma not_found_terminating:
  assumes "reconcile_not_found c S NS clk req ob st = Inr st'"
  shows "terminatingObjects st' = (terminatingObjects st)(req := None)"
  using assms
  by (auto simp: reconcile_not_found_def go_bind_eq_Inr Let_def since_def maps_of_core fun_eq_iff
      split: option.splits)

lemma reachable_terminating:
  "ctl_reachable c CustomStatus NS clk st \<Longrightarrow> terminating_ok st"
proof (induction rule: ctl_reachable.induct)
  case ctl_start
  show ?case by (simp add: terminating_ok_def new_cstate_def)
next
  case (ctl_step st r req ob0 res err st')
  show ?case
  proof (cases r)
    case (GetOk ob)
    with ctl_step.hyps have "reconcile_found c CustomStatus NS clk req ob st = Inr st'"
      "wf_conditions CustomObject ob"
      by (auto simp: reconcile_def go_bind_eq_Inr)
    then show ?thesis by (intro custom_found_terminating [OF ctl_step.IH])
  next
    case GetNotFound
    with ctl_step.hyps have "reconcile_not_found c CustomStatus NS clk req ob0 st = Inr st'"
      by (auto simp: reconcile_def go_bind_eq_Inr)
    with not_found_terminating [OF this] ctl_step.IH show ?thesis by (simp add: terminating_ok_def)
  next
    case (GetError e)
    with ctl_step show ?thesis by (simp add: reconcile_def)
  qed
qed

end
