(* ===== verification/ConditionClaims.thy ===== *)
theory ConditionClaims
  imports ConditionSpec
begin

section \<open>Properties of the condition set\<close>

text \<open>
  The properties of \<open>status/condition_set.go\<close>, on the object of \<open>test/object.go\<close>: each applies the
  lemmas of \<open>lawful_object\<close> through their interpretation on \<open>CustomObject\<close>. The witnesses use one
  concrete object with two dependent conditions and a ticking clock.
\<close>

definition demo_object :: custom_object where
  "demo_object =
     \<lparr>ObjectMeta = \<lparr>meta_Namespace = ''default'', meta_Name = ''demo'', meta_Generation = 1,
        meta_CreationTimestamp = 100, meta_DeletionTimestamp = None, meta_Labels = Map.empty,
        meta_Finalizers = []\<rparr>,
      Spec_Field1 = [], Spec_Field2 = [], Status_Conditions = []\<rparr>"

definition demo_types :: condition_types where
  "demo_types = NewReadyConditions [''Foo'', ''Bar'']"

definition demo_clock :: clock where
  "demo_clock n = 1000 + int n"

definition demo_set :: "custom_object condition_set" where
  "demo_set = \<lparr>ctypes = demo_types, object = Some demo_object\<rparr>"

text \<open>The object after \<open>For\<close>, then after \<open>SetTrue("Foo")\<close>.\<close>

definition demo_ready :: "condition list" where
  "demo_ready =
     [\<lparr>Type = ''Bar'', Status = ConditionUnknown, ObservedGeneration = 1, LastTransitionTime = 100,
       Reason = ''AwaitingReconciliation'', Message = ''object is awaiting reconciliation''\<rparr>,
      \<lparr>Type = ''Foo'', Status = ConditionTrue, ObservedGeneration = 1, LastTransitionTime = 1000,
       Reason = ''Foo'', Message = []\<rparr>,
      \<lparr>Type = ''Ready'', Status = ConditionUnknown, ObservedGeneration = 1, LastTransitionTime = 100,
       Reason = ''ReconcilingDependents'', Message = ''Bar=Unknown''\<rparr>]"

definition demo_object2 :: custom_object where
  "demo_object2 = demo_object\<lparr>Status_Conditions := demo_ready\<rparr>"

lemma demo_wf [simp]: "wf_conditions CustomObject demo_object"
  by (simp add: wf_conditions_def demo_object_def)

lemma demo_wf2 [simp]: "wf_conditions CustomObject demo_object2"
  by (simp add: wf_conditions_def demo_object2_def demo_ready_def)

lemma demo_types_simps [simp]: "wf_types demo_types" "root demo_types = ''Ready''"
    "dependents demo_types = [''Foo'', ''Bar'']"
  by (simp_all add: demo_types_def NewReadyConditions_def wf_types_def newConditionTypes_def
      ConditionReady_def)

text \<open>
  Property C1. A call of \<open>Set\<close> that changes a condition other than the root leaves a root
  condition behind that is the minimum of the verdicts of the dependent conditions as they are
  stored afterwards: false if one of them is false for the current generation, otherwise unknown
  if one is unknown, or false or true for an older generation, otherwise true; and the root condition carries
  the current generation.
\<close>

theorem set_recomputes_root:
  assumes "wf_conditions CustomObject ob" and "wf_types ct" and "Type c \<noteq> root ct"
    and "cs_Set CustomObject clk \<lparr>ctypes = ct, object = Some ob\<rparr> c n = Inr (True, cs', n')"
  shows "\<exists>ob' r. object cs' = Some ob' \<and> cs_Root CustomObject cs' = Some r
    \<and> ObservedGeneration r = meta_Generation (ObjectMeta ob)
    \<and> Status r = verdict_status
        (root_verdict ct (meta_Generation (ObjectMeta ob)) (Status_Conditions ob'))"
proof -
  let ?s = "Set_object CustomObject clk ct c (ob, n)"
  have cs': "fst ?s" "cs' = \<lparr>ctypes = ct, object = Some (fst (snd ?s))\<rparr>"
    using assms(4) by (auto simp: custom.cs_Set_eq)
  then have "root_consistent CustomObject ct (fst (snd ?s))"
    using assms custom.Set_object_consistent [of "(ob, n)"] by simp
  with cs' show ?thesis
    using custom.Set_object_meta(1) [of "(ob, n)"] assms(1)
    by (auto simp: root_consistent_def cs_Root_def cs_Get_def)
qed

theorem set_recomputes_root_witness:
  "\<exists>cs' n' ob' r.
     cs_Set CustomObject demo_clock \<lparr>ctypes = demo_types, object = Some demo_object2\<rparr>
       (mk_condition ''Bar'' ConditionFalse ''why'' []) 5 = Inr (True, cs', n')
     \<and> object cs' = Some ob' \<and> cs_Root CustomObject cs' = Some r
     \<and> Status r = verdict_status (root_verdict demo_types 1 (Status_Conditions ob'))"
proof -
  let ?c = "mk_condition ''Bar'' ConditionFalse ''why'' []"
  let ?s = "Set_object CustomObject demo_clock demo_types ?c (demo_object2, 5)"
  have u: "\<not> unchanged CustomObject demo_object2 ?c"
    by (simp add: unchanged_def Get_object_def demo_object2_def demo_ready_def)
  have "cs_Set CustomObject demo_clock \<lparr>ctypes = demo_types, object = Some demo_object2\<rparr> ?c 5
      = Inr (True, \<lparr>ctypes = demo_types, object = Some (fst (snd ?s))\<rparr>, snd (snd ?s))"
    using u by (simp add: custom.cs_Set_eq custom.Set_object_eq)
  from set_recomputes_root [OF demo_wf2 demo_types_simps(1) _ this] this show ?thesis
    by (fastforce simp: demo_object2_def demo_object_def)
qed





text \<open>
  Property C4. \<open>Set\<close> reports no modification exactly when the stored condition of that type has
  the status, reason and message asked for and was observed at the current generation; then the
  object and the clock are left alone (no condition is bumped, the root is not recomputed).
\<close>

theorem set_unmodified_iff:
  assumes "wf_conditions CustomObject ob"
  shows "cs_Set CustomObject clk \<lparr>ctypes = ct, object = Some ob\<rparr> c n = Inr (False, cs', n')
    \<longleftrightarrow> (\<exists>d. cs_Get CustomObject \<lparr>ctypes = ct, object = Some ob\<rparr> (Type c) = Some d
           \<and> Status d = Status c \<and> Reason d = Reason c \<and> Message d = Message c
           \<and> ObservedGeneration d = meta_Generation (ObjectMeta ob))
        \<and> cs' = \<lparr>ctypes = ct, object = Some ob\<rparr> \<and> n' = n"
  using assms by (auto simp: custom.cs_Set_eq custom.Set_object_eq unchanged_def cs_Get_def)

theorem set_unmodified_iff_witness:
  "cs_Set CustomObject demo_clock \<lparr>ctypes = demo_types, object = Some demo_object2\<rparr>
     (mk_condition ''Foo'' ConditionTrue ''Foo'' []) 5
   = Inr (False, \<lparr>ctypes = demo_types, object = Some demo_object2\<rparr>, 5)"
  using set_unmodified_iff [OF demo_wf2]
  by (simp add: cs_Get_def Get_object_def demo_object2_def demo_ready_def demo_object_def)

text \<open>
  Property C5. A modifying \<open>Set\<close> stores the condition with the status, reason and message asked for
  and the current generation. Its transition time is the old one if the status did not change, the
  clock if it did, and for a condition that was not there the object's creation time (root and
  dependent conditions) or the clock (any other).
\<close>

theorem set_stores_condition:
  assumes "wf_conditions CustomObject ob"
    and "cs_Set CustomObject clk \<lparr>ctypes = ct, object = Some ob\<rparr> c n = Inr (True, cs', n')"
  shows "\<exists>d. cs_Get CustomObject cs' (Type c) = Some d \<and> Status d = Status c
    \<and> Reason d = Reason c \<and> Message d = Message c
    \<and> ObservedGeneration d = meta_Generation (ObjectMeta ob)
    \<and> LastTransitionTime d =
        (case cs_Get CustomObject \<lparr>ctypes = ct, object = Some ob\<rparr> (Type c) of
           Some e \<Rightarrow> if Status e = Status c then LastTransitionTime e else clk n
         | None \<Rightarrow> if IsDependentCondition ct (Type c)
                   then meta_CreationTimestamp (ObjectMeta ob) else clk n)"
proof -
  have "\<not> unchanged CustomObject ob c"
    and cs': "cs' = \<lparr>ctypes = ct, object = Some (fst (snd (Set_object CustomObject clk ct c (ob, n))))\<rparr>"
    using assms by (auto simp: custom.cs_Set_eq custom.Set_object_eq)
  with custom.Set_object_Get_set [of "(ob, n)" c clk ct] assms(1) show ?thesis
    by (auto simp: cs_Get_def stamp_time_def split: option.split)
qed

theorem set_stores_condition_witness:
  "\<exists>cs' n' d. cs_Set CustomObject demo_clock \<lparr>ctypes = demo_types, object = Some demo_object2\<rparr>
       (mk_condition ''Foo'' ConditionFalse ''why'' []) 7 = Inr (True, cs', n')
     \<and> cs_Get CustomObject cs' ''Foo'' = Some d \<and> LastTransitionTime d = 1007"
proof -
  let ?c = "mk_condition ''Foo'' ConditionFalse ''why'' []"
  have get: "cs_Get CustomObject \<lparr>ctypes = demo_types, object = Some demo_object2\<rparr> ''Foo''
      = Some (demo_ready ! 1)"
    by (simp add: cs_Get_def Get_object_def demo_object2_def demo_ready_def)
  have u: "\<not> unchanged CustomObject demo_object2 ?c"
    by (simp add: unchanged_def Get_object_def demo_object2_def demo_ready_def)
  obtain cs' n' where s: "cs_Set CustomObject demo_clock
      \<lparr>ctypes = demo_types, object = Some demo_object2\<rparr> ?c 7 = Inr (True, cs', n')"
    using u by (simp add: custom.cs_Set_eq custom.Set_object_eq)
  show ?thesis
    using set_stores_condition [OF demo_wf2 s] s get
    by (auto simp: demo_ready_def demo_clock_def)
qed

text \<open>
  Property C6. A modifying \<open>Set\<close> leaves every other condition but the root as it is, except that
  while the object is being deleted their observed generation is moved to the current one.
\<close>

theorem set_frame:
  assumes "wf_conditions CustomObject ob" and "t \<noteq> Type c" and "t \<noteq> root ct"
    and "cs_Set CustomObject clk \<lparr>ctypes = ct, object = Some ob\<rparr> c n = Inr (True, cs', n')"
  shows "cs_Get CustomObject cs' t =
    map_option (\<lambda>d. if \<not> ptr_IsZero (meta_DeletionTimestamp (ObjectMeta ob))
                    then d\<lparr>ObservedGeneration := meta_Generation (ObjectMeta ob)\<rparr> else d)
      (cs_Get CustomObject \<lparr>ctypes = ct, object = Some ob\<rparr> t)"
proof -
  have "\<not> unchanged CustomObject ob c"
    and cs': "cs' = \<lparr>ctypes = ct, object = Some (fst (snd (Set_object CustomObject clk ct c (ob, n))))\<rparr>"
    using assms(1,4) by (auto simp: custom.cs_Set_eq custom.Set_object_eq)
  with custom.Set_object_Get_other [of "(ob, n)" t c ct clk] assms(1-3) show ?thesis
    by (simp add: cs_Get_def bump_def [abs_def] cong: if_cong)
qed

theorem set_frame_witness:
  "\<exists>cs' n'. cs_Set CustomObject demo_clock \<lparr>ctypes = demo_types, object = Some demo_object2\<rparr>
       (mk_condition ''Foo'' ConditionFalse ''why'' []) 7 = Inr (True, cs', n')
     \<and> cs_Get CustomObject cs' ''Bar'' = Some (demo_ready ! 0)"
proof -
  let ?c = "mk_condition ''Foo'' ConditionFalse ''why'' []"
  have u: "\<not> unchanged CustomObject demo_object2 ?c"
    by (simp add: unchanged_def Get_object_def demo_object2_def demo_ready_def)
  obtain cs' n' where s: "cs_Set CustomObject demo_clock
      \<lparr>ctypes = demo_types, object = Some demo_object2\<rparr> ?c 7 = Inr (True, cs', n')"
    using u by (simp add: custom.cs_Set_eq custom.Set_object_eq)
  show ?thesis
    using set_frame [OF demo_wf2 _ _ s, of "''Bar''"] s
    by (simp add: cs_Get_def Get_object_def demo_object2_def demo_ready_def demo_object_def
        ptr_IsZero_def)
qed

text \<open>
  Property C7. After a modifying \<open>Set\<close> condition types are still distinct, the root condition is the
  last one and the others are in the order of their transition times.
\<close>

theorem set_sorts_conditions:
  assumes "wf_conditions CustomObject ob"
    and "cs_Set CustomObject clk \<lparr>ctypes = ct, object = Some ob\<rparr> c n = Inr (True, cs', n')"
  shows "distinct (map Type (cs_List CustomObject cs'))
    \<and> Type (last (cs_List CustomObject cs')) = root ct
    \<and> sorted (map LastTransitionTime (butlast (cs_List CustomObject cs')))"
proof -
  let ?s = "Set_object CustomObject clk ct c (ob, n)"
  have m: "fst ?s" and u: "\<not> unchanged CustomObject ob c"
    and cs': "cs' = \<lparr>ctypes = ct, object = Some (fst (snd ?s))\<rparr>"
    using assms by (auto simp: custom.cs_Set_eq custom.Set_object_eq)
  have srt: "conditions_sorted (root ct) (Status_Conditions (fst (snd ?s)))"
    using custom.Set_object_sorted [of "(ob, n)"] assms(1) m by simp
  have wf: "wf_conditions CustomObject (fst (snd ?s))"
    using custom.Set_object_wf [of "(ob, n)"] assms(1) by simp
  have "Get_object CustomObject (fst (snd ?s)) (root ct) \<noteq> None"
  proof (cases "Type c = root ct")
    case True
    with custom.Set_object_Get_set [of "(ob, n)" c clk ct] assms(1) u show ?thesis by simp
  next
    case False
    with custom.Get_settle_root [OF custom.wf_store, of "(ob, n)"] assms(1) u show ?thesis
      by (fastforce simp: custom.Set_object_eq)
  qed
  then have "root ct \<in> Type ` set (Status_Conditions (fst (snd ?s)))"
    using Get_object_None [of CustomObject] by auto
  with conditions_sorted_rootD [OF srt] wf show ?thesis
    by (simp add: cs' cs_List_def wf_conditions_def)
qed

theorem set_sorts_conditions_witness:
  "\<exists>cs' n'. cs_Set CustomObject demo_clock \<lparr>ctypes = demo_types, object = Some demo_object2\<rparr>
       (mk_condition ''Foo'' ConditionFalse ''why'' []) 7 = Inr (True, cs', n')
     \<and> Type (last (cs_List CustomObject cs')) = ''Ready''"
proof -
  let ?c = "mk_condition ''Foo'' ConditionFalse ''why'' []"
  have u: "\<not> unchanged CustomObject demo_object2 ?c"
    by (simp add: unchanged_def Get_object_def demo_object2_def demo_ready_def)
  obtain cs' n' where s: "cs_Set CustomObject demo_clock
      \<lparr>ctypes = demo_types, object = Some demo_object2\<rparr> ?c 7 = Inr (True, cs', n')"
    using u by (simp add: custom.cs_Set_eq custom.Set_object_eq)
  with set_sorts_conditions [OF demo_wf2 s] show ?thesis by simp
qed

text \<open>
  Property C8. On an object without conditions \<open>For\<close> initialises the root and every dependent
  condition as unknown for the current generation, with the object's creation time as transition
  time; it does not read the clock.
\<close>

theorem for_new_object:
  assumes "Status_Conditions ob = []"
    and "cs_For CustomObject clk ct (Some ob) n = Inr (cs, n')"
    and "t = root ct \<or> t \<in> set (dependents ct)"
  shows "n' = n \<and> (\<exists>c. cs_Get CustomObject cs t = Some c \<and> Status c = ConditionUnknown
    \<and> ObservedGeneration c = meta_Generation (ObjectMeta ob)
    \<and> LastTransitionTime c = meta_CreationTimestamp (ObjectMeta ob))"
  using custom.For_new_object [OF _ assms(2,3)] assms(1) by (auto simp: initial_def cs_Get_def)

theorem for_new_object_witness:
  "\<exists>cs c. cs_For CustomObject demo_clock demo_types (Some demo_object) 3 = Inr (cs, 3)
     \<and> cs_Get CustomObject cs ''Bar'' = Some c \<and> LastTransitionTime c = 100"
proof -
  obtain cs n where s: "cs_For CustomObject demo_clock demo_types (Some demo_object) 3 = Inr (cs, n)"
    using cs_For_total [of CustomObject] by metis
  with for_new_object [OF _ s, of "''Bar''"] show ?thesis by (auto simp: demo_object_def)
qed

text \<open>
  Property C9. \<open>For\<close> leaves all its conditions present and is idempotent: made for the object
  it returned, it returns the same set again and reads no clock.
\<close>

theorem for_idempotent:
  assumes "wf_conditions CustomObject ob"
    and "cs_For CustomObject clk ct (Some ob) n = Inr (cs, n')"
  shows "all_present CustomObject ct (the (object cs)) \<and> object cs \<noteq> None
    \<and> cs_For CustomObject clk ct (object cs) m = Inr (cs, m)"
proof -
  obtain ob' where ob': "cs = \<lparr>ctypes = ct, object = Some ob'\<rparr>" "all_present CustomObject ct ob'"
    using custom.For_wf_present [OF assms] by blast
  then have "fold (ensure CustomObject clk ct) (root ct # dependents ct) (ob', m) = (ob', m)"
    by (intro fold_ensure_id) (auto simp: all_present_def)
  with ob' show ?thesis using cs_For_eq [of CustomObject clk ct ob' m] by simp
qed

theorem for_idempotent_witness:
  "\<exists>cs n'. cs_For CustomObject demo_clock demo_types (Some demo_object) 3 = Inr (cs, n')
     \<and> cs_For CustomObject demo_clock demo_types (object cs) 4 = Inr (cs, 4)"
  using for_idempotent [OF demo_wf] cs_For_total [of CustomObject] by metis



subsection \<open>Where the code departs from its comments\<close>

text \<open>
  \<open>Set\<close> keeps the root condition at the end of the list; \<open>Clear\<close> sorts by type instead, so that
  after clearing an unrelated condition the root condition can come first.
\<close>

definition extra_condition :: condition where
  "extra_condition =
     \<lparr>Type = ''Extra'', Status = ConditionTrue, ObservedGeneration = 1, LastTransitionTime = 50,
      Reason = ''Extra'', Message = []\<rparr>"

definition synced_object :: custom_object where
  "synced_object = demo_object\<lparr>Status_Conditions :=
     [extra_condition,
      extra_condition\<lparr>Type := ''Synced'', LastTransitionTime := 100\<rparr>,
      extra_condition\<lparr>Type := ''Ready'', LastTransitionTime := 110\<rparr>]\<rparr>"

lemma clear_loses_root_order:
  "conditions_sorted ''Ready'' (Status_Conditions synced_object)
   \<and> map Type (cs_List CustomObject (snd (cs_Clear CustomObject
       \<lparr>ctypes = NewReadyConditions [''Synced''], object = Some synced_object\<rparr> ''Extra'')))
     = [''Ready'', ''Synced'']"
proof
  show "conditions_sorted ''Ready'' (Status_Conditions synced_object)"
    by (simp add: conditions_sorted_def condition_key_def synced_object_def extra_condition_def
        demo_object_def)
next
  show "map Type (cs_List CustomObject (snd (cs_Clear CustomObject
       \<lparr>ctypes = NewReadyConditions [''Synced''], object = Some synced_object\<rparr> ''Extra'')))
     = [''Ready'', ''Synced'']"
    by code_simp
qed

text \<open>
  \<open>recomputeRootCondition\<close> is said to mark the root true if all dependents are true. It looks for
  dependents that are false, unknown or out of date, so a dependent whose status is
  none of the three values (\<open>Set\<close> accepts any status) does not keep the root from being true.
\<close>

lemma root_true_with_untrue_dependent:
  "case cs_Set CustomObject demo_clock \<lparr>ctypes = demo_types, object = Some demo_object2\<rparr>
          (mk_condition ''Bar'' [] ''why'' []) 5 of
     Inl _ \<Rightarrow> False
   | Inr (modified, cs, n) \<Rightarrow>
       cs_IsTrue CustomObject cs [''Ready''] \<and> \<not> cs_IsTrue CustomObject cs [''Bar'']"
  by code_simp

end
