(* ===== verification/StatusClaims.thy ===== *)
theory StatusClaims
  imports StatusEffects ConditionClaims
begin

section \<open>Properties of the status controller\<close>

text \<open>
  The properties are stated for the object of the repository's own test, \<open>CustomStatus\<close>, on which the
  locale \<open>status_object\<close> is interpreted. A call of \<open>Reconcile\<close> is a step of \<open>ctl_reachable\<close>.
  \<open>nested_string_ok\<close> is the documented behaviour of \<open>unstructured.NestedString\<close>.
\<close>

definition nested_string_ok :: "((string \<times> 'a gov) list \<Rightarrow> string list \<Rightarrow> string) \<Rightarrow> bool" where
  "nested_string_ok NS \<longleftrightarrow> (\<forall>u path. path \<noteq> [] \<longrightarrow>
     NS u path = (case map_walk (GMap True u) path of Some (GString s) \<Rightarrow> s | _ \<Rightarrow> []))"

definition demo_NS :: "(string \<times> unit gov) list \<Rightarrow> string list \<Rightarrow> string" where
  "demo_NS u path = (case map_walk (GMap True u) path of Some (GString s) \<Rightarrow> s | _ \<Rightarrow> [])"

lemma demo_NS_ok: "nested_string_ok demo_NS"
  by (simp add: nested_string_ok_def demo_NS_def)

definition demo_options :: "(unit options \<Rightarrow> unit options) option list" where
  "demo_options = [Some EmitDeprecatedMetrics, None, Some (WithGaugeLabels [''operator.pkg/key1'']),
     Some (WithFields [(''spec-field'', ''.spec.field1'')])]"

definition demo_gvk :: gvk where
  "demo_gvk = \<lparr>gvk_Group = ''operator.pkg'', gvk_Version = ''v1'', gvk_Kind = ''CustomObject''\<rparr>"

definition demo_ctl :: controller where
  "demo_ctl = fst (NewController [] (\<lambda>k. ''customobject'') demo_gvk demo_options)"

definition demo_descs :: "metric \<Rightarrow> unit metric_desc" where
  "demo_descs = snd (NewController [] (\<lambda>k. ''customobject'') demo_gvk demo_options)"

definition demo_req :: request where
  "demo_req = \<lparr>req_Namespace = ''default'', req_Name = ''demo''\<rparr>"

definition demo_labelled :: "string \<Rightarrow> custom_object" where
  "demo_labelled v = demo_object\<lparr>
     ObjectMeta := (ObjectMeta demo_object)\<lparr>meta_Labels := [''operator.pkg/key1'' \<mapsto> v]\<rparr>,
     Spec_Field1 := ''x'', Status_Conditions := demo_ready\<rparr>"

text \<open>The state after a call for the object, computed.\<close>

definition run_step :: "controller \<Rightarrow> request \<Rightarrow> (custom_object, string) get_result \<Rightarrow> custom_object cstate
    \<Rightarrow> custom_object cstate" where
  "run_step c req r st =
     (case reconcile c CustomStatus demo_NS demo_clock req demo_object r st of
        Inr (_, _, st') \<Rightarrow> st' | Inl _ \<Rightarrow> st)"

lemma demo_ctl_fields:
  "additionalMetricFields demo_ctl = [(''spec-field'', ''.spec.field1'')]"
  "additionalGaugeMetricFields demo_ctl = []" "additionalMetricLabels demo_ctl = []"
  "additionalGaugeMetricLabels demo_ctl = [''operator.pkg/key1'']" "emitDeprecatedMetrics demo_ctl"
  by code_simp+

lemma demo_config: "config_ok demo_ctl" "config_paths_ok demo_ctl"
  by (simp_all add: config_ok_def config_paths_ok_def gauge_keys_def base_keys_def demo_ctl_fields
      paths_ok_def segments_def toPrometheusLabel_def ReplaceAll_char_def label_defs)

lemma demo_fits: "fits demo_ctl [] demo_descs"
  unfolding fits_def demo_ctl_def demo_descs_def by (metis prod.collapse)

lemma run_step_reconcile:
  assumes "ctl_reachable demo_ctl CustomStatus demo_NS demo_clock st"
  shows "\<exists>res err. reconcile demo_ctl CustomStatus demo_NS demo_clock req demo_object r st
    = Inr (res, err, run_step demo_ctl req r st)"
proof (cases r)
  case (GetOk ob)
  then show ?thesis
    using custom_found_returns [OF demo_config(2), of demo_NS demo_clock req ob st]
    by (auto simp: run_step_def reconcile_def)
next
  case GetNotFound
  then show ?thesis
    using custom_not_found_returns [OF demo_config(2) reachable_terminating [OF assms], of demo_NS demo_clock req demo_object]
    by (auto simp: run_step_def reconcile_def)
qed (simp add: run_step_def reconcile_def)

lemma run_step_reachable:
  assumes "ctl_reachable demo_ctl CustomStatus demo_NS demo_clock st"
    and "\<And>ob. r = GetOk ob \<Longrightarrow> wf_conditions CustomObject ob"
  shows "ctl_reachable demo_ctl CustomStatus demo_NS demo_clock (run_step demo_ctl req r st)"
proof -
  obtain res err where "reconcile demo_ctl CustomStatus demo_NS demo_clock req demo_object r st
      = Inr (res, err, run_step demo_ctl req r st)"
    using run_step_reconcile [OF assms(1), of req r] by blast
  from ctl_step [OF assms(1) _ this] assms(2) show ?thesis by simp
qed

definition demo_later :: "condition list" where
  "demo_later =
     [\<lparr>Type = ''Foo'', Status = ConditionTrue, ObservedGeneration = 1, LastTransitionTime = 1000,
       Reason = ''Foo'', Message = []\<rparr>,
      \<lparr>Type = ''Bar'', Status = ConditionTrue, ObservedGeneration = 1, LastTransitionTime = 2000,
       Reason = ''Bar'', Message = []\<rparr>,
      \<lparr>Type = ''Ready'', Status = ConditionTrue, ObservedGeneration = 1, LastTransitionTime = 2000,
       Reason = ''Ready'', Message = []\<rparr>]"

definition demo_state1 :: "custom_object cstate" where
  "demo_state1 = run_step demo_ctl demo_req (GetOk (demo_labelled ''a'')) new_cstate"

definition demo_state2 :: "custom_object cstate" where
  "demo_state2 = run_step demo_ctl demo_req
     (GetOk (demo_labelled ''b''\<lparr>Status_Conditions := demo_later\<rparr>)) demo_state1"

lemma demo_reachable:
  "ctl_reachable demo_ctl CustomStatus demo_NS demo_clock new_cstate"
  "ctl_reachable demo_ctl CustomStatus demo_NS demo_clock demo_state1"
  "ctl_reachable demo_ctl CustomStatus demo_NS demo_clock demo_state2"
proof -
  show 0: "ctl_reachable demo_ctl CustomStatus demo_NS demo_clock new_cstate" by (rule ctl_start)
  show 1: "ctl_reachable demo_ctl CustomStatus demo_NS demo_clock demo_state1"
    unfolding demo_state1_def
    by (rule run_step_reachable [OF 0]) (auto simp: wf_conditions_def demo_labelled_def demo_ready_def)
  show "ctl_reachable demo_ctl CustomStatus demo_NS demo_clock demo_state2"
    unfolding demo_state2_def
    by (rule run_step_reachable [OF 1]) (auto simp: wf_conditions_def demo_later_def)
qed

text \<open>An object that has all its conditions is observed as it is.\<close>

definition has_conditions :: "custom_object \<Rightarrow> bool" where
  "has_conditions ob \<longleftrightarrow> (\<forall>t \<in> {''Ready'', ''Foo'', ''Bar''}. Get_object CustomObject ob t \<noteq> None)"

lemma demo_has_conditions:
  "has_conditions (demo_labelled v)" "has_conditions (demo_labelled v\<lparr>Status_Conditions := demo_later\<rparr>)"
  by (simp_all add: has_conditions_def Get_object_def demo_labelled_def demo_ready_def demo_later_def)

lemma StatusConditions_present:
  assumes "has_conditions ob"
  shows "custom_StatusConditions clk ob n
    = Inr (ob, \<lparr>ctypes = NewReadyConditions [''Foo'', ''Bar''], object = Some ob\<rparr>, n)"
proof -
  let ?ct = "NewReadyConditions [''Foo'', ''Bar'']"
  have "root ?ct # dependents ?ct = [''Ready'', ''Foo'', ''Bar'']"
    by (simp add: NewReadyConditions_def newConditionTypes_def ConditionReady_def)
  then have "fold (ensure CustomObject clk ?ct) (root ?ct # dependents ?ct) (ob, n) = (ob, n)"
    using assms by (intro fold_ensure_id) (auto simp: has_conditions_def)
  then show ?thesis by (simp add: custom_StatusConditions_def cs_For_eq)
qed

lemma run_step_observed:
  assumes "has_conditions ob"
  shows "observedConditions (run_step demo_ctl req (GetOk ob) st) req
    = Some \<lparr>ctypes = NewReadyConditions [''Foo'', ''Bar''], object = Some ob\<rparr>"
proof -
  obtain st' where r: "reconcile_found demo_ctl CustomStatus demo_NS demo_clock req ob st = Inr st'"
    using custom_found_returns [OF demo_config(2)] by blast
  then have "observedConditions st' req
      = Some \<lparr>ctypes = NewReadyConditions [''Foo'', ''Bar''], object = Some ob\<rparr>"
    by (rule reconcile_foundE) (auto simp: maps_of_core StatusConditions_present [OF assms])
  with r show ?thesis by (simp add: run_step_def reconcile_def)
qed



text \<open>
  Property C16. Every call of a controller fits the metric it is made on: a counter is incremented, a
  gauge set, a histogram observed, and the labels have exactly the names the metric was registered
  with by \<open>NewController\<close>, or by the package for the deprecated ones, so that no call panics in Prometheus.
\<close>

theorem calls_fit_metrics:
  assumes "NewController D lower g opts = (c, descs)" and "ctl_reachable c S NS clk st"
    and "e \<in> set (out st)"
  shows "effect_ok (registered D descs) e"
proof -
  have "fits c D descs" using assms(1) by (auto simp: fits_def)
  with reachable_ok [OF assms(2)] assms(3) show ?thesis by (auto simp: all_ok_def list_all_iff)
qed

theorem calls_fit_metrics_witness:
  "\<exists>e es. out demo_state1 = e # es \<and> effect_ok (registered [] demo_descs) e"
proof -
  have "NewController [] (\<lambda>k. ''customobject'') demo_gvk demo_options = (demo_ctl, demo_descs)"
    by (simp add: demo_ctl_def demo_descs_def)
  note ok = calls_fit_metrics [OF this demo_reachable(2)]
  have o: "observedConditions demo_state1 demo_req = Some \<lparr>ctypes = NewReadyConditions [''Foo'', ''Bar''],
      object = Some (demo_labelled ''a'')\<rparr>"
    unfolding demo_state1_def by (rule run_step_observed [OF demo_has_conditions(1)])
  note inv = custom_status.reachable_inv [OF demo_reachable(2) demo_config(1)]
  obtain gl where "observedGaugeLabels demo_state1 demo_req = Some gl"
    using observed_labels [OF inv o] by blast
  then have "cond_series demo_req gl (hd demo_ready) \<in> tracked CustomStatus demo_state1"
    using o by (force simp: tracked_def cs_List_def demo_labelled_def demo_ready_def)
  then have "gauge Current ConditionCount demo_state1 \<noteq> Map.empty"
    using inv by (auto simp: ctl_inv_def cond_gauges_def dom_def)
  then have "out demo_state1 \<noteq> []" by (auto simp: gauge_def)
  then obtain e es where "out demo_state1 = e # es" by (cases "out demo_state1") auto
  with ok [of e] show ?thesis by auto
qed

text \<open>
  Property C17. When the object is gone, its entries in the four maps are removed, all its series of
  the three gauges are deleted (the deprecated ones among its kind's), \<open>TerminationDuration\<close> is
  observed once if it was seen terminating, with the time since its deletion timestamp, and
  there is one event for each of its last finalizers; no other object is touched.
\<close>

theorem not_found_cleans_up:
  fixes st :: "custom_object cstate"
  assumes "reconcile c CustomStatus NS clk req ob0 (GetNotFound :: (custom_object, string) get_result) st
    = Inr (res, err, st')"
  shows "res = empty_result \<and> err = None
    \<and> observedConditions st' = (observedConditions st)(req := None)
    \<and> observedGaugeLabels st' = (observedGaugeLabels st)(req := None)
    \<and> observedFinalizers st' = (observedFinalizers st)(req := None)
    \<and> terminatingObjects st' = (terminatingObjects st)(req := None)
    \<and> (\<forall>m \<in> {ConditionCount, ConditionCurrentStatusSeconds, TerminationCurrentTimeSeconds}. \<forall>k.
         gauge Current m st' k
           = (if partial_match (object_key_labels req) k then None else gauge Current m st k)
       \<and> gauge Deprecated m st' k
           = (if emitDeprecatedMetrics c \<and> partial_match (with_kind c (object_key_labels req)) k
              then None else gauge Deprecated m st k))
    \<and> calls is_event st' = calls is_event st @ map (finalized ob0)
         (case observedFinalizers st req of None \<Rightarrow> [] | Some fs \<Rightarrow> fs)
    \<and> calls (is_histogram TerminationDuration) st' = calls (is_histogram TerminationDuration) st @
         (case terminatingObjects st req of None \<Rightarrow> []
          | Some tob \<Rightarrow> [HistogramObserve Current TerminationDuration
              (Seconds (time_Sub (clk (tick st)) (the (meta_DeletionTimestamp (ObjectMeta tob)))))
              (lo_Assign [[], projr (toAdditionalMetricLabels c CustomStatus NS tob)])])"
proof -
  have r: "reconcile_not_found c CustomStatus NS clk req ob0 st = Inr st'" "res = empty_result" "err = None"
    using assms by (auto simp: reconcile_def go_bind_eq_Inr)
  show ?thesis
    using not_found_maps [OF r(1)] not_found_gauges [OF r(1)] not_found_calls [OF r(1)] r(2,3) by simp
qed

theorem not_found_cleans_up_witness:
  "\<exists>st'. reconcile demo_ctl CustomStatus demo_NS demo_clock demo_req demo_object
         (GetNotFound :: (custom_object, string) get_result) demo_state1
       = Inr (empty_result, None, st')
     \<and> observedConditions st' demo_req = None
     \<and> gauge Current ConditionCount st' (cond_series demo_req [] (hd demo_ready)) = None"
proof -
  obtain res err st' where r: "reconcile demo_ctl CustomStatus demo_NS demo_clock demo_req demo_object
      (GetNotFound :: (custom_object, string) get_result) demo_state1 = Inr (res, err, st')"
    using run_step_reconcile [OF demo_reachable(2), of demo_req GetNotFound] by blast
  have "partial_match (object_key_labels demo_req) (cond_series demo_req [] (hd demo_ready))"
    using partial_match_object [of "demo_ctl\<lparr>additionalMetricFields := [], additionalGaugeMetricLabels := []\<rparr>" "[]"]
    by (simp add: config_ok_def gl_ok_def gauge_keys_def demo_ctl_fields labels_ok_def)
  with not_found_cleans_up [OF r] r show ?thesis by auto
qed

text \<open>
  Property C18. A call for an object that exists reports exactly the transitions: one event for each
  finalizer that is gone, then one for each condition whose status differs from the one observed
  before, with the duration of the old status; \<open>ConditionTransitionsTotal\<close> is incremented once for
  each condition whose status differs from the one observed before, an unobserved one counting as unknown.
\<close>

theorem found_reports_transitions:
  fixes st :: "custom_object cstate"
  assumes "wf_conditions CustomObject ob"
    and "reconcile c CustomStatus NS clk req ob0 (GetOk ob :: (custom_object, string) get_result) st
      = Inr (res, err, st')"
  defines "observed \<equiv> (case observedConditions st req of None \<Rightarrow> empty_condition_set | Some cs \<Rightarrow> cs)"
  shows "\<exists>ob' cs n n' ml. cs_For CustomObject clk (NewReadyConditions [''Foo'', ''Bar'']) (Some ob) n = Inr (cs, n')
    \<and> object cs = Some ob' \<and> toAdditionalMetricLabels c CustomStatus NS ob' = Inr ml
    \<and> calls is_event st' = calls is_event st
        @ map (finalized ob) (filter (\<lambda>f. f \<notin> set (meta_Finalizers (ObjectMeta ob)))
            (case observedFinalizers st req of None \<Rightarrow> [] | Some fs \<Rightarrow> fs))
        @ concat (map (\<lambda>cond. map (\<lambda>oc. Event ob' ''Normal'' (Type cond) (transition_message oc cond))
            (changed_from CustomStatus observed cond)) (Status_Conditions ob'))
    \<and> calls (is_histogram ConditionDuration) st' = calls (is_histogram ConditionDuration) st
        @ concat (map (\<lambda>cond. map (\<lambda>oc. duration_observed ml oc cond)
            (changed_from CustomStatus observed cond)) (Status_Conditions ob'))
    \<and> calls is_counter st' = calls is_counter st
        @ map (transitions_counter ml)
            (filter (\<lambda>cond. GetStatus (cs_Get CustomObject observed (Type cond)) \<noteq> Status cond)
               (Status_Conditions ob'))"
proof -
  have "reconcile_found c CustomStatus NS clk req ob st = Inr st'"
    using assms(2) by (auto simp: reconcile_def go_bind_eq_Inr)
  from custom_found_calls [OF this] show ?thesis unfolding observed_def by blast
qed

theorem found_reports_transitions_witness:
  "\<exists>st' ml. reconcile demo_ctl CustomStatus demo_NS demo_clock demo_req demo_object
       (GetOk (demo_labelled ''b''\<lparr>Status_Conditions := demo_later\<rparr>) :: (custom_object, string) get_result)
       demo_state1 = Inr (empty_result\<lparr>result_RequeueAfter := second * 10\<rparr>, None, st')
     \<and> calls is_counter st' = calls is_counter demo_state1
         @ [transitions_counter ml (demo_later ! 1), transitions_counter ml (demo_later ! 2)]"
proof -
  let ?ob = "demo_labelled ''b''\<lparr>Status_Conditions := demo_later\<rparr>"
  let ?r = "GetOk ?ob :: (custom_object, string) get_result"
  obtain res err st' where r: "reconcile demo_ctl CustomStatus demo_NS demo_clock demo_req demo_object
      ?r demo_state1 = Inr (res, err, st')"
    using run_step_reconcile [OF demo_reachable(2), of demo_req ?r] by blast
  have o: "observedConditions demo_state1 demo_req = Some \<lparr>ctypes = NewReadyConditions [''Foo'', ''Bar''],
      object = Some (demo_labelled ''a'')\<rparr>"
    unfolding demo_state1_def by (rule run_step_observed [OF demo_has_conditions(1)])
  have wf: "wf_conditions CustomObject ?ob" by (simp add: wf_conditions_def demo_later_def)
  have "cs_For CustomObject clk (NewReadyConditions [''Foo'', ''Bar'']) (Some ?ob) n = Inr (cs, n') \<Longrightarrow>
      object cs = Some ob' \<Longrightarrow> Status_Conditions ob' = demo_later" for clk n cs n' ob'
    using StatusConditions_present [OF demo_has_conditions(2), of clk "''b''" n]
      custom_StatusConditions_For [of clk ?ob n ob' cs n'] by auto
  moreover have "filter (\<lambda>cond. GetStatus (cs_Get CustomObject \<lparr>ctypes = NewReadyConditions [''Foo'', ''Bar''],
      object = Some (demo_labelled ''a'')\<rparr> (Type cond)) \<noteq> Status cond) demo_later
    = [demo_later ! 1, demo_later ! 2]"
    by (simp add: demo_later_def cs_Get_def Get_object_def demo_labelled_def demo_ready_def)
  moreover have "res = empty_result\<lparr>result_RequeueAfter := second * 10\<rparr>" "err = None"
    using r by (auto simp: reconcile_def go_bind_eq_Inr)
  ultimately show ?thesis
    using found_reports_transitions [OF wf r] r by (fastforce simp: o)
qed

text \<open>
  Property C19. A call touches the state of its own object only: what is remembered of every other
  object is as before. When \<open>Get\<close> fails with anything but \<open>NotFound\<close> nothing changes and the error is
  returned, wrapped; otherwise there is no error.
\<close>

theorem reconcile_frame:
  fixes st :: "'o cstate"
  assumes "reconcile c S NS clk req ob0 r st = Inr (res, err, st')"
  shows "(\<forall>req'. req' \<noteq> req \<longrightarrow>
        observedConditions st' req' = observedConditions st req'
      \<and> observedGaugeLabels st' req' = observedGaugeLabels st req'
      \<and> observedFinalizers st' req' = observedFinalizers st req'
      \<and> terminatingObjects st' req' = terminatingObjects st req')
    \<and> (case r of GetError e \<Rightarrow> st' = st \<and> err = Some (''getting object'', e) | _ \<Rightarrow> err = None)"
proof (cases r)
  case (GetOk ob)
  with assms have "reconcile_found c S NS clk req ob st = Inr st'" "err = None"
    by (auto simp: reconcile_def go_bind_eq_Inr)
  with found_frame [OF this(1)] GetOk show ?thesis by simp
next
  case GetNotFound
  with assms have "reconcile_not_found c S NS clk req ob0 st = Inr st'" "err = None"
    by (auto simp: reconcile_def go_bind_eq_Inr)
  with not_found_maps [OF this(1)] GetNotFound show ?thesis by simp
next
  case (GetError e)
  with assms show ?thesis by (simp add: reconcile_def)
qed

theorem reconcile_frame_witness:
  "\<exists>st'. reconcile demo_ctl CustomStatus demo_NS demo_clock \<lparr>req_Namespace = ''other'', req_Name = ''x''\<rparr>
       demo_object (GetOk (demo_labelled ''z'') :: (custom_object, string) get_result) demo_state1
       = Inr (empty_result\<lparr>result_RequeueAfter := second * 10\<rparr>, None, st')
     \<and> observedConditions st' demo_req = observedConditions demo_state1 demo_req"
proof -
  let ?req = "\<lparr>req_Namespace = ''other'', req_Name = ''x''\<rparr>"
  let ?r = "GetOk (demo_labelled ''z'') :: (custom_object, string) get_result"
  obtain res err st' where r: "reconcile demo_ctl CustomStatus demo_NS demo_clock ?req demo_object
      ?r demo_state1 = Inr (res, err, st')"
    using run_step_reconcile [OF demo_reachable(2), of ?req ?r] by blast
  have "res = empty_result\<lparr>result_RequeueAfter := second * 10\<rparr>"
    using r by (auto simp: reconcile_def go_bind_eq_Inr)
  with reconcile_frame [OF r] r show ?thesis by (simp add: demo_req_def)
qed





section \<open>Where the gauges go stale\<close>

text \<open>
  The comment in \<open>reconcile\<close> says that the deprecated metrics are deleted when the status changes. When
  the additional labels change in the same call, the deletion carries them and matches no
  deprecated series, so the old status stays exported for as long as the object exists.
\<close>

lemma deprecated_series_left:
  assumes "gl_ok c ogl" and "gl \<noteq> ogl" and "\<not> gauge_keys c \<subseteq> base_keys \<union> {LabelGroup, LabelKind}"
    and "\<forall>k \<in> dom (gauge Deprecated m st). label_keys k = base_keys \<union> {LabelGroup, LabelKind}"
  shows "gauge Deprecated m (delete_stale c S req current gl ogl oc st) = gauge Deprecated m st"
proof -
  let ?l = "with_kind c (lo_Assign [condition_labels req oc, ogl])"
  have "\<not> partial_match ?l k" if "k \<in> dom (gauge Deprecated m st)" for k
  proof
    assume "partial_match ?l k"
    then have "label_keys ?l \<subseteq> label_keys k"
      by (force simp: partial_match_def label_keys_def dest: map_of_SomeD)
    with that assms(1,3,4) show False by (auto simp: gl_ok_def)
  qed
  then have "(\<lambda>k. if partial_match ?l k then None else gauge Deprecated m st k) = gauge Deprecated m st"
    by (intro ext) (metis domIff)
  then show ?thesis using assms(2) by (auto simp: delete_stale_def Let_def cong: if_cong)
qed

text \<open>
  No call for an existing object deletes from \<open>TerminationCurrentTimeSeconds\<close>: when the additional
  labels of a terminating object change, the series with the old labels stays as well.
\<close>

lemma termination_series_left:
  assumes "reconcile_found c S NS clk req ob st = Inr st'"
  shows "dom (gauge Current TerminationCurrentTimeSeconds st)
    \<subseteq> dom (gauge Current TerminationCurrentTimeSeconds st')"
  using assms
proof (rule reconcile_foundE)
  let ?m = TerminationCurrentTimeSeconds
  fix st1 st2 :: "'a cstate" and ob' current n gl ml
  assume dt: "detect_termination c S NS clk req ob (detect_finalizers S req ob st) = Inr st1"
    and out: "out st2 = out st1"
    and st': "st' = fold (transition c S ob'
             (case observedConditions st1 req of None \<Rightarrow> empty_condition_set | Some v \<Rightarrow> v) ml)
           (cs_List (Conditions_ops S) current)
           (fold (delete_stale c S req current gl
               (case observedGaugeLabels st1 req of None \<Rightarrow> [] | Some v \<Rightarrow> v))
             (cs_List (Conditions_ops S)
               (case observedConditions st1 req of None \<Rightarrow> empty_condition_set | Some v \<Rightarrow> v))
             (fold (count_condition c clk req gl) (GetConditions (Conditions_ops S) ob') st2))"
  have "dom (gauge Current ?m st) \<subseteq> dom (gauge Current ?m st1)"
    using dt by (auto simp: detect_termination_def since_def go_bind_eq_Inr split: option.splits)
  moreover have "gauge Current ?m (fold (count_condition c clk req gl) xs s) = gauge Current ?m s"
    for xs and s :: "'a cstate"
    by (rule fold_keeps) (simp add: count_condition_def since_def Let_def)
  moreover have "gauge Current ?m (fold (delete_stale c S req current gl ogl) xs s) = gauge Current ?m s"
    for ogl xs and s :: "'a cstate"
    by (rule fold_keeps) (simp add: delete_stale_def Let_def)
  ultimately show ?thesis by (simp add: st' gauge_eq_out [OF out])
qed

text \<open>
  An \<open>UnstructuredAdapter\<close> is a struct whose only field is the embedded \<open>Unstructured\<close>, and
  \<open>ToPartialUnstructured\<close> does not look through it: a controller made by \<open>NewGenericObjectController\<close>
  finds nothing at any field path of the object, and its field labels are empty.
\<close>

lemma adapter_fields_not_found:
  assumes "segments p = f # fs" "f \<noteq> ''Unstructured''"
  shows "ToPartialUnstructured (Object_value (GPtr (Some (GStruct [(gofield ''Unstructured'' [], v)])))) [p]
    = Inr ([], GPtr (Some (GStruct [(gofield ''Unstructured'' [], v)])))"
  using assms
  by (simp add: ToPartialUnstructured_def select_def field_matches_def gofield_def getJSONKey_def resolve_def)

end
