(* ===== verification/MetricVecs.thy ===== *)
theory MetricVecs
  imports StatusClaims
begin

section \<open>The metric interfaces\<close>

text \<open>
  \<open>metrics/types.go\<close>, \<open>metrics/prometheus.go\<close> and \<open>metrics/multi.go\<close>. An interface is the record of its
  methods; the state of a metric is of any type. The vectors of Prometheus are not part of the
  repository: the wrappers take their methods as an argument (\<open>vec_ops\<close>), and the locale \<open>gauge_vec\<close>
  states what their documentation says of a gauge vector. \<open>gauge_metric\<close> is the contract of the
  interface \<open>GaugeMetric\<close> the status controller rests on; the Prometheus wrapper fulfils it, and each
  member of a \<open>MultiGauge\<close> behaves as if it were called alone.
\<close>

record 'g gauge_ops =
  Gauge_Set :: "mvalue \<Rightarrow> labels \<Rightarrow> 'g \<Rightarrow> 'g"
  Gauge_Delete :: "labels \<Rightarrow> 'g \<Rightarrow> 'g"
  Gauge_DeletePartialMatch :: "labels \<Rightarrow> 'g \<Rightarrow> 'g"
  Gauge_Reset :: "'g \<Rightarrow> 'g"

record 'g counter_ops =
  Counter_Add :: "mvalue \<Rightarrow> labels \<Rightarrow> 'g \<Rightarrow> 'g"
  Counter_Inc :: "labels \<Rightarrow> 'g \<Rightarrow> 'g"
  Counter_Delete :: "labels \<Rightarrow> 'g \<Rightarrow> 'g"
  Counter_DeletePartialMatch :: "labels \<Rightarrow> 'g \<Rightarrow> 'g"
  Counter_Reset :: "'g \<Rightarrow> 'g"

record 'g observation_ops =
  Observation_Observe :: "mvalue \<Rightarrow> labels \<Rightarrow> 'g \<Rightarrow> 'g"
  Observation_Delete :: "labels \<Rightarrow> 'g \<Rightarrow> 'g"
  Observation_DeletePartialMatch :: "labels \<Rightarrow> 'g \<Rightarrow> 'g"
  Observation_Reset :: "'g \<Rightarrow> 'g"

subsection \<open>Prometheus\<close>

text \<open>The methods of a vector of metrics of type \<open>'m\<close>: \<open>With\<close> applies an update to one series.\<close>

record ('m, 'v) vec_ops =
  Vec_With :: "labels \<Rightarrow> ('m \<Rightarrow> 'm) \<Rightarrow> 'v \<Rightarrow> 'v"
  Vec_Delete :: "labels \<Rightarrow> 'v \<Rightarrow> 'v"
  Vec_DeletePartialMatch :: "labels \<Rightarrow> 'v \<Rightarrow> 'v"
  Vec_Reset :: "'v \<Rightarrow> 'v"

definition PrometheusGauge :: "(mvalue \<Rightarrow> 'm \<Rightarrow> 'm) \<Rightarrow> ('m, 'v) vec_ops \<Rightarrow> 'v gauge_ops" where
  "PrometheusGauge set_metric V =
     \<lparr>Gauge_Set = (\<lambda>v ls. Vec_With V ls (set_metric v)),
      Gauge_Delete = Vec_Delete V,
      Gauge_DeletePartialMatch = Vec_DeletePartialMatch V,
      Gauge_Reset = Vec_Reset V\<rparr>"

definition PrometheusCounter :: "('m \<Rightarrow> 'm) \<Rightarrow> (mvalue \<Rightarrow> 'm \<Rightarrow> 'm) \<Rightarrow> ('m, 'v) vec_ops \<Rightarrow> 'v counter_ops" where
  "PrometheusCounter inc_metric add_metric V =
     \<lparr>Counter_Add = (\<lambda>v ls. Vec_With V ls (add_metric v)),
      Counter_Inc = (\<lambda>ls. Vec_With V ls inc_metric),
      Counter_Delete = Vec_Delete V,
      Counter_DeletePartialMatch = Vec_DeletePartialMatch V,
      Counter_Reset = Vec_Reset V\<rparr>"

text \<open>\<open>PrometheusHistogram\<close> and \<open>PrometheusSummary\<close>, which differ in the vector they wrap.\<close>

definition PrometheusHistogram :: "(mvalue \<Rightarrow> 'm \<Rightarrow> 'm) \<Rightarrow> ('m, 'v) vec_ops \<Rightarrow> 'v observation_ops" where
  "PrometheusHistogram observe_metric V =
     \<lparr>Observation_Observe = (\<lambda>v ls. Vec_With V ls (observe_metric v)),
      Observation_Delete = Vec_Delete V,
      Observation_DeletePartialMatch = Vec_DeletePartialMatch V,
      Observation_Reset = Vec_Reset V\<rparr>"

definition PrometheusSummary :: "(mvalue \<Rightarrow> 'm \<Rightarrow> 'm) \<Rightarrow> ('m, 'v) vec_ops \<Rightarrow> 'v observation_ops" where
  "PrometheusSummary observe_metric V =
     \<lparr>Observation_Observe = (\<lambda>v ls. Vec_With V ls (observe_metric v)),
      Observation_Delete = Vec_Delete V,
      Observation_DeletePartialMatch = Vec_DeletePartialMatch V,
      Observation_Reset = Vec_Reset V\<rparr>"

subsection \<open>Several metrics at once\<close>

definition MultiGauge :: "'g gauge_ops \<Rightarrow> 'g list gauge_ops" where
  "MultiGauge G =
     \<lparr>Gauge_Set = (\<lambda>v ls. map (Gauge_Set G v ls)),
      Gauge_Delete = (\<lambda>ls. map (Gauge_Delete G ls)),
      Gauge_DeletePartialMatch = (\<lambda>ls. map (Gauge_DeletePartialMatch G ls)),
      Gauge_Reset = map (Gauge_Reset G)\<rparr>"

definition MultiCounter :: "'g counter_ops \<Rightarrow> 'g list counter_ops" where
  "MultiCounter C =
     \<lparr>Counter_Add = (\<lambda>v ls. map (Counter_Add C v ls)),
      Counter_Inc = (\<lambda>ls. map (Counter_Inc C ls)),
      Counter_Delete = (\<lambda>ls. map (Counter_Delete C ls)),
      Counter_DeletePartialMatch = (\<lambda>ls. map (Counter_DeletePartialMatch C ls)),
      Counter_Reset = map (Counter_Reset C)\<rparr>"

definition MultiObservation :: "'g observation_ops \<Rightarrow> 'g list observation_ops" where
  "MultiObservation H =
     \<lparr>Observation_Observe = (\<lambda>v ls. map (Observation_Observe H v ls)),
      Observation_Delete = (\<lambda>ls. map (Observation_Delete H ls)),
      Observation_DeletePartialMatch = (\<lambda>ls. map (Observation_DeletePartialMatch H ls)),
      Observation_Reset = map (Observation_Reset H)\<rparr>"

section \<open>The contracts\<close>

text \<open>The calls the controller made on the gauge \<open>m\<close> of the family \<open>f\<close>, made on a gauge.\<close>

fun drive :: "'g gauge_ops \<Rightarrow> family \<Rightarrow> metric \<Rightarrow> 'o effect \<Rightarrow> 'g \<Rightarrow> 'g" where
  "drive G f m (GaugeSet f' m' v l) g = (if f' = f \<and> m' = m then Gauge_Set G v l g else g)"
| "drive G f m (GaugeDeletePartialMatch f' m' l) g =
     (if f' = f \<and> m' = m then Gauge_DeletePartialMatch G l g else g)"
| "drive G f m _ g = g"

locale gauge_metric =
  fixes G :: "'g gauge_ops" and series :: "'g \<Rightarrow> series"
  assumes series_set: "series (Gauge_Set G v l g) = (series g)(l \<mapsto> v)"
    and series_delete: "series (Gauge_Delete G l g) = (series g)(l := None)"
    and series_partial: "series (Gauge_DeletePartialMatch G l g)
      = (\<lambda>k. if partial_match l k then None else series g k)"
    and series_reset: "series (Gauge_Reset G g) = Map.empty"
begin

lemma series_drive: "series (drive G f m e g) = gauge_step f m e (series g)"
  by (cases e) (simp_all add: series_set series_partial)

lemma series_run: "series (fold (drive G f m) es g) = fold (gauge_step f m) es (series g)"
  by (induction es arbitrary: g) (simp_all add: series_drive)

lemma series_gauge: "series g = Map.empty \<Longrightarrow> series (fold (drive G f m) (out st) g) = gauge f m st"
  by (simp add: series_run gauge_def)

lemma multi_drive: "drive (MultiGauge G) f m e gs = map (drive G f m e) gs"
  by (cases e) (auto simp: MultiGauge_def intro!: map_idI [symmetric])

lemma multi_run: "fold (drive (MultiGauge G) f m) es gs = map (fold (drive G f m) es) gs"
  by (induction es arbitrary: gs) (simp_all add: multi_drive)

lemma multi_series:
  "\<forall>g \<in> set gs. series g = Map.empty \<Longrightarrow>
   map series (fold (drive (MultiGauge G) f m) (out st) gs) = replicate (length gs) (gauge f m st)"
  by (simp add: multi_run series_gauge map_replicate_const cong: map_cong)

end

text \<open>A gauge vector of Prometheus, and the wrapper as a gauge.\<close>

locale gauge_vec =
  fixes set_metric :: "mvalue \<Rightarrow> 'm \<Rightarrow> 'm" and V :: "('m, 'v) vec_ops" and series :: "'v \<Rightarrow> series"
  assumes with_set: "series (Vec_With V l (set_metric v) g) = (series g)(l \<mapsto> v)"
    and vec_delete: "series (Vec_Delete V l g) = (series g)(l := None)"
    and vec_partial: "series (Vec_DeletePartialMatch V l g)
      = (\<lambda>k. if partial_match l k then None else series g k)"
    and vec_reset: "series (Vec_Reset V g) = Map.empty"
begin

lemmas vec_laws = with_set vec_delete vec_partial vec_reset

end

sublocale gauge_vec \<subseteq> prometheus: gauge_metric "PrometheusGauge set_metric V" series
  by unfold_locales (simp_all add: PrometheusGauge_def vec_laws)

text \<open>The documented behaviour itself as a vector: its state is the map of its series.\<close>

definition reference_vec :: "(mvalue, series) vec_ops" where
  "reference_vec =
     \<lparr>Vec_With = (\<lambda>l f g. g(l \<mapsto> f (case g l of None \<Rightarrow> Seconds 0 | Some x \<Rightarrow> x))),
      Vec_Delete = (\<lambda>l g. g(l := None)),
      Vec_DeletePartialMatch = (\<lambda>l g k. if partial_match l k then None else g k),
      Vec_Reset = (\<lambda>g. Map.empty)\<rparr>"

definition reference_gauge :: "series gauge_ops" where
  "reference_gauge = PrometheusGauge (\<lambda>v x. v) reference_vec"

interpretation reference: gauge_vec "\<lambda>v x. v" reference_vec "\<lambda>g. g"
  by unfold_locales (simp_all add: reference_vec_def)

section \<open>Properties\<close>



end
