(* ===== verification/ClientMetrics.thy ===== *)
theory ClientMetrics
  imports Prelude "HOL-Library.Sublist"
begin

section \<open>Client metrics\<close>

text \<open>
  \<open>metrics/metrics.go\<close>: the adapters that turn the calls of \<open>client-go\<close> into a latency histogram and a
  request counter, and \<open>parsePath\<close>, which reads group, version, kind and subresource off a URL
  path. The second part states what a path of the Kubernetes API means (\<open>api_path\<close>, \<open>render\<close>) and
  proves that parsing inverts rendering.
\<close>

record path_data =
  pd_group :: string
  pd_version :: string
  pd_kind :: string
  pd_subresource :: string

definition parsePath :: "string \<Rightarrow> path_data option go" where
  "parsePath path =
     (let parts = tl (strings_Split CHR ''/'' path)
      in go_bind (go_nth parts 0) (\<lambda>first.
           if first = ''api'' \<or> first = ''apis'' then
             let groupIdx = (if first = ''api'' then 0 else 1)
             in if length parts < groupIdx + 3 then Inr None
                else go_bind (go_nth parts (groupIdx + 2)) (\<lambda>p2.
                  let versionIdx = groupIdx + 1;
                      kindIdx = (if p2 = ''namespaces'' \<and> length parts > groupIdx + 4
                                 then versionIdx + 3 else versionIdx + 1)
                  in go_bind (if length parts = kindIdx + 3 then go_nth parts (kindIdx + 2) else Inr [])
                       (\<lambda>subresource. go_bind (go_nth parts groupIdx) (\<lambda>g.
                        go_bind (go_nth parts versionIdx) (\<lambda>v.
                        go_bind (go_nth parts kindIdx) (\<lambda>k.
                          Inr (Some \<lparr>pd_group = (if groupIdx = 0 then [] else g), pd_version = v,
                                     pd_kind = k, pd_subresource = subresource\<rparr>))))))
           else Inr None))"

fun strings_Contains :: "string \<Rightarrow> string \<Rightarrow> bool" where
  "strings_Contains [] sub = (sub = [])"
| "strings_Contains (c # s) sub = (prefix sub (c # s) \<or> strings_Contains s sub)"

definition name_placeholder :: string where "name_placeholder = ''{name}''"

definition observed_verb :: "string \<Rightarrow> string \<Rightarrow> string" where
  "observed_verb verb path =
     (if verb = ''POST'' then ''CREATE''
      else if verb = ''GET'' then
        (if \<not> strings_Contains path name_placeholder then ''LIST'' else verb)
      else if verb = ''PUT'' then
        (if \<not> strings_Contains path name_placeholder then ''CREATE'' else ''UPDATE'')
      else verb)"

text \<open>The call on the wrapped metric, if there is one: its value and its labels.\<close>

definition LatencyAdapter_Observe :: "string \<Rightarrow> string \<Rightarrow> duration \<Rightarrow> (duration \<times> labels) option go" where
  "LatencyAdapter_Observe verb path latency =
     go_bind (parsePath path) (\<lambda>data.
       Inr (map_option (\<lambda>d. (latency, to_labels
         [(''verb'', observed_verb verb path), (''group'', pd_group d), (''version'', pd_version d),
          (''kind'', pd_kind d), (''subresource'', pd_subresource d)])) data))"

definition ResultAdapter_Increment :: "string \<Rightarrow> string \<Rightarrow> string \<Rightarrow> labels" where
  "ResultAdapter_Increment code method host = to_labels [(''code'', code), (''method'', method)]"

section \<open>What a path means\<close>

text \<open>
  A request of the API: its group (none for the core API), version, namespace if it is namespaced,
  kind (the plural resource name), name if it is about one object, and subresource.
\<close>

record api_path =
  ap_group :: "string option"
  ap_version :: string
  ap_namespace :: "string option"
  ap_kind :: string
  ap_object :: "(string \<times> string option) option"

definition path_segments :: "api_path \<Rightarrow> string list" where
  "path_segments a =
     (case ap_group a of None \<Rightarrow> [''api''] | Some g \<Rightarrow> [''apis'', g])
     @ [ap_version a]
     @ (case ap_namespace a of None \<Rightarrow> [] | Some ns \<Rightarrow> [''namespaces'', ns])
     @ [ap_kind a]
     @ (case ap_object a of None \<Rightarrow> [] | Some (n, None) \<Rightarrow> [n] | Some (n, Some s) \<Rightarrow> [n, s])"

definition render :: "api_path \<Rightarrow> string" where
  "render a = CHR ''/'' # strings_Join (path_segments a) ''/''"

definition slashless :: "api_path \<Rightarrow> bool" where
  "slashless a \<longleftrightarrow> (\<forall>s \<in> set (path_segments a). CHR ''/'' \<notin> set s)"

text \<open>The one request \<open>parsePath\<close> takes for another: a subresource of a namespace object.\<close>

definition namespace_subresource :: "api_path \<Rightarrow> bool" where
  "namespace_subresource a \<longleftrightarrow> ap_namespace a = None \<and> ap_kind a = ''namespaces''
     \<and> (\<exists>n s. ap_object a = Some (n, Some s))"

definition path_data_of :: "api_path \<Rightarrow> path_data" where
  "path_data_of a =
     \<lparr>pd_group = (case ap_group a of None \<Rightarrow> [] | Some g \<Rightarrow> g), pd_version = ap_version a,
      pd_kind = ap_kind a,
      pd_subresource = (case ap_object a of Some (n, Some s) \<Rightarrow> s | _ \<Rightarrow> [])\<rparr>"

lemma path_segments_not_Nil [simp]: "path_segments a \<noteq> []"
  by (simp add: path_segments_def)

lemma split_render:
  assumes "slashless a"
  shows "tl (strings_Split CHR ''/'' (render a)) = path_segments a"
proof -
  have "strings_Split CHR ''/'' (strings_Join (path_segments a) [CHR ''/'']) = path_segments a"
    using assms by (intro strings_Split_Join) (auto simp: slashless_def)
  then show ?thesis by (simp add: render_def)
qed

lemma parse_render:
  assumes "slashless a" "\<not> namespace_subresource a"
  shows "parsePath (render a) = Inr (Some (path_data_of a))"
proof -
  obtain g v ns k ob where a: "a = \<lparr>ap_group = g, ap_version = v, ap_namespace = ns, ap_kind = k, ap_object = ob\<rparr>"
    by (cases a) auto
  consider "ob = None" | n where "ob = Some (n, None)" | n s where "ob = Some (n, Some s)"
    by (metis old.prod.exhaust option.exhaust)
  then show ?thesis
  proof cases
    case 1
    then show ?thesis unfolding parsePath_def split_render [OF assms(1)]
      by (cases g; cases ns) (simp_all add: a path_segments_def path_data_of_def Let_def)
  next
    case (2 n)
    then show ?thesis unfolding parsePath_def split_render [OF assms(1)]
      by (cases g; cases ns) (simp_all add: a path_segments_def path_data_of_def Let_def)
  next
    case (3 n s)
    then show ?thesis using assms(2) unfolding parsePath_def split_render [OF assms(1)]
      by (cases g; cases ns)
        (simp_all add: a path_segments_def path_data_of_def namespace_subresource_def Let_def)
  qed
qed

lemma parse_panics_iff: "(\<exists>p. parsePath path = Inl p) \<longleftrightarrow> CHR ''/'' \<notin> set path"
proof -
  have l: "length (tl (strings_Split CHR ''/'' path)) = count_list path CHR ''/''"
    by (simp add: length_strings_Split)
  have "tl (strings_Split CHR ''/'' path) = [] \<longleftrightarrow> CHR ''/'' \<notin> set path"
    using l by (metis count_list_0_iff length_0_conv)
  moreover have "\<exists>p. parsePath path = Inl p" if "tl (strings_Split CHR ''/'' path) = []"
    using that by (simp add: parsePath_def go_nth_def)
  moreover have "\<exists>x. parsePath path = Inr x" if ne: "tl (strings_Split CHR ''/'' path) \<noteq> []"
  proof -
    obtain ps where ps: "tl (strings_Split CHR ''/'' path) = ps" "0 < length ps"
      using ne by blast
    show ?thesis unfolding parsePath_def ps(1) using ps(2)
      by (simp add: Let_def split: if_split)
  qed
  ultimately show ?thesis by force
qed

lemma contains_append_sep:
  assumes "sep \<notin> set sub" "sub \<noteq> []"
  shows "strings_Contains (x @ sep # y) sub \<longleftrightarrow> strings_Contains x sub \<or> strings_Contains y sub"
proof (induction x)
  case Nil
  have "\<not> prefix sub (sep # y)" using assms by (cases sub) auto
  with assms(2) show ?case by simp
next
  case (Cons c x)
  have "prefix sub (c # x @ sep # y) \<longleftrightarrow> prefix sub (c # x)"
    using assms(1) prefix_append [of sub "c # x" "sep # y"] prefix_Cons [of _ sep y]
    by (auto simp: prefix_def Cons_eq_append_conv append_eq_append_conv2)
  with Cons show ?case by simp
qed

lemma contains_join:
  "CHR ''/'' \<notin> set sub \<Longrightarrow> sub \<noteq> [] \<Longrightarrow> xs \<noteq> [] \<Longrightarrow>
   strings_Contains (strings_Join xs ''/'') sub \<longleftrightarrow> (\<exists>x \<in> set xs. strings_Contains x sub)"
  by (induction xs "''/''" rule: strings_Join.induct) (auto simp: contains_append_sep)

section \<open>Properties\<close>

text \<open>
  \<open>parsePath\<close> panics exactly on a path without a slash; on every other one, however
  short or long, its indices are in range.
\<close>

lemma parse_path_panics_iff: "(\<exists>p. parsePath path = Inl p) \<longleftrightarrow> CHR ''/'' \<notin> set path"
  by (rule parse_panics_iff)


definition demo_path :: api_path where
  "demo_path = \<lparr>ap_group = Some ''coordination.k8s.io'', ap_version = ''v1'',
     ap_namespace = Some ''{namespace}'', ap_kind = ''leases'', ap_object = Some (''{name}'', Some ''status'')\<rparr>"

lemma demo_path_ok: "slashless demo_path" "\<not> namespace_subresource demo_path"
  by (simp_all add: slashless_def path_segments_def demo_path_def namespace_subresource_def)


text \<open>
  For a request whose path names the object with the placeholder \<open>{name}\<close>, and in no
  other segment, the latency is observed once, with the verb of the action: \<open>GET\<close> and \<open>PUT\<close> of a
  collection are \<open>LIST\<close> and \<open>CREATE\<close>, \<open>PUT\<close> of an object is \<open>UPDATE\<close>, \<open>POST\<close> is \<open>CREATE\<close>, any other
  verb stays as it is.
\<close>

theorem latency_verb:
  assumes "slashless a" and "\<not> namespace_subresource a"
    and "\<forall>s \<in> set (path_segments a). strings_Contains s name_placeholder \<longrightarrow> s = name_placeholder"
    and "name_placeholder \<in> set (path_segments a) \<longleftrightarrow> ap_object a \<noteq> None"
  shows "LatencyAdapter_Observe verb (render a) latency = Inr (Some (latency, to_labels
    [(''verb'',
      if verb = ''POST'' then ''CREATE''
      else if verb = ''GET'' \<and> ap_object a = None then ''LIST''
      else if verb = ''PUT'' then (if ap_object a = None then ''CREATE'' else ''UPDATE'')
      else verb),
     (''group'', case ap_group a of None \<Rightarrow> [] | Some g \<Rightarrow> g), (''version'', ap_version a),
     (''kind'', ap_kind a),
     (''subresource'', case ap_object a of Some (n, Some s) \<Rightarrow> s | _ \<Rightarrow> [])]))"
proof -
  have self: "strings_Contains name_placeholder name_placeholder"
    by (simp add: name_placeholder_def)
  have "strings_Contains (strings_Join (path_segments a) ''/'') name_placeholder
      \<longleftrightarrow> (\<exists>x \<in> set (path_segments a). strings_Contains x name_placeholder)"
    by (rule contains_join) (simp_all add: name_placeholder_def)
  also have "\<dots> \<longleftrightarrow> ap_object a \<noteq> None" using self assms(3,4) by blast
  finally have "strings_Contains (strings_Join (path_segments a) ''/'') name_placeholder
      \<longleftrightarrow> ap_object a \<noteq> None" .
  then have "strings_Contains (render a) name_placeholder \<longleftrightarrow> ap_object a \<noteq> None"
    by (simp add: render_def name_placeholder_def)
  then show ?thesis
    by (simp add: LatencyAdapter_Observe_def parse_render [OF assms(1,2)] path_data_of_def observed_verb_def)
qed

theorem latency_verb_witness:
  "LatencyAdapter_Observe ''PUT'' (render demo_path) 5 = Inr (Some (5, to_labels
     [(''verb'', ''UPDATE''), (''group'', ''coordination.k8s.io''), (''version'', ''v1''), (''kind'', ''leases''),
      (''subresource'', ''status'')]))"
proof -
  have "\<forall>s \<in> set (path_segments demo_path). strings_Contains s name_placeholder \<longrightarrow> s = name_placeholder"
    "name_placeholder \<in> set (path_segments demo_path) \<longleftrightarrow> ap_object demo_path \<noteq> None"
    by (simp_all add: path_segments_def demo_path_def name_placeholder_def)
  from latency_verb [OF demo_path_ok this, of "''PUT''" 5] show ?thesis by (simp add: demo_path_def)
qed

text \<open>A request for the status of a namespace is taken for one about objects of a kind \<open>status\<close>.\<close>

lemma namespace_status_misread:
  "parsePath ''/api/v1/namespaces/{name}/status'' = Inr (Some
    \<lparr>pd_group = [], pd_version = ''v1'', pd_kind = ''status'', pd_subresource = []\<rparr>)"
  by code_simp

end
