(* ===== verification/Reconciler.thy ===== *)
theory Reconciler
  imports Prelude
begin

section \<open>Reconcilers with a rate limiter\<close>

text \<open>
  \<open>reconciler/reconciler.go\<close> and \<open>singleton/controller.go\<close>. \<open>AsReconcilerWithRateLimiter\<close> turns the
  \<open>Requeue\<close> flag, which controller-runtime no longer has, into a delay of a rate limiter. A request
  is of any type \<open>'r\<close>. The wrapped reconciler is a function on its own state; the rate limiter is the
  record \<open>rate_limiter_ops\<close> of its methods, with the contract \<open>rate_limiter\<close>: the documentation of
  \<open>workqueue.TypedRateLimiter\<close>. The repository has an implementation of its own, \<open>MockRateLimiter\<close> in
  \<open>reconciler/suite_test.go\<close>, on which the contract is interpreted.
\<close>

record result =
  RequeueAfter :: duration
  Requeue :: bool

text \<open>What controller-runtime is given: its \<open>reconcile.Result\<close>, of which only \<open>RequeueAfter\<close> is used.\<close>

record runtime_result =
  runtime_RequeueAfter :: duration

definition runtime_empty :: runtime_result where
  "runtime_empty = \<lparr>runtime_RequeueAfter = 0\<rparr>"

record ('r, 'l) rate_limiter_ops =
  When :: "'r \<Rightarrow> 'l \<Rightarrow> duration \<times> 'l"
  Forget :: "'r \<Rightarrow> 'l \<Rightarrow> 'l"
  NumRequeues :: "'r \<Rightarrow> 'l \<Rightarrow> int"

definition AsReconcilerWithRateLimiter :: "('r, 'l) rate_limiter_ops
    \<Rightarrow> ('r \<Rightarrow> 's \<Rightarrow> (result \<times> 'e option) \<times> 's) \<Rightarrow> 'r \<Rightarrow> 's \<times> 'l
    \<Rightarrow> (runtime_result \<times> 'e option) \<times> ('s \<times> 'l)" where
  "AsReconcilerWithRateLimiter L reconciler req sl =
     (let (s, l) = sl; ((result, err), s) = reconciler req s
      in if err \<noteq> None then ((runtime_empty, err), (s, l))
         else if RequeueAfter result > 0 then
           ((\<lparr>runtime_RequeueAfter = RequeueAfter result\<rparr>, None), (s, Forget L req l))
         else if Requeue result then
           (let (d, l) = When L req l in ((\<lparr>runtime_RequeueAfter = d\<rparr>, None), (s, l)))
         else ((runtime_empty, None), (s, Forget L req l)))"

text \<open>\<open>AsReconciler\<close> takes the default rate limiter of \<open>workqueue\<close>, here the argument \<open>DefaultLimiter\<close>.\<close>

definition AsReconciler :: "('r, 'l) rate_limiter_ops \<Rightarrow> ('r \<Rightarrow> 's \<Rightarrow> (result \<times> 'e option) \<times> 's)
    \<Rightarrow> 'r \<Rightarrow> 's \<times> 'l \<Rightarrow> (runtime_result \<times> 'e option) \<times> ('s \<times> 'l)" where
  "AsReconciler DefaultLimiter reconciler = AsReconcilerWithRateLimiter DefaultLimiter reconciler"

subsection \<open>Singletons\<close>

text \<open>
  A singleton reconciler has no request; the source adds one empty request to the queue for the one
  event it carries. \<open>RequeueImmediately\<close> is one nanosecond.
\<close>

definition RequeueImmediately :: duration where "RequeueImmediately = 1"

definition reconcilerAdapter :: "('s \<Rightarrow> (result \<times> 'e option) \<times> 's) \<Rightarrow> 'r \<Rightarrow> 's \<Rightarrow> (result \<times> 'e option) \<times> 's" where
  "reconcilerAdapter rec req s = rec s"

definition singleton_AsReconciler :: "('r, 'l) rate_limiter_ops \<Rightarrow> ('s \<Rightarrow> (result \<times> 'e option) \<times> 's)
    \<Rightarrow> 'r \<Rightarrow> 's \<times> 'l \<Rightarrow> (runtime_result \<times> 'e option) \<times> ('s \<times> 'l)" where
  "singleton_AsReconciler L rec = AsReconciler L (reconcilerAdapter rec)"

subsection \<open>The rate limiter of the tests\<close>

record 'r mock_limiter =
  whenFunc :: "('r \<Rightarrow> duration) option"
  numRequeues :: "('r \<rightharpoonup> int) option"
  backoffDuration :: duration

definition requeues_of :: "('r \<rightharpoonup> int) option \<Rightarrow> 'r \<Rightarrow> int" where
  "requeues_of m r = (case m of None \<Rightarrow> 0 | Some f \<Rightarrow> (case f r of None \<Rightarrow> 0 | Some n \<Rightarrow> n))"

definition mock_When :: "'r \<Rightarrow> 'r mock_limiter \<Rightarrow> duration \<times> 'r mock_limiter" where
  "mock_When r m =
     (case whenFunc m of
        Some f \<Rightarrow> (f r, m)
      | None \<Rightarrow>
          let f = (case numRequeues m of None \<Rightarrow> Map.empty | Some f \<Rightarrow> f)
          in (backoffDuration m, m\<lparr>numRequeues := Some (f(r \<mapsto> requeues_of (Some f) r + 1))\<rparr>))"

definition mock_Forget :: "'r \<Rightarrow> 'r mock_limiter \<Rightarrow> 'r mock_limiter" where
  "mock_Forget r m = m\<lparr>numRequeues := map_option (\<lambda>f. f(r := None)) (numRequeues m)\<rparr>"

definition mock_NumRequeues :: "'r \<Rightarrow> 'r mock_limiter \<Rightarrow> int" where
  "mock_NumRequeues r m = requeues_of (numRequeues m) r"

definition MockRateLimiter :: "('r, 'r mock_limiter) rate_limiter_ops" where
  "MockRateLimiter = \<lparr>When = mock_When, Forget = mock_Forget, NumRequeues = mock_NumRequeues\<rparr>"

section \<open>The contract of a rate limiter\<close>

text \<open>The state of a limiter after calls of a reconciler that returned the given outcomes.\<close>

definition limiter_calls :: "('r, 'l) rate_limiter_ops \<Rightarrow> ('r \<times> result \<times> 'e option) list \<Rightarrow> 'l \<Rightarrow> 'l" where
  "limiter_calls L cs l = fold (\<lambda>(r, outcome) l.
     snd (snd (AsReconcilerWithRateLimiter L (\<lambda>_ s. (outcome, s)) r ((), l)))) cs l"

text \<open>How many of the last outcomes for a request, errors aside, asked for a requeue and for no delay of their own.\<close>

definition trailing_requeues :: "'r \<Rightarrow> ('r \<times> result \<times> 'e option) list \<Rightarrow> nat" where
  "trailing_requeues r cs = length (takeWhile (\<lambda>(r', res, err). RequeueAfter res \<le> 0 \<and> Requeue res)
     (rev (filter (\<lambda>(r', res, err). r' = r \<and> err = None) cs)))"

text \<open>
  \<open>When\<close> counts one more failure of the item and \<open>Forget\<close> clears its count; no other item is affected.
  \<open>ok\<close> is the set of states the laws hold in.
\<close>

locale rate_limiter =
  fixes L :: "('r, 'l) rate_limiter_ops" and ok :: "'l \<Rightarrow> bool"
  assumes when_ok: "ok l \<Longrightarrow> ok (snd (When L r l))"
    and forget_ok: "ok l \<Longrightarrow> ok (Forget L r l)"
    and when_count: "ok l \<Longrightarrow> NumRequeues L r' (snd (When L r l))
      = (if r' = r then NumRequeues L r' l + 1 else NumRequeues L r' l)"
    and forget_count: "ok l \<Longrightarrow> NumRequeues L r' (Forget L r l)
      = (if r' = r then 0 else NumRequeues L r' l)"
begin

text \<open>\<open>step\<close> is one call in which the wrapped reconciler returned the given outcome.\<close>

definition step :: "'r \<times> result \<times> 'e option \<Rightarrow> 'l \<Rightarrow> 'l" where
  "step c l = (case c of (r, outcome) \<Rightarrow>
     snd (snd (AsReconcilerWithRateLimiter L (\<lambda>_ s. (outcome, s)) r ((), l))))"

lemma step_ok: "ok l \<Longrightarrow> ok (step c l)"
  by (cases c) (auto simp: step_def AsReconcilerWithRateLimiter_def Let_def when_ok forget_ok
      split: prod.split dest: when_ok [where r = "fst c"])

lemma step_count:
  assumes "ok l"
  shows "NumRequeues L r (step (r', res, err) l) =
    (if r' \<noteq> r \<or> err \<noteq> None then NumRequeues L r l
     else if RequeueAfter res \<le> 0 \<and> Requeue res then NumRequeues L r l + 1 else 0)"
  using assms when_count [OF assms, of r r'] forget_count [OF assms, of r r']
  by (auto simp: step_def AsReconcilerWithRateLimiter_def split: prod.split)

lemma steps_ok: "ok l \<Longrightarrow> ok (fold step cs l)"
  by (induction cs arbitrary: l) (simp_all add: step_ok)

lemma steps_count:
  assumes "ok l"
  shows "NumRequeues L r (fold step cs l) =
    (let mine = filter (\<lambda>(r', res, err). r' = r \<and> err = None) cs;
         backoffs = takeWhile (\<lambda>(r', res, err). RequeueAfter res \<le> 0 \<and> Requeue res) (rev mine)
     in int (length backoffs)
        + (if length backoffs = length mine then NumRequeues L r l else 0))"
  using assms
proof (induction cs rule: rev_induct)
  case Nil
  then show ?case by simp
next
  case (snoc c cs)
  obtain r' res err where c: "c = (r', res, err)" by (cases c) auto
  have "NumRequeues L r (fold step (cs @ [c]) l) = NumRequeues L r (step (r', res, err) (fold step cs l))"
    by (simp add: c)
  also note step_count [OF steps_ok [OF snoc.prems]]
  finally show ?case using snoc.IH [OF snoc.prems] by (simp add: c Let_def)
qed

lemma calls_count:
  assumes "ok l" and "NumRequeues L r l = 0"
  shows "NumRequeues L r (limiter_calls L cs l) = int (trailing_requeues r cs)"
proof -
  have "limiter_calls L cs l = fold step cs l"
    by (simp add: limiter_calls_def step_def [abs_def] case_prod_unfold)
  with steps_count [OF assms(1), of r cs] assms(2) show ?thesis
    by (simp add: trailing_requeues_def Let_def)
qed

end

interpretation mock: rate_limiter MockRateLimiter "\<lambda>m. whenFunc m = None"
  by unfold_locales
    (auto simp: MockRateLimiter_def mock_When_def mock_Forget_def mock_NumRequeues_def requeues_of_def
      split: option.split)

section \<open>Properties\<close>

text \<open>
  The back-off of a request: after any sequence of calls for any requests, the number
  of requeues the rate limiter counts for a request is the number of its calls, back from the
  last, that asked for \<open>Requeue\<close> without a \<open>RequeueAfter\<close>; a call that succeeded otherwise
  starts the count anew, and calls that failed and calls for other requests do not count.
\<close>

theorem requeues_counted:
  assumes "whenFunc l = None" and "\<forall>r. mock_NumRequeues r l = 0"
  shows "mock_NumRequeues r (limiter_calls MockRateLimiter cs l) = int (length
    (takeWhile (\<lambda>(r', res, err). RequeueAfter res \<le> 0 \<and> Requeue res)
      (rev (filter (\<lambda>(r', res, err). r' = r \<and> err = None) cs))))"
  using mock.calls_count [OF assms(1), of r cs] assms(2)
  by (simp add: trailing_requeues_def MockRateLimiter_def)

definition demo_limiter :: "nat mock_limiter" where
  "demo_limiter = \<lparr>whenFunc = None, numRequeues = None, backoffDuration = 5\<rparr>"

theorem requeues_counted_witness:
  "mock_NumRequeues 1 (limiter_calls MockRateLimiter
     [(1, \<lparr>RequeueAfter = 0, Requeue = True\<rparr>, None), (1, \<lparr>RequeueAfter = 0, Requeue = False\<rparr>, None),
      (1, \<lparr>RequeueAfter = 0, Requeue = True\<rparr>, None), (2, \<lparr>RequeueAfter = 0, Requeue = False\<rparr>, None),
      (1, \<lparr>RequeueAfter = 0, Requeue = False\<rparr>, Some ''failed''),
      (1, \<lparr>RequeueAfter = 0, Requeue = True\<rparr>, None)] demo_limiter) = 2"
  by (subst requeues_counted)
    (simp_all add: demo_limiter_def mock_NumRequeues_def requeues_of_def)

text \<open>
  What controller-runtime is told, for any rate limiter: an error is passed on with an
  empty result and the rate limiter is not touched; a positive \<open>RequeueAfter\<close> is passed on even when
  \<open>Requeue\<close> is set too; \<open>Requeue\<close> alone becomes the delay of the rate limiter; otherwise nothing is
  requeued. A singleton's result does not depend on the request.
\<close>

theorem singleton_result:
  fixes rec :: "'s \<Rightarrow> (result \<times> 'e option) \<times> 's"
  assumes "rec s = ((res, err), s')"
  shows "singleton_AsReconciler L rec req (s, l) =
    (case err of
       Some e \<Rightarrow> ((runtime_empty, Some e), (s', l))
     | None \<Rightarrow>
         if 0 < RequeueAfter res
         then ((\<lparr>runtime_RequeueAfter = RequeueAfter res\<rparr>, None), (s', Forget L req l))
         else if Requeue res
         then ((\<lparr>runtime_RequeueAfter = fst (When L req l)\<rparr>, None), (s', snd (When L req l)))
         else ((runtime_empty, None), (s', Forget L req l)))"
  using assms
  by (auto simp: singleton_AsReconciler_def AsReconciler_def AsReconcilerWithRateLimiter_def reconcilerAdapter_def
      split: prod.split option.split)

theorem singleton_result_witness:
  "fst (singleton_AsReconciler MockRateLimiter
      (\<lambda>s. ((\<lparr>RequeueAfter = RequeueImmediately, Requeue = True\<rparr>, None :: string option), s + (1::nat)))
      (7::nat) (0, demo_limiter)) = (\<lparr>runtime_RequeueAfter = 1\<rparr>, None)"
proof -
  let ?rec = "\<lambda>s. ((\<lparr>RequeueAfter = RequeueImmediately, Requeue = True\<rparr>, None :: string option), s + (1::nat))"
  show ?thesis
    using singleton_result [where rec = ?rec and s = 0 and res = "\<lparr>RequeueAfter = RequeueImmediately, Requeue = True\<rparr>"
        and err = None and s' = 1 and L = MockRateLimiter and req = 7 and l = demo_limiter]
    by (simp add: RequeueImmediately_def)
qed

end
