(* ===== verification/Emf.thy ===== *)
theory Emf
  imports Prelude "HOL-Library.AList"
begin

section \<open>Metrics as log entries\<close>

text \<open>
  \<open>aws/metrics/emf.go\<close>: metrics written as log lines in CloudWatch's embedded metric format. A
  \<open>float64\<close> is of an abstract type \<open>'v\<close> with the constant \<open>one\<close>; a JSON document is the tree \<open>json\<close>, with
  the fields of an object in no particular order, and its text is the parameter \<open>marshal\<close>
  (\<open>encoding/json\<close>, which fails for a value like NaN). The writer is the list of the lines written; its errors are not
  modelled. A \<open>range\<close> over a map visits it in the order of its list.
\<close>

datatype 'v json =
    JString string
  | JNumber 'v
  | JTime int
  | JArray "'v json list"
  | JObject "(string \<times> 'v json) list"

record entry =
  entry_namespace :: string
  entry_metrics :: "string list"
  entry_dimensions :: "string list list"

record 'v full_entry = entry +
  entry_fields :: "(string \<times> 'v json) list"

definition emfIdentifier :: string where "emfIdentifier = ''_aws''"

definition NewEntry :: "string \<Rightarrow> 'v full_entry" where
  "NewEntry namespace = \<lparr>entry_namespace = namespace, entry_metrics = [], entry_dimensions = [], entry_fields = []\<rparr>"

definition AddDimensions :: "string list list \<Rightarrow> 'v full_entry \<Rightarrow> 'v full_entry" where
  "AddDimensions ds e = e\<lparr>entry_dimensions := entry_dimensions e @ ds\<rparr>"

definition AddMetric :: "string \<Rightarrow> 'v \<Rightarrow> 'v full_entry \<Rightarrow> 'v full_entry" where
  "AddMetric key v e = e\<lparr>entry_metrics := entry_metrics e @ [key],
     entry_fields := AList.update key (JNumber v) (entry_fields e)\<rparr>"

definition AddProperty :: "string \<Rightarrow> string \<Rightarrow> 'v full_entry \<Rightarrow> 'v full_entry" where
  "AddProperty key v e = e\<lparr>entry_fields := AList.update key (JString v) (entry_fields e)\<rparr>"

text \<open>\<open>Build\<close> before marshalling: the metadata, then the fields over it.\<close>

definition emf_metadata :: "int \<Rightarrow> 'v full_entry \<Rightarrow> 'v json" where
  "emf_metadata now e = JObject
     [(''Timestamp'', JTime (now div 1000000)),
      (''CloudWatchMetrics'', JArray [JObject
        [(''Namespace'', JString (entry_namespace e)),
         (''Dimensions'', JArray (map (\<lambda>d. JArray (map JString d)) (entry_dimensions e))),
         (''Metrics'', JArray (map (\<lambda>m. JObject [(''Name'', JString m)]) (entry_metrics e)))]])]"

definition Build :: "int \<Rightarrow> 'v full_entry \<Rightarrow> (string \<times> 'v json) list" where
  "Build now e = fold (\<lambda>(k, v). AList.update k v) (entry_fields e) [(emfIdentifier, emf_metadata now e)]"

record emf =
  emf_namespace :: string
  emf_name :: string
  emf_dimensions :: "string list list"
  emf_additionalProperties :: "(string \<times> string) list list"

text \<open>The constructors, which give the writer to the methods here.\<close>

definition NewEMF :: "string \<Rightarrow> string \<Rightarrow> string list list \<Rightarrow> (string \<times> string) list list \<Rightarrow> emf" where
  "NewEMF namespace name dimensions additionalProperties =
     \<lparr>emf_namespace = namespace, emf_name = name, emf_dimensions = dimensions,
      emf_additionalProperties = additionalProperties\<rparr>"

definition NewEMFCounter where "NewEMFCounter ns name ds props = NewEMF ns name ds props"
definition NewEMFGauge where "NewEMFGauge ns name ds props = NewEMF ns name ds props"
definition NewEMFObservation where "NewEMFObservation ns name ds props = NewEMF ns name ds props"

definition withDimensions :: "string list list \<Rightarrow> 'v full_entry \<Rightarrow> 'v full_entry" where
  "withDimensions ds e = AddDimensions ds e"

definition withProperties :: "emf \<Rightarrow> 'v full_entry \<Rightarrow> (string \<times> string) list \<Rightarrow> 'v full_entry" where
  "withProperties m e ls =
     fold (\<lambda>props e. fold (\<lambda>(k, v). AddProperty k v) props e) (emf_additionalProperties m)
       (fold (\<lambda>(k, v). AddProperty k v) ls e)"

text \<open>\<open>lo.Must(e.writer.Write([]byte(lo.Must(entry.Build()) + "\n")))\<close>\<close>

type_synonym 'v marshaller = "(string \<times> 'v json) list \<Rightarrow> string + string"

definition write_entry :: "'v marshaller \<Rightarrow> int \<Rightarrow> 'v full_entry \<Rightarrow> string list \<Rightarrow> string list go" where
  "write_entry marshal now e w =
     (case marshal (Build now e) of Inl err \<Rightarrow> Inl (MustFailed err) | Inr s \<Rightarrow> Inr (w @ [s @ [CHR 0x0A]]))"

definition dimensioned_entry :: "emf \<Rightarrow> (string \<times> string) list \<Rightarrow> 'v \<Rightarrow> 'v full_entry" where
  "dimensioned_entry m ls v =
     AddMetric (emf_name m) v
       (withDimensions (emf_dimensions m) (withProperties m (NewEntry (emf_namespace m)) ls))"

definition EMFCounter_Inc where
  "EMFCounter_Inc marshal one now m ls w = write_entry marshal now (dimensioned_entry m ls one) w"

definition EMFCounter_Add where
  "EMFCounter_Add marshal now m v ls w =
     write_entry marshal now
       (AddMetric (emf_name m) v (withProperties m (NewEntry (emf_namespace m)) ls)) w"

definition EMFGauge_Set where
  "EMFGauge_Set marshal now m v ls w = write_entry marshal now (dimensioned_entry m ls v) w"

definition EMFObservation_Observe where
  "EMFObservation_Observe marshal now m v ls w = write_entry marshal now (dimensioned_entry m ls v) w"

text \<open>\<open>Delete\<close>, \<open>DeletePartialMatch\<close> and \<open>Reset\<close> of all three: a log line cannot be taken back.\<close>

definition EMF_Delete :: "labels \<Rightarrow> string list \<Rightarrow> string list" where "EMF_Delete ls w = w"
definition EMF_DeletePartialMatch :: "labels \<Rightarrow> string list \<Rightarrow> string list" where
  "EMF_DeletePartialMatch ls w = w"
definition EMF_Reset :: "string list \<Rightarrow> string list" where "EMF_Reset w = w"

definition EMFGauge_Delete :: "labels \<Rightarrow> string list \<Rightarrow> string list" where "EMFGauge_Delete ls w = w"
definition EMFGauge_DeletePartialMatch :: "labels \<Rightarrow> string list \<Rightarrow> string list" where
  "EMFGauge_DeletePartialMatch ls w = w"
definition EMFGauge_Reset :: "string list \<Rightarrow> string list" where "EMFGauge_Reset w = w"

definition EMFObservation_Delete :: "labels \<Rightarrow> string list \<Rightarrow> string list" where "EMFObservation_Delete ls w = w"
definition EMFObservation_DeletePartialMatch :: "labels \<Rightarrow> string list \<Rightarrow> string list" where
  "EMFObservation_DeletePartialMatch ls w = w"
definition EMFObservation_Reset :: "string list \<Rightarrow> string list" where "EMFObservation_Reset w = w"

section \<open>What is written\<close>

lemma map_of_properties:
  "map_of (entry_fields (fold (\<lambda>(k, v). AddProperty k v) ls e))
     = map_of (entry_fields e) ++ (map_option JString \<circ> map_of (rev ls))"
  by (induction ls arbitrary: e)
    (auto simp: AddProperty_def AList.update_conv' map_add_def fun_eq_iff split: option.split)

lemma properties_frame:
  "entry_namespace (fold (\<lambda>(k, v). AddProperty k v) ls e) = entry_namespace e
   \<and> entry_metrics (fold (\<lambda>(k, v). AddProperty k v) ls e) = entry_metrics e
   \<and> entry_dimensions (fold (\<lambda>(k, v). AddProperty k v) ls e) = entry_dimensions e"
  by (induction ls arbitrary: e) (auto simp: AddProperty_def)

lemma properties_concat:
  "fold (\<lambda>props e. fold (\<lambda>(k, v). AddProperty k v) props e) ps e = fold (\<lambda>(k, v). AddProperty k v) (concat ps) e"
  by (induction ps arbitrary: e) simp_all

lemma withProperties_eq:
  "withProperties m e ls = fold (\<lambda>(k, v). AddProperty k v) (ls @ concat (emf_additionalProperties m)) e"
  by (simp add: withProperties_def properties_concat)

lemma map_of_fold_updates:
  "map_of (fold (\<lambda>(k, v). AList.update k v) ps m) = map_of m ++ map_of (rev ps)"
  by (induction ps arbitrary: m)
    (auto simp: AList.update_conv' map_add_def fun_eq_iff split: option.split)

lemma distinct_fields:
  "distinct (map fst (entry_fields e)) \<Longrightarrow>
   distinct (map fst (entry_fields (fold (\<lambda>(k, v). AddProperty k v) ls e)))"
  by (induction ls arbitrary: e) (auto simp: AddProperty_def AList.distinct_update)

lemma distinct_updates:
  "distinct (map fst m) \<Longrightarrow> distinct (map fst (fold (\<lambda>(k, v). AList.update k v) ps m))"
  by (induction ps arbitrary: m) (auto simp: AList.distinct_update)

lemma map_of_rev_concat:
  "\<forall>p \<in> set ps. distinct (map fst p) \<Longrightarrow> map_of (rev (concat ps)) = foldl (++) Map.empty (map map_of ps)"
  by (induction ps rule: rev_induct) (simp_all add: map_of_rev_distinct)

lemma dom_foldl_maps:
  "dom (foldl (++) Map.empty (map map_of ps)) = (\<Union>p \<in> set ps. fst ` set p)"
  by (induction ps rule: rev_induct) (auto simp: dom_map_of_conv_image_fst)

text \<open>
  The members of a document: the metadata, over it the labels, over these the additional properties, the
  last map first, and over all the value of the metric.
\<close>

definition emf_members :: "emf \<Rightarrow> int \<Rightarrow> string list list \<Rightarrow> (string \<times> string) list \<Rightarrow> 'v \<Rightarrow> string \<Rightarrow> 'v json option" where
  "emf_members m now ds ls v =
     [emfIdentifier \<mapsto> JObject
        [(''Timestamp'', JTime (now div 1000000)),
         (''CloudWatchMetrics'', JArray [JObject
           [(''Namespace'', JString (emf_namespace m)),
            (''Dimensions'', JArray (map (\<lambda>d. JArray (map JString d)) ds)),
            (''Metrics'', JArray [JObject [(''Name'', JString (emf_name m))]])]])]]
     ++ (map_option JString \<circ> (map_of ls ++ foldl (++) Map.empty (map map_of (emf_additionalProperties m))))
     ++ [emf_name m \<mapsto> JNumber v]"

definition is_map :: "(string \<times> 'a) list \<Rightarrow> bool" where
  "is_map l \<longleftrightarrow> distinct (map fst l)"

lemma Build_entry:
  assumes "is_map ls" "\<forall>p \<in> set (emf_additionalProperties m). is_map p"
  shows "map_of (Build now (AddMetric (emf_name m) v
           (AddDimensions ds (withProperties m (NewEntry (emf_namespace m)) ls)))) = emf_members m now ds ls v"
    and "is_map (Build now (AddMetric (emf_name m) v
           (AddDimensions ds (withProperties m (NewEntry (emf_namespace m)) ls))))"
proof -
  let ?e = "withProperties m (NewEntry (emf_namespace m)) ls :: 'a full_entry"
  have fr: "entry_namespace ?e = emf_namespace m" "entry_metrics ?e = []" "entry_dimensions ?e = []"
    by (simp_all add: withProperties_eq properties_frame NewEntry_def)
  have d: "distinct (map fst (AList.update k x (entry_fields ?e)))" for k x
    by (simp add: withProperties_eq NewEntry_def distinct_fields AList.distinct_update)
  have "map_of (rev (ls @ concat (emf_additionalProperties m)))
      = map_of ls ++ foldl (++) Map.empty (map map_of (emf_additionalProperties m))"
    using assms by (simp add: map_of_rev_distinct map_of_rev_concat is_map_def)
  then have f: "map_of (entry_fields ?e) = map_option JString \<circ>
      (map_of ls ++ foldl (++) Map.empty (map map_of (emf_additionalProperties m)))"
    unfolding withProperties_eq map_of_properties by (simp add: NewEntry_def)
  show "map_of (Build now (AddMetric (emf_name m) v (AddDimensions ds ?e))) = emf_members m now ds ls v"
    unfolding Build_def map_of_fold_updates
    by (simp add: AddMetric_def AddDimensions_def fr emf_metadata_def map_of_rev_distinct d
        AList.update_conv' f emf_members_def)
  show "is_map (Build now (AddMetric (emf_name m) v (AddDimensions ds ?e)))"
    unfolding Build_def is_map_def by (rule distinct_updates) simp
qed

text \<open>What is written for a document.\<close>

definition written :: "'v marshaller \<Rightarrow> (string \<times> 'v json) list \<Rightarrow> string list \<Rightarrow> string list go" where
  "written marshal doc w =
     (case marshal doc of Inl err \<Rightarrow> Inl (MustFailed err) | Inr s \<Rightarrow> Inr (w @ [s @ [CHR 0x0A]]))"

text \<open>The four calls that write, the value each writes, and the dimensions it means to write.\<close>

datatype 'v emf_call = CallInc | CallAdd 'v | CallSet 'v | CallObserve 'v

fun emf_apply :: "'v marshaller \<Rightarrow> 'v \<Rightarrow> int \<Rightarrow> emf \<Rightarrow> (string \<times> string) list \<Rightarrow> 'v emf_call
    \<Rightarrow> string list \<Rightarrow> string list go" where
  "emf_apply marshal one now m ls CallInc w = EMFCounter_Inc marshal one now m ls w"
| "emf_apply marshal one now m ls (CallAdd v) w = EMFCounter_Add marshal now m v ls w"
| "emf_apply marshal one now m ls (CallSet v) w = EMFGauge_Set marshal now m v ls w"
| "emf_apply marshal one now m ls (CallObserve v) w = EMFObservation_Observe marshal now m v ls w"

fun call_value :: "'v \<Rightarrow> 'v emf_call \<Rightarrow> 'v" where
  "call_value one CallInc = one"
| "call_value one (CallAdd v) = v"
| "call_value one (CallSet v) = v"
| "call_value one (CallObserve v) = v"

fun call_dimensions :: "emf \<Rightarrow> 'v emf_call \<Rightarrow> string list list" where
  "call_dimensions m (CallAdd v) = []"
| "call_dimensions m _ = emf_dimensions m"

lemma AddDimensions_Nil: "AddDimensions [] (e :: 'v full_entry) = e"
  by (simp add: AddDimensions_def)

lemma emf_apply_eq:
  "emf_apply marshal one now m ls c w =
     written marshal (Build now (AddMetric (emf_name m) (call_value one c)
       (AddDimensions (call_dimensions m c) (withProperties m (NewEntry (emf_namespace m)) ls)))) w"
  by (cases c)
    (simp_all add: EMFCounter_Inc_def EMFCounter_Add_def EMFGauge_Set_def EMFObservation_Observe_def
      write_entry_def written_def dimensioned_entry_def withDimensions_def AddDimensions_Nil)

section \<open>Properties\<close>


definition demo_emf :: emf where
  "demo_emf = \<lparr>emf_namespace = ''ns'', emf_name = ''latency'', emf_dimensions = [[''zone''], [''zone'', ''host'']],
     emf_additionalProperties = [[(''host'', ''h1'')], [(''version'', ''2'')]]\<rparr>"


text \<open>A valid document of the embedded metric format.\<close>

definition valid_emf :: "(string \<times> 'v json) list \<Rightarrow> bool" where
  "valid_emf doc \<longleftrightarrow>
     (\<exists>t ns ds ms. map_of doc emfIdentifier = Some (JObject
        [(''Timestamp'', JTime t), (''CloudWatchMetrics'', JArray [JObject
           [(''Namespace'', JString ns), (''Dimensions'', JArray (map (\<lambda>d. JArray (map JString d)) ds)),
            (''Metrics'', JArray (map (\<lambda>m. JObject [(''Name'', JString m)]) ms))]])])
      \<and> ds \<noteq> [] \<and> (\<forall>m \<in> set ms. \<exists>v. map_of doc m = Some (JNumber v))
      \<and> (\<forall>d \<in> set ds. \<forall>k \<in> set d. \<exists>s. map_of doc k = Some (JString s)))"



text \<open>
  \<open>Add\<close> does not hand the dimensions to the entry, as the other three do: \<open>Add(1)\<close> and \<open>Inc\<close> differ whenever
  dimensions are configured, and what \<open>Add\<close> writes has no dimension set.
\<close>

lemma add_omits_dimensions:
  assumes "is_map ls" and "\<forall>p \<in> set (emf_additionalProperties m). is_map p"
    and "emfIdentifier \<notin> fst ` set ls \<union> (\<Union>p \<in> set (emf_additionalProperties m). fst ` set p)"
    and "emf_name m \<noteq> emfIdentifier" and "emf_dimensions m \<noteq> []"
  shows "\<exists>doc doc'. emf_apply marshal one now m ls CallInc w = written marshal doc w
     \<and> emf_apply marshal one now m ls (CallAdd one) w = written marshal doc' w \<and> map_of doc \<noteq> map_of doc'"
proof -
  obtain doc doc' where doc: "emf_apply marshal one now m ls CallInc w = written marshal doc w"
      "map_of doc = emf_members m now (emf_dimensions m) ls one"
      "emf_apply marshal one now m ls (CallAdd one) w = written marshal doc' w"
      "map_of doc' = emf_members m now [] ls one"
    unfolding emf_apply_eq using Build_entry(1) [OF assms(1,2)] by (metis call_dimensions.simps(1,2) call_value.simps(1,2))
  let ?props = "map_of ls ++ foldl (++) Map.empty (map map_of (emf_additionalProperties m))"
  have "emfIdentifier \<notin> dom ?props"
    using assms(3) by (simp add: dom_foldl_maps dom_map_of_conv_image_fst)
  then have "emf_members m now (emf_dimensions m) ls one emfIdentifier \<noteq> emf_members m now [] ls one emfIdentifier"
    using assms(4,5) by (simp add: emf_members_def map_add_def domIff)
  then have "map_of doc \<noteq> map_of doc'" unfolding doc(2,4) by metis
  with doc(1,3) show ?thesis by blast
qed

end
