(* ===== verification/Middleware.thy ===== *)
theory Middleware
  imports Serrors
begin

section \<open>Structured values of failed AWS requests\<close>

text \<open>
  \<open>aws/middleware/middleware.go\<close>: the middleware that adds the request's service, operation, request id, status
  code and error code to the error of a request. What the code can learn of an error by its type assertions is the
  tag of the error: an HTTP response error has a request id and a pointer to a response with a status code, an API error
  has a code. An integer as an \<open>any\<close> is \<open>num i\<close>. The next handler is an argument, its output and metadata are of
  any type; the registration of the middleware in the stack of the SDK is not modelled.
\<close>

datatype aws_tag =
    ResponseError string "int option"
  | GenericAPIError string
  | OtherType

definition AWSRequestIDLogKey :: string where "AWSRequestIDLogKey = ''aws-request-id''"
definition AWSStatusCodeLogKey :: string where "AWSStatusCodeLogKey = ''aws-status-code''"
definition AWSServiceNameLogKey :: string where "AWSServiceNameLogKey = ''aws-service-name''"
definition AWSOperationNameLogKey :: string where "AWSOperationNameLogKey = ''aws-operation-name''"
definition AWSErrorCodeLogKey :: string where "AWSErrorCodeLogKey = ''aws-error-code''"

lemmas aws_keys = AWSRequestIDLogKey_def AWSStatusCodeLogKey_def AWSServiceNameLogKey_def
  AWSOperationNameLogKey_def AWSErrorCodeLogKey_def

text \<open>What one error of the chain adds: the two type assertions of the loop's body.\<close>

fun error_values :: "(int \<Rightarrow> 'v) \<Rightarrow> (aws_tag, 'v) err \<Rightarrow> 'v any list go" where
  "error_values num (Other (ResponseError rid None) m e) = Inl NilDereference"
| "error_values num (Other (ResponseError rid (Some code)) m e) =
     Inr [AString AWSRequestIDLogKey, AString rid, AString AWSStatusCodeLogKey, AOther (num code)]"
| "error_values num (Other (GenericAPIError code) m e) = Inr [AString AWSErrorCodeLogKey, AString code]"
| "error_values num _ = Inr []"

function collect :: "(int \<Rightarrow> 'v) \<Rightarrow> 'v any list \<Rightarrow> (aws_tag, 'v) err option \<Rightarrow> 'v any list go" where
  "collect num values None = Inr values"
| "collect num values (Some temp) =
     go_bind (error_values num temp) (\<lambda>vs. collect num (values @ vs) (errors_Unwrap temp))"
  by pat_completeness auto
termination
  by (relation "measure (\<lambda>(num, values, e). case e of None \<Rightarrow> 0 | Some e \<Rightarrow> Suc (size e))")
    (auto split: option.split dest: size_errors_Unwrap)

definition StructuredErrorHandler ::
  "(int \<Rightarrow> 'v) \<Rightarrow> ('ctx \<Rightarrow> string) \<Rightarrow> ('ctx \<Rightarrow> string) \<Rightarrow> ('ctx \<Rightarrow> 'i \<Rightarrow> 'out \<times> 'meta \<times> (aws_tag, 'v) err option)
     \<Rightarrow> 'ctx \<Rightarrow> 'i \<Rightarrow> ('out \<times> 'meta \<times> (aws_tag, 'v) err option) go" where
  "StructuredErrorHandler num GetServiceID GetOperationName HandleDeserialize ctx input =
     (case HandleDeserialize ctx input of
        (out, metadata, None) \<Rightarrow> Inr (out, metadata, None)
      | (out, metadata, Some err) \<Rightarrow>
          go_bind (collect num
             [AString AWSServiceNameLogKey, AString (GetServiceID ctx),
              AString AWSOperationNameLogKey, AString (GetOperationName ctx)] (Some err))
            (\<lambda>values. go_bind (Wrap (Some err) values) (\<lambda>err'. Inr (out, metadata, Some err'))))"

section \<open>What is collected\<close>

text \<open>
  The response errors and the codes of the API errors of a chain, the outermost first, and the responses that
  are missing.
\<close>

fun response_of :: "(aws_tag, 'v) err \<Rightarrow> (string \<times> int) list" where
  "response_of (Other (ResponseError rid (Some code)) m e) = [(rid, code)]"
| "response_of _ = []"

fun code_of :: "(aws_tag, 'v) err \<Rightarrow> string list" where
  "code_of (Other (GenericAPIError code) m e) = [code]"
| "code_of _ = []"

fun no_response :: "(aws_tag, 'v) err \<Rightarrow> bool" where
  "no_response (Other (ResponseError rid None) m e) = True"
| "no_response _ = False"

definition responses :: "(aws_tag, 'v) err \<Rightarrow> (string \<times> int) list" where
  "responses e = concat (map response_of (chain e))"

definition codes :: "(aws_tag, 'v) err \<Rightarrow> string list" where
  "codes e = concat (map code_of (chain e))"

definition ok_values :: "(int \<Rightarrow> 'v) \<Rightarrow> (aws_tag, 'v) err \<Rightarrow> 'v any list" where
  "ok_values num e =
     concat (map (\<lambda>(rid, code). [AString AWSRequestIDLogKey, AString rid, AString AWSStatusCodeLogKey,
       AOther (num code)]) (response_of e)) @ concat (map (\<lambda>code. [AString AWSErrorCodeLogKey, AString code]) (code_of e))"

lemma error_values_eq:
  "error_values num e = (if no_response e then Inl NilDereference else Inr (ok_values num e))"
  by (induction num e rule: error_values.induct) (simp_all add: ok_values_def)

lemma chain_Unwrap: "chain e = e # (case errors_Unwrap e of None \<Rightarrow> [] | Some e' \<Rightarrow> chain e')"
  by (cases e) simp_all

lemma collect_chain:
  "collect num vals (Some e) =
     (if \<exists>e' \<in> set (chain e). no_response e' then Inl NilDereference
      else Inr (vals @ concat (map (ok_values num) (chain e))))"
proof (induction num vals "Some e" arbitrary: e rule: collect.induct)
  case (2 num vals e)
  show ?case
  proof (cases "errors_Unwrap e")
    case None
    then show ?thesis by (simp add: error_values_eq chain_Unwrap [of e])
  next
    case (Some e')
    show ?thesis
      using 2 [of e' "ok_values num e"] Some by (simp add: error_values_eq chain_Unwrap [of e])
  qed
qed

text \<open>All keys are strings, and the last value given for a key is the one that is kept.\<close>

declare collect.simps [simp del]

lemma string_keys_append:
  "string_keys xs \<Longrightarrow> string_keys ys \<Longrightarrow> string_keys (xs @ ys) \<and> pairs (xs @ ys) = pairs xs @ pairs ys"
  by (induction xs rule: string_keys.induct) auto

lemma ok_values_keys:
  "string_keys (ok_values num e) \<and> pairs (ok_values num e) =
     concat (map (\<lambda>(rid, code). [(AWSRequestIDLogKey, AString rid), (AWSStatusCodeLogKey, AOther (num code))]) (response_of e))
     @ map (\<lambda>code. (AWSErrorCodeLogKey, AString code)) (code_of e)"
  by (induction num e rule: error_values.induct) (simp_all add: ok_values_def)

lemma concat_values_keys:
  "string_keys (concat (map (ok_values num) es))
   \<and> pairs (concat (map (ok_values num) es)) = concat (map (\<lambda>e. pairs (ok_values num e)) es)"
  by (induction es) (simp_all add: string_keys_append ok_values_keys)

text \<open>The innermost of a list.\<close>

definition innermost :: "'a list \<Rightarrow> 'a option" where
  "innermost xs = (if xs = [] then None else Some (last xs))"

lemma innermost_simps [simp]: "innermost [] = None" "innermost [x] = Some x"
  by (simp_all add: innermost_def)

lemma innermost_append: "innermost (xs @ ys) = (case innermost ys of None \<Rightarrow> innermost xs | Some y \<Rightarrow> Some y)"
  by (simp add: innermost_def)

definition recorded :: "(int \<Rightarrow> 'v) \<Rightarrow> string \<Rightarrow> string \<Rightarrow> (aws_tag, 'v) err \<Rightarrow> string \<Rightarrow> 'v any option" where
  "recorded num service operation e =
     [AWSServiceNameLogKey \<mapsto> AString service, AWSOperationNameLogKey \<mapsto> AString operation]
     ++ (case innermost (responses e) of None \<Rightarrow> Map.empty
         | Some (rid, code) \<Rightarrow> [AWSRequestIDLogKey \<mapsto> AString rid, AWSStatusCodeLogKey \<mapsto> AOther (num code)])
     ++ (case innermost (codes e) of None \<Rightarrow> Map.empty | Some code \<Rightarrow> [AWSErrorCodeLogKey \<mapsto> AString code])"

lemma recorded_at:
  "recorded num svc opn e AWSErrorCodeLogKey = map_option AString (innermost (codes e))"
  "recorded num svc opn e AWSOperationNameLogKey = Some (AString opn)"
  "recorded num svc opn e AWSRequestIDLogKey = map_option (\<lambda>(rid, code). AString rid) (innermost (responses e))"
  "recorded num svc opn e AWSServiceNameLogKey = Some (AString svc)"
  "recorded num svc opn e AWSStatusCodeLogKey = map_option (\<lambda>(rid, code). AOther (num code)) (innermost (responses e))"
  by (simp_all add: recorded_def aws_keys split: option.split prod.split)

lemma recorded_pairs:
  "map_of (rev (concat (map (\<lambda>e. pairs (ok_values num e)) es)))
   = (case innermost (concat (map response_of es)) of None \<Rightarrow> Map.empty
         | Some (rid, code) \<Rightarrow> [AWSRequestIDLogKey \<mapsto> AString rid, AWSStatusCodeLogKey \<mapsto> AOther (num code)])
     ++ (case innermost (concat (map code_of es)) of None \<Rightarrow> Map.empty | Some code \<Rightarrow> [AWSErrorCodeLogKey \<mapsto> AString code])"
proof (induction es rule: rev_induct)
  case (snoc e es)
  show ?case
    using snoc
    by (induction num e rule: error_values.induct)
      (auto simp: ok_values_keys innermost_append fun_eq_iff aws_keys map_add_def split: option.split prod.split)
qed simp

lemma aws_keys_distinct [simp]: "AWSServiceNameLogKey \<noteq> AWSOperationNameLogKey"
  by (simp add: aws_keys)

lemma handler_wraps:
  assumes "HandleDeserialize ctx input = (out, metadata, Some err)"
    and "\<not> (\<exists>e \<in> set (chain err). no_response e)"
  shows "\<exists>kv. StructuredErrorHandler num svc opn HandleDeserialize ctx input
       = Inr (out, metadata, Some (Structured (Some err) kv))
     \<and> distinct (map fst kv) \<and> map_of kv = recorded num (svc ctx) (opn ctx) err"
proof -
  let ?first = "[AString AWSServiceNameLogKey, AString (svc ctx), AString AWSOperationNameLogKey, AString (opn ctx)]"
  let ?rest = "concat (map (ok_values num) (chain err))"
  let ?kv = "fold (\<lambda>(k, v). AList.update k v) (pairs (?first @ ?rest)) []"
  have "map_of ?kv = map_of (rev (concat (map (\<lambda>e. pairs (ok_values num e)) (chain err)))
      @ [(AWSOperationNameLogKey, AString (opn ctx)), (AWSServiceNameLogKey, AString (svc ctx))])"
    by (simp add: map_of_fold_update concat_values_keys fun_upd_twist [OF aws_keys_distinct] del: rev_concat)
  also have "\<dots> = recorded num (svc ctx) (opn ctx) err"
    unfolding map_of_append recorded_pairs
    by (simp add: recorded_def responses_def codes_def fun_upd_twist [OF aws_keys_distinct])
  finally have "map_of ?kv = recorded num (svc ctx) (opn ctx) err" .
  moreover have "StructuredErrorHandler num svc opn HandleDeserialize ctx input
      = Inr (out, metadata, Some (Structured (Some err) ?kv))"
    using assms by (simp add: StructuredErrorHandler_def collect_chain Wrap_eq concat_values_keys)
  moreover have "distinct (map fst ?kv)" by (rule distinct_fold_update) simp
  ultimately show ?thesis by blast
qed

lemma filter_sorted_set:
  fixes ks :: "'a::linorder list"
  assumes "sorted_wrt (<) ks" and "D \<subseteq> set ks"
  shows "sorted_list_of_set D = filter (\<lambda>k. k \<in> D) ks"
proof -
  have "D = set (filter (\<lambda>k. k \<in> D) ks)" using assms(2) by auto
  moreover have "sorted_wrt (<) (filter (\<lambda>k. k \<in> D) ks)" using assms(1) by (rule sorted_wrt_filter)
  ultimately show ?thesis
    by (metis sorted_list_of_set.idem_if_sorted_distinct strict_sorted_iff)
qed

lemma aws_keys_sorted:
  "sorted_wrt (<) [AWSErrorCodeLogKey, AWSOperationNameLogKey, AWSRequestIDLogKey, AWSServiceNameLogKey,
     AWSStatusCodeLogKey]"
  by code_simp

section \<open>Properties\<close>

text \<open>
  Property C26. A request that succeeds passes unchanged. The error of one that fails is wrapped once,
  output and metadata are unchanged, and the wrapper has the service and the operation, the request id and the status
  code of the innermost response error, and the code of the innermost API error, where the chain has one. It
  panics exactly when a response error of the chain has no response.
\<close>

theorem middleware_records:
  "case HandleDeserialize ctx input of
     (out, metadata, None) \<Rightarrow>
       StructuredErrorHandler num svc opn HandleDeserialize ctx input = Inr (out, metadata, None)
   | (out, metadata, Some err) \<Rightarrow>
       (if \<exists>e \<in> set (chain err). no_response e
        then StructuredErrorHandler num svc opn HandleDeserialize ctx input = Inl NilDereference
        else \<exists>kv. StructuredErrorHandler num svc opn HandleDeserialize ctx input
               = Inr (out, metadata, Some (Structured (Some err) kv))
             \<and> distinct (map fst kv) \<and> map_of kv = recorded num (svc ctx) (opn ctx) err)"
proof -
  obtain out metadata e where h: "HandleDeserialize ctx input = (out, metadata, e)" by (metis prod_cases3)
  show ?thesis
  proof (cases e)
    case (Some err)
    with h handler_wraps [of HandleDeserialize ctx input out metadata err] show ?thesis
      by (simp add: StructuredErrorHandler_def collect_chain)
  qed (simp add: h StructuredErrorHandler_def)
qed

definition demo_aws_err :: "(aws_tag, int) err" where
  "demo_aws_err = Other OtherType ''operation error'' (Some (Other (ResponseError ''r-1'' (Some 403)) ''https response error''
     (Some (Other (GenericAPIError ''AccessDenied'') ''api error'' None))))"

theorem middleware_records_witness:
  "\<exists>kv. StructuredErrorHandler (\<lambda>i. i) (\<lambda>_. ''EC2'') (\<lambda>_. ''RunInstances'') (\<lambda>_ _. ((), (), Some demo_aws_err)) () ()
       = Inr ((), (), Some (Structured (Some demo_aws_err) kv))
     \<and> map_of kv AWSStatusCodeLogKey = Some (AOther 403)
     \<and> map_of kv AWSErrorCodeLogKey = Some (AString ''AccessDenied'')"
  using middleware_records [where HandleDeserialize = "\<lambda>_ _. ((), (), Some demo_aws_err)" and ctx = "()"
      and input = "()" and num = "\<lambda>i. i" and svc = "\<lambda>_. ''EC2''" and opn = "\<lambda>_. ''RunInstances''"]
  by (auto simp: demo_aws_err_def recorded_def responses_def codes_def aws_keys)

text \<open>
  Property C27. What the structured logger adds for the error of a failed request whose own chain has
  no structured values: the five values in the order of their keys, each at most once.
\<close>

theorem middleware_logged:
  assumes "multierr_Errors_ok E" and "HandleDeserialize ctx input = (out, metadata, Some err)"
    and "\<forall>e \<in> set (chain err). \<exists>x m e'. e = Other x m e'"
    and "StructuredErrorHandler num svc opn HandleDeserialize ctx input = Inr (out, metadata, Some e')"
  shows "Logger_Error E K l (Some e') msg kvs = sink_Error K (logger_sink l) (Some e') msg (kvs
     @ (case innermost (codes err) of None \<Rightarrow> [] | Some code \<Rightarrow> [AString AWSErrorCodeLogKey, AString code])
     @ [AString AWSOperationNameLogKey, AString (opn ctx)]
     @ (case innermost (responses err) of None \<Rightarrow> [] | Some (rid, code) \<Rightarrow> [AString AWSRequestIDLogKey, AString rid])
     @ [AString AWSServiceNameLogKey, AString (svc ctx)]
     @ (case innermost (responses err) of None \<Rightarrow> [] | Some (rid, code) \<Rightarrow> [AString AWSStatusCodeLogKey, AOther (num code)]))"
proof -
  let ?r = "recorded num (svc ctx) (opn ctx) err"
  have "\<not> (\<exists>e \<in> set (chain err). no_response e)"
  proof
    assume "\<exists>e \<in> set (chain err). no_response e"
    then show False using assms(2,4) by (simp add: StructuredErrorHandler_def collect_chain)
  qed
  from handler_wraps [of HandleDeserialize ctx input out metadata err num svc opn, OF assms(2) this] obtain kv where
    kv: "e' = Structured (Some err) kv" "distinct (map fst kv)" "map_of kv = ?r"
    using assms(4) by auto
  have E: "E e = [e]" if "e \<in> set (chain err)" for e
    using assms(1,3) that by (auto simp: multierr_Errors_ok_def)
  have "concat (map E (chain err)) = chain err"
    using E by (induction "chain err" rule: list.induct) (simp_all add: map_idI cong: map_cong)
  then have v: "visited E e' = e' # chain err"
    using assms(1) by (simp add: visited_def kv(1) multierr_Errors_ok_def)
  have "values_at k es = []" if "\<forall>e \<in> set es. \<exists>x m e'. e = Other x m e'" for k and es :: "(aws_tag, 'a) err list"
    using that by (induction es) auto
  then have at: "values_at k (visited E e') = (case ?r k of None \<Rightarrow> [] | Some v \<Rightarrow> [v])" for k
    using assms(3) by (simp add: v, simp add: kv)
  have dk: "\<forall>e \<in> set (visited E e'). distinct_keys e"
    using assms(3) kv(1,2) unfolding v by auto
  have "{k. values_at k (visited E e') \<noteq> []} = dom ?r" by (auto simp: at dom_def split: option.splits)
  moreover have "sorted_list_of_set (dom ?r) = filter (\<lambda>k. k \<in> dom ?r) [AWSErrorCodeLogKey, AWSOperationNameLogKey,
      AWSRequestIDLogKey, AWSServiceNameLogKey, AWSStatusCodeLogKey]"
    by (rule filter_sorted_set [OF aws_keys_sorted])
      (auto simp: recorded_def split: option.splits if_splits)
  ultimately show ?thesis
    unfolding Logger_Error_def kv(1) UnwrapValues_eq [OF dk [unfolded kv(1)]] at [unfolded kv(1)]
    by (cases "innermost (codes err)"; cases "innermost (responses err)")
      (auto simp: recorded_at value_entry_def domIff)
qed

theorem middleware_logged_witness:
  "\<exists>e'. StructuredErrorHandler (\<lambda>i. i) (\<lambda>_. ''EC2'') (\<lambda>_. ''RunInstances'') (\<lambda>_ _. ((), (), Some demo_aws_err)) () ()
       = Inr ((), (), Some e')
     \<and> Logger_Error demo_Errors list_sink \<lparr>logger_name = ''l'', logger_sink = []\<rparr> (Some e') ''failed'' [] [] = [(Some e', ''failed'',
         [AString AWSErrorCodeLogKey, AString ''AccessDenied'', AString AWSOperationNameLogKey, AString ''RunInstances'',
          AString AWSRequestIDLogKey, AString ''r-1'', AString AWSServiceNameLogKey, AString ''EC2'',
          AString AWSStatusCodeLogKey, AOther 403])]"
proof -
  let ?h = "\<lambda>(_ :: unit) (_ :: unit). ((), (), Some demo_aws_err)"
  obtain kv where kv: "StructuredErrorHandler (\<lambda>i. i) (\<lambda>_. ''EC2'') (\<lambda>_. ''RunInstances'') ?h () ()
      = Inr ((), (), Some (Structured (Some demo_aws_err) kv))"
    using handler_wraps [of ?h "()" "()" "()" "()" demo_aws_err "\<lambda>i. i" "\<lambda>_. ''EC2''" "\<lambda>_. ''RunInstances''"]
    by (auto simp: demo_aws_err_def)
  have "\<forall>e \<in> set (chain demo_aws_err). \<exists>x m e'. e = Other x m e'"
    by (simp add: demo_aws_err_def)
  from middleware_logged [OF demo_Errors_ok refl this kv, where K = list_sink and l = "\<lparr>logger_name = ''l'', logger_sink = []\<rparr>"] kv show ?thesis
    by (auto simp: demo_aws_err_def responses_def codes_def list_sink_Error)
qed

end
