(* ===== verification/Mock.thy ===== *)
theory Mock
  imports Prelude "HOL-Library.Word"
begin

section \<open>Mock functions\<close>

text \<open>
  \<open>mock/atomic.go\<close> and \<open>mock/function.go\<close>. A pointer is an option. Every method of the three atomic types holds
  its mutex from its first to its last statement, so each is one function on the value the mutex guards; \<open>Invoke\<close>
  is several of them in sequence, and calls of \<open>Invoke\<close> may interleave between two of them. The JSON encoder and decoder of
  \<open>clone\<close> are parameters (\<open>codec\<close>), as is the function that a mock falls back to. The two counters are 32-bit
  integers that wrap around.
\<close>

record 'a codec =
  Encode :: "'a option \<Rightarrow> string + string"
  Decode :: "string \<Rightarrow> string + 'a"

definition clone :: "'a codec \<Rightarrow> 'a option \<Rightarrow> 'a go" where
  "clone C v =
     (case Encode C v of
        Inl err \<Rightarrow> Inl (Fatal err)
      | Inr buf \<Rightarrow> (case Decode C buf of Inl err \<Rightarrow> Inl (Fatal err) | Inr cp \<Rightarrow> Inr cp))"

subsection \<open>atomicPtr\<close>

definition ptr_Set :: "'a option \<Rightarrow> 'a option \<Rightarrow> 'a option" where "ptr_Set v a = v"
definition ptr_IsNil :: "'a option \<Rightarrow> bool" where "ptr_IsNil a \<longleftrightarrow> a = None"
definition ptr_Clone :: "'a codec \<Rightarrow> 'a option \<Rightarrow> 'a go" where "ptr_Clone C a = clone C a"
definition ptr_Reset :: "'a option \<Rightarrow> 'a option" where "ptr_Reset a = None"

subsection \<open>atomicError\<close>

record 'e atomic_error =
  error_err :: "'e option"
  error_calls :: int
  error_maxCalls :: int

definition error_Reset :: "'e atomic_error \<Rightarrow> 'e atomic_error" where
  "error_Reset e = e\<lparr>error_err := None, error_calls := 0, error_maxCalls := 0\<rparr>"

definition error_IsNil :: "'e atomic_error \<Rightarrow> bool" where
  "error_IsNil e \<longleftrightarrow> error_err e = None"

definition error_Get :: "'e atomic_error \<Rightarrow> 'e option \<times> 'e atomic_error" where
  "error_Get e =
     (if error_calls e \<ge> error_maxCalls e then (None, e)
      else let e = e\<lparr>error_calls := error_calls e + 1\<rparr> in (error_err e, e))"

definition error_Set :: "'e option \<Rightarrow> ('e atomic_error \<Rightarrow> 'e atomic_error) list \<Rightarrow> 'e atomic_error
    \<Rightarrow> 'e atomic_error" where
  "error_Set err opts e =
     (let e = fold (\<lambda>opt. opt) opts (e\<lparr>error_err := err\<rparr>)
      in if error_maxCalls e = 0 then e\<lparr>error_maxCalls := 1\<rparr> else e)"

subsection \<open>atomicPtrSlice\<close>

definition slice_Reset :: "'a list \<Rightarrow> 'a list" where "slice_Reset a = []"

definition slice_Add :: "'a codec \<Rightarrow> 'a option \<Rightarrow> 'a list \<Rightarrow> 'a list go" where
  "slice_Add C input a = go_bind (clone C input) (\<lambda>cp. Inr (a @ [cp]))"

definition slice_Len :: "'a list \<Rightarrow> nat" where "slice_Len a = length a"

definition slice_Pop :: "'a list \<Rightarrow> ('a \<times> 'a list) go" where
  "slice_Pop a = (if length a = 0 then Inl IndexOutOfRange else Inr (last a, butlast a))"

text \<open>The callback acts on a state of its own.\<close>

fun slice_ForEach :: "'a codec \<Rightarrow> ('a \<Rightarrow> 's \<Rightarrow> 's) \<Rightarrow> 'a list \<Rightarrow> 's \<Rightarrow> 's go" where
  "slice_ForEach C fn [] s = Inr s"
| "slice_ForEach C fn (t # a) s = go_bind (clone C (Some t)) (\<lambda>cp. slice_ForEach C fn a (fn cp s))"

subsection \<open>Function\<close>

record ('i, 'o, 'e) mock_function =
  Output :: "'o option"
  CalledWithInput :: "'i list"
  MockError :: "'e atomic_error"
  successfulCalls :: "32 word"
  failedCalls :: "32 word"

definition mock_Reset :: "('i, 'o, 'e) mock_function \<Rightarrow> ('i, 'o, 'e) mock_function" where
  "mock_Reset m =
     \<lparr>Output = ptr_Reset (Output m), CalledWithInput = slice_Reset (CalledWithInput m),
      MockError = error_Reset (MockError m), successfulCalls = 0, failedCalls = 0\<rparr>"

definition Invoke :: "'i codec \<Rightarrow> 'o codec \<Rightarrow> ('i option \<Rightarrow> 'o option \<times> 'e option) \<Rightarrow> 'i option
    \<Rightarrow> ('i, 'o, 'e) mock_function \<Rightarrow> (('o option \<times> 'e option) \<times> ('i, 'o, 'e) mock_function) go" where
  "Invoke I Q defaultTransformer input m =
     (let (err, e) = error_Get (MockError m);
          m = m\<lparr>MockError := e\<rparr>
      in if err \<noteq> None then Inr ((None, err), m\<lparr>failedCalls := failedCalls m + 1\<rparr>)
         else go_bind (slice_Add I input (CalledWithInput m)) (\<lambda>vs.
           let m = m\<lparr>CalledWithInput := vs\<rparr>
           in if \<not> ptr_IsNil (Output m)
              then let m = m\<lparr>successfulCalls := successfulCalls m + 1\<rparr>
                   in go_bind (ptr_Clone Q (Output m)) (\<lambda>cp. Inr ((Some cp, None), m))
              else let (out, err) = defaultTransformer input
                   in if err \<noteq> None then Inr ((out, err), m\<lparr>failedCalls := failedCalls m + 1\<rparr>)
                      else Inr ((out, err), m\<lparr>successfulCalls := successfulCalls m + 1\<rparr>)))"

definition SuccessfulCalls :: "('i, 'o, 'e) mock_function \<Rightarrow> int" where
  "SuccessfulCalls m = sint (successfulCalls m)"

definition FailedCalls :: "('i, 'o, 'e) mock_function \<Rightarrow> int" where
  "FailedCalls m = sint (failedCalls m)"

definition Calls :: "('i, 'o, 'e) mock_function \<Rightarrow> int" where
  "Calls m = SuccessfulCalls m + FailedCalls m"

section \<open>Invoke in steps\<close>

text \<open>
  The statements of \<open>Invoke\<close> that touch shared state, one step each. \<open>Failed\<close> is the return of the error,
  \<open>Returned\<close> one of the other two.
\<close>

datatype ('o, 'e) pc =
    AtGet | AtFail 'e | Failed 'e
  | AtAdd | AtIsNil | AtCount | AtClone
  | AtTransform | AtResult "'o option" "'e option"
  | Returned "'o option" "'e option"

fun invoke_step :: "'i codec \<Rightarrow> 'o codec \<Rightarrow> ('i option \<Rightarrow> 'o option \<times> 'e option) \<Rightarrow> 'i option \<Rightarrow> ('o, 'e) pc
    \<Rightarrow> ('i, 'o, 'e) mock_function \<Rightarrow> (('o, 'e) pc \<times> ('i, 'o, 'e) mock_function) go" where
  "invoke_step I Q tr x AtGet m =
     (let (err, e) = error_Get (MockError m)
      in Inr (case err of None \<Rightarrow> AtAdd | Some err \<Rightarrow> AtFail err, m\<lparr>MockError := e\<rparr>))"
| "invoke_step I Q tr x (AtFail e) m = Inr (Failed e, m\<lparr>failedCalls := failedCalls m + 1\<rparr>)"
| "invoke_step I Q tr x AtAdd m =
     go_bind (slice_Add I x (CalledWithInput m)) (\<lambda>vs. Inr (AtIsNil, m\<lparr>CalledWithInput := vs\<rparr>))"
| "invoke_step I Q tr x AtIsNil m = Inr (if \<not> ptr_IsNil (Output m) then AtCount else AtTransform, m)"
| "invoke_step I Q tr x AtCount m = Inr (AtClone, m\<lparr>successfulCalls := successfulCalls m + 1\<rparr>)"
| "invoke_step I Q tr x AtClone m =
     go_bind (ptr_Clone Q (Output m)) (\<lambda>cp. Inr (Returned (Some cp) None, m))"
| "invoke_step I Q tr x AtTransform m = Inr (case tr x of (out, err) \<Rightarrow> AtResult out err, m)"
| "invoke_step I Q tr x (AtResult out err) m =
     Inr (Returned out err,
          if err \<noteq> None then m\<lparr>failedCalls := failedCalls m + 1\<rparr>
          else m\<lparr>successfulCalls := successfulCalls m + 1\<rparr>)"
| "invoke_step I Q tr x (Failed e) m = Inr (Failed e, m)"
| "invoke_step I Q tr x (Returned out err) m = Inr (Returned out err, m)"

fun result_of :: "('o, 'e) pc \<Rightarrow> ('o option \<times> 'e option) option" where
  "result_of (Failed e) = Some (None, Some e)"
| "result_of (Returned out err) = Some (out, err)"
| "result_of _ = None"

text \<open>A single invocation that nothing interrupts; five steps are enough.\<close>

fun run_steps :: "'i codec \<Rightarrow> 'o codec \<Rightarrow> ('i option \<Rightarrow> 'o option \<times> 'e option) \<Rightarrow> 'i option \<Rightarrow> nat \<Rightarrow> ('o, 'e) pc
    \<Rightarrow> ('i, 'o, 'e) mock_function \<Rightarrow> (('o, 'e) pc \<times> ('i, 'o, 'e) mock_function) go" where
  "run_steps I Q tr x 0 p m = Inr (p, m)"
| "run_steps I Q tr x (Suc n) p m = go_bind (invoke_step I Q tr x p m) (\<lambda>(p, m). run_steps I Q tr x n p m)"

lemma Invoke_run_steps:
  "Invoke I Q tr x m = go_bind (run_steps I Q tr x 5 AtGet m) (\<lambda>(p, m). Inr (the (result_of p), m))"
proof -
  obtain err e where g: "error_Get (MockError m) = (err, e)" by fastforce
  obtain out err' where t: "tr x = (out, err')" by fastforce
  note defs = Invoke_def eval_nat_numeral slice_Add_def ptr_Clone_def ptr_IsNil_def
  show ?thesis
  proof (cases err)
    case (Some a)
    then show ?thesis by (simp add: defs g)
  next
    case None
    then show ?thesis
      by (cases "clone I x"; cases "Output m"; cases "clone Q (Output m)"; cases err')
        (simp_all add: defs g t)
  qed
qed

text \<open>Several invocations at once: one of them makes a step.\<close>

type_synonym ('i, 'o, 'e) system = "('i, 'o, 'e) mock_function \<times> ('i option \<times> ('o, 'e) pc) list"

inductive mock_step :: "'i codec \<Rightarrow> 'o codec \<Rightarrow> ('i option \<Rightarrow> 'o option \<times> 'e option)
    \<Rightarrow> ('i, 'o, 'e) system \<Rightarrow> ('i, 'o, 'e) system \<Rightarrow> bool" for I Q tr where
  step: "i < length ts \<Longrightarrow> ts ! i = (x, p) \<Longrightarrow> result_of p = None \<Longrightarrow>
     invoke_step I Q tr x p m = Inr (p', m') \<Longrightarrow> mock_step I Q tr (m, ts) (m', ts[i := (x, p')])"

inductive mock_reachable :: "'i codec \<Rightarrow> 'o codec \<Rightarrow> ('i option \<Rightarrow> 'o option \<times> 'e option)
    \<Rightarrow> ('i, 'o, 'e) mock_function \<Rightarrow> 'i option list \<Rightarrow> ('i, 'o, 'e) system \<Rightarrow> bool" for I Q tr m0 xs where
  start: "mock_reachable I Q tr m0 xs (m0, map (\<lambda>x. (x, AtGet)) xs)"
| next_step: "mock_reachable I Q tr m0 xs s \<Longrightarrow> mock_step I Q tr s s' \<Longrightarrow> mock_reachable I Q tr m0 xs s'"

inductive_cases mock_stepE: "mock_step I Q tr s s'"

text \<open>How many invocations are at a place that satisfies \<open>P\<close>.\<close>

definition cnt :: "(('o, 'e) pc \<Rightarrow> bool) \<Rightarrow> ('i option \<times> ('o, 'e) pc) list \<Rightarrow> int" where
  "cnt P ts = (\<Sum>t \<leftarrow> ts. of_bool (P (snd t)))"

lemma cnt_simps [simp]: "cnt P [] = 0" "cnt P (t # ts) = of_bool (P (snd t)) + cnt P ts"
  by (simp_all add: cnt_def)

lemma cnt_update:
  "i < length ts \<Longrightarrow> ts ! i = (x, p) \<Longrightarrow> cnt P (ts[i := (x, p')]) = cnt P ts - of_bool (P p) + of_bool (P p')"
proof (induction ts arbitrary: i)
  case (Cons t ts)
  then show ?case by (cases i) auto
qed simp

lemma cnt_start: "cnt P (map (\<lambda>x. (x, AtGet)) xs) = of_bool (P AtGet) * int (length xs)"
  by (induction xs) (auto simp: algebra_simps)

lemma cnt_bounds: "0 \<le> cnt P ts" "cnt P ts \<le> int (length ts)"
  by (induction ts) auto

lemma cnt_add:
  assumes "\<And>p. P p \<longleftrightarrow> Q p \<or> R p" and "\<And>p. \<not> (Q p \<and> R p)"
  shows "cnt P ts = cnt Q ts + cnt R ts"
  by (induction ts) (use assms in auto)

lemma cnt_all: "\<forall>t \<in> set ts. P (snd t) \<Longrightarrow> cnt P ts = int (length ts)"
  by (induction ts) auto

lemma cnt_cong: "(\<And>t. t \<in> set ts \<Longrightarrow> P (snd t) = Q (snd t)) \<Longrightarrow> cnt P ts = cnt Q ts"
  by (induction ts) auto

fun failing :: "('o, 'e) pc \<Rightarrow> bool" where
  "failing (AtFail e) = True" | "failing (Failed e) = True" | "failing _ = False"

fun passed :: "('o, 'e) pc \<Rightarrow> bool" where
  "passed AtGet = False" | "passed (AtFail e) = False" | "passed (Failed e) = False" | "passed _ = True"

fun entered :: "('o, 'e) pc \<Rightarrow> bool" where
  "entered AtAdd = False" | "entered p = passed p"

fun did_fail :: "('o, 'e) pc \<Rightarrow> bool" where
  "did_fail (Failed e) = True" | "did_fail (Returned out err) = (err \<noteq> None)" | "did_fail _ = False"

fun did_succeed :: "('o, 'e) pc \<Rightarrow> bool" where
  "did_succeed AtClone = True" | "did_succeed (Returned out err) = (err = None)" | "did_succeed _ = False"

text \<open>What holds of one invocation, and of the shared state.\<close>

fun pc_ok :: "'o codec \<Rightarrow> ('i option \<Rightarrow> 'o option \<times> 'e option) \<Rightarrow> 'o option \<Rightarrow> 'e \<Rightarrow> 'i option \<Rightarrow> ('o, 'e) pc \<Rightarrow> bool" where
  "pc_ok Q tr output e x (AtFail e') = (e' = e)"
| "pc_ok Q tr output e x (Failed e') = (e' = e)"
| "pc_ok Q tr output e x AtCount = (output \<noteq> None)"
| "pc_ok Q tr output e x AtClone = (output \<noteq> None)"
| "pc_ok Q tr output e x AtTransform = (output = None)"
| "pc_ok Q tr output e x (AtResult out err) = (output = None \<and> tr x = (out, err))"
| "pc_ok Q tr output e x (Returned out err) =
     (if output = None then tr x = (out, err) else err = None \<and> (\<exists>cp. clone Q output = Inr cp \<and> out = Some cp))"
| "pc_ok Q tr output e x _ = True"

definition budget :: "('i, 'o, 'e) mock_function \<Rightarrow> int" where
  "budget m = max 0 (error_maxCalls (MockError m) - error_calls (MockError m))"

definition mock_inv :: "'o codec \<Rightarrow> ('i option \<Rightarrow> 'o option \<times> 'e option) \<Rightarrow> ('i, 'o, 'e) mock_function
    \<Rightarrow> 'i option list \<Rightarrow> 'e \<Rightarrow> ('i, 'o, 'e) system \<Rightarrow> bool" where
  "mock_inv Q tr m0 xs e s = (case s of (m, ts) \<Rightarrow>
     map fst ts = xs \<and> Output m = Output m0 \<and> error_err (MockError m) = Some e
     \<and> (\<forall>(x, p) \<in> set ts. pc_ok Q tr (Output m0) e x p)
     \<and> error_maxCalls (MockError m) = error_maxCalls (MockError m0)
     \<and> error_calls (MockError m) = error_calls (MockError m0) + cnt failing ts
     \<and> cnt failing ts \<le> budget m0 \<and> (cnt passed ts > 0 \<longrightarrow> cnt failing ts = budget m0)
     \<and> failedCalls m = failedCalls m0 + of_int (cnt did_fail ts)
     \<and> successfulCalls m = successfulCalls m0 + of_int (cnt did_succeed ts)
     \<and> int (length (CalledWithInput m)) = int (length (CalledWithInput m0)) + cnt entered ts)"

lemma mock_inv_start:
  "error_err (MockError m0) = Some e \<Longrightarrow> mock_inv Q tr m0 xs e (m0, map (\<lambda>x. (x, AtGet)) xs)"
  by (auto simp: mock_inv_def cnt_start budget_def comp_def)

text \<open>What one step changes.\<close>

lemma step_frame:
  assumes "invoke_step I Q tr x p m = Inr (p', m')"
  shows "Output m' = Output m \<and> error_err (MockError m') = error_err (MockError m)
    \<and> error_maxCalls (MockError m') = error_maxCalls (MockError m)"
  using assms by (cases p) (auto simp: go_bind_eq_Inr error_Get_def Let_def split: if_splits)

lemma step_pc_ok:
  assumes "invoke_step I Q tr x p m = Inr (p', m')" and "error_err (MockError m) = Some e"
    and "pc_ok Q tr (Output m) e x p"
  shows "pc_ok Q tr (Output m) e x p'"
  using assms
  by (cases p) (auto simp: go_bind_eq_Inr error_Get_def Let_def ptr_IsNil_def ptr_Clone_def split: if_splits prod.splits)

lemma step_get:
  assumes "invoke_step I Q tr x p m = Inr (p', m')" and "error_err (MockError m) = Some e"
  shows "error_calls (MockError m') = error_calls (MockError m) + of_bool (failing p') - of_bool (failing p)
    \<and> (p = AtGet \<longrightarrow> (if error_calls (MockError m) < error_maxCalls (MockError m) then failing p' \<and> \<not> passed p'
                      else passed p' \<and> \<not> failing p'))
    \<and> (p \<noteq> AtGet \<longrightarrow> (failing p' \<longleftrightarrow> failing p) \<and> (passed p' \<longleftrightarrow> passed p))"
  using assms by (cases p) (auto simp: go_bind_eq_Inr error_Get_def Let_def split: if_splits prod.splits)

lemma step_counts:
  assumes "invoke_step I Q tr x p m = Inr (p', m')" and "result_of p = None" and "error_err (MockError m) = Some e"
  shows "failedCalls m' + of_int (of_bool (did_fail p)) = failedCalls m + of_int (of_bool (did_fail p'))
    \<and> successfulCalls m' + of_int (of_bool (did_succeed p)) = successfulCalls m + of_int (of_bool (did_succeed p'))
    \<and> int (length (CalledWithInput m')) + of_bool (entered p) = int (length (CalledWithInput m)) + of_bool (entered p')"
  using assms
  by (cases p) (auto simp: go_bind_eq_Inr slice_Add_def error_Get_def Let_def split: if_splits prod.splits)

lemma mock_inv_step:
  assumes inv: "mock_inv Q tr m0 xs e s" and s: "mock_step I Q tr s s'"
  shows "mock_inv Q tr m0 xs e s'"
proof -
  obtain m ts i x p p' m' where s_eq: "s = (m, ts)" "s' = (m', ts[i := (x, p')])"
    and i: "i < length ts" "ts ! i = (x, p)" and r: "result_of p = None"
    and st: "invoke_step I Q tr x p m = Inr (p', m')"
    using s by (auto elim: mock_stepE)
  note inv' = inv [unfolded s_eq mock_inv_def prod.case]
  have out: "Output m = Output m0" and err: "error_err (MockError m) = Some e"
    using inv' by blast+
  have ok: "pc_ok Q tr (Output m) e x p"
    using inv' nth_mem [OF i(1)] unfolding i(2) by auto
  have fst: "map fst (ts[i := (x, p')]) = map fst ts"
    using i by (simp add: map_update list_update_same_conv)
  have pc: "\<forall>(x, p) \<in> set (ts[i := (x, p')]). pc_ok Q tr (Output m0) e x p"
    using inv' step_pc_ok [OF st err ok] set_update_subset_insert [of ts i "(x, p')"] by (auto simp: out)
  have fails: "cnt failing (ts[i := (x, p')]) \<le> budget m0
      \<and> (cnt passed (ts[i := (x, p')]) > 0 \<longrightarrow> cnt failing (ts[i := (x, p')]) = budget m0)"
    using inv' step_get [OF st err] cnt_bounds(1) [of passed ts] cnt_bounds(1) [of failing ts]
    by (cases "p = AtGet") (auto simp: cnt_update [OF i] budget_def max_def split: if_splits)
  have words: "failedCalls m' = failedCalls m0 + of_int (cnt did_fail (ts[i := (x, p')]))
      \<and> successfulCalls m' = successfulCalls m0 + of_int (cnt did_succeed (ts[i := (x, p')]))"
    using inv' step_counts [OF st r err] by (simp add: cnt_update [OF i] algebra_simps)
  show ?thesis
    unfolding s_eq mock_inv_def prod.case
    using inv' fst pc fails words step_frame [OF st] step_get [OF st err] step_counts [OF st r err]
    by (simp add: cnt_update [OF i])
qed

lemma mock_reachable_inv:
  "mock_reachable I Q tr m0 xs s \<Longrightarrow> error_err (MockError m0) = Some e \<Longrightarrow> mock_inv Q tr m0 xs e s"
  by (induction rule: mock_reachable.induct) (auto intro: mock_inv_start mock_inv_step)

text \<open>Every step brings its invocation closer to its return.\<close>

fun rank :: "('o, 'e) pc \<Rightarrow> nat" where
  "rank AtGet = 5" | "rank (AtFail e) = 1" | "rank AtAdd = 4" | "rank AtIsNil = 3" | "rank AtCount = 2"
| "rank AtClone = 1" | "rank AtTransform = 2" | "rank (AtResult out err) = 1" | "rank _ = 0"

definition steps_left :: "('i, 'o, 'e) system \<Rightarrow> nat" where
  "steps_left s = (\<Sum>t \<leftarrow> snd s. rank (snd t))"

lemma rank_step:
  "invoke_step I Q tr x p m = Inr (p', m') \<Longrightarrow> result_of p = None \<Longrightarrow> rank p' < rank p"
  by (cases p) (auto simp: go_bind_eq_Inr Let_def split: prod.splits option.splits if_splits)

lemma steps_left_step:
  assumes "mock_step I Q tr s s'"
  shows "steps_left s' < steps_left s"
proof -
  have "(\<Sum>t \<leftarrow> ts[i := (x, p')]. rank (snd t)) < (\<Sum>t \<leftarrow> ts. rank (snd t))"
    if "i < length ts" "rank p' < rank (snd (ts ! i))" for i x and p' :: "('b, 'c) pc" and ts :: "('a option \<times> ('b, 'c) pc) list"
    using that
  proof (induction ts arbitrary: i)
    case (Cons t ts)
    then show ?case by (cases i) auto
  qed simp
  with assms show ?thesis by (auto simp: steps_left_def elim!: mock_stepE dest: rank_step)
qed

definition returned :: "('i, 'o, 'e) system \<Rightarrow> bool" where
  "returned s \<longleftrightarrow> (\<forall>t \<in> set (snd s). result_of (snd t) \<noteq> None)"

definition codec_total :: "'a codec \<Rightarrow> bool" where
  "codec_total C \<longleftrightarrow> (\<forall>v. \<exists>cp. clone C v = Inr cp)"

lemma mock_progress:
  assumes "codec_total I" "codec_total Q" and "\<not> returned s"
  shows "\<exists>s'. mock_step I Q tr s s'"
proof -
  obtain m ts where s: "s = (m, ts)" by fastforce
  with assms(3) obtain t where "t \<in> set ts" and r: "result_of (snd t) = None"
    unfolding s returned_def snd_conv by blast
  then obtain i where "i < length ts" "ts ! i = t" by (auto simp: in_set_conv_nth)
  with r obtain x p where i: "i < length ts" "ts ! i = (x, p)" "result_of p = None"
    by (cases t) auto
  obtain a b where "clone I x = Inr a" "clone Q (Output m) = Inr b"
    using assms(1,2) unfolding codec_total_def by metis
  then obtain p' m' where "invoke_step I Q tr x p m = Inr (p', m')"
    by (cases p) (auto simp: slice_Add_def ptr_Clone_def Let_def case_prod_beta)
  from mock_step.step [OF i this] show ?thesis unfolding s by blast
qed

lemma mock_returns:
  assumes "codec_total I" "codec_total Q" and "mock_reachable I Q tr m0 xs s"
  shows "\<exists>s'. mock_reachable I Q tr m0 xs s' \<and> returned s'"
  using assms(3)
proof (induction "steps_left s" arbitrary: s rule: less_induct)
  case less
  show ?case
  proof (cases "returned s")
    case False
    with mock_progress [OF assms(1,2)] obtain s' where "mock_step I Q tr s s'" by blast
    with less show ?thesis by (blast dest: steps_left_step intro: mock_reachable.next_step)
  qed (use less in blast)
qed

section \<open>The specification of a mock\<close>

text \<open>
  A mock as its user thinks of it: the errors still to be returned, one per invocation, the output, the inputs
  and two counters. \<open>copyI\<close> and \<open>copyQ\<close> are what cloning makes of an input and of an output.
\<close>

record ('i, 'o, 'e) mock_spec =
  pending :: "'e list"
  spec_output :: "'o option"
  spec_inputs :: "'i list"
  spec_succeeded :: nat
  spec_failed :: nat

datatype ('i, 'o, 'e) mock_command =
    DoReset | DoSetOutput "'o option" | DoSetError 'e "int option" | DoInvoke "'i option"

definition spec_new :: "('i, 'o, 'e) mock_spec" where
  "spec_new = \<lparr>pending = [], spec_output = None, spec_inputs = [], spec_succeeded = 0, spec_failed = 0\<rparr>"

definition times :: "int option \<Rightarrow> nat" where
  "times n = (case n of None \<Rightarrow> 1 | Some k \<Rightarrow> if k = 0 then 1 else nat k)"

fun spec_invoke :: "('i option \<Rightarrow> 'i) \<Rightarrow> ('o option \<Rightarrow> 'o) \<Rightarrow> ('i option \<Rightarrow> 'o option \<times> 'e option) \<Rightarrow> 'i option
    \<Rightarrow> ('i, 'o, 'e) mock_spec \<Rightarrow> ('o option \<times> 'e option) \<times> ('i, 'o, 'e) mock_spec" where
  "spec_invoke copyI copyQ tr x s =
     (case pending s of
        e # es \<Rightarrow> ((None, Some e), s\<lparr>pending := es, spec_failed := Suc (spec_failed s)\<rparr>)
      | [] \<Rightarrow>
          let r = (if spec_output s \<noteq> None then (Some (copyQ (spec_output s)), None) else tr x);
              s = s\<lparr>spec_inputs := spec_inputs s @ [copyI x]\<rparr>
          in (r, if snd r = None then s\<lparr>spec_succeeded := Suc (spec_succeeded s)\<rparr>
                 else s\<lparr>spec_failed := Suc (spec_failed s)\<rparr>))"

fun spec_exec :: "('i option \<Rightarrow> 'i) \<Rightarrow> ('o option \<Rightarrow> 'o) \<Rightarrow> ('i option \<Rightarrow> 'o option \<times> 'e option) \<Rightarrow> ('i, 'o, 'e) mock_command
    \<Rightarrow> ('i, 'o, 'e) mock_spec \<Rightarrow> ('o option \<times> 'e option) list \<times> ('i, 'o, 'e) mock_spec" where
  "spec_exec copyI copyQ tr DoReset s = ([], spec_new)"
| "spec_exec copyI copyQ tr (DoSetOutput v) s = ([], s\<lparr>spec_output := v\<rparr>)"
| "spec_exec copyI copyQ tr (DoSetError e n) s = ([], s\<lparr>pending := replicate (times n) e\<rparr>)"
| "spec_exec copyI copyQ tr (DoInvoke x) s = (case spec_invoke copyI copyQ tr x s of (r, s) \<Rightarrow> ([r], s))"

fun spec_run :: "('i option \<Rightarrow> 'i) \<Rightarrow> ('o option \<Rightarrow> 'o) \<Rightarrow> ('i option \<Rightarrow> 'o option \<times> 'e option) \<Rightarrow> ('i, 'o, 'e) mock_command list
    \<Rightarrow> ('i, 'o, 'e) mock_spec \<Rightarrow> ('o option \<times> 'e option) list \<times> ('i, 'o, 'e) mock_spec" where
  "spec_run copyI copyQ tr [] s = ([], s)"
| "spec_run copyI copyQ tr (c # cs) s =
     (case spec_exec copyI copyQ tr c s of (r, s) \<Rightarrow> case spec_run copyI copyQ tr cs s of (rs, s) \<Rightarrow> (r @ rs, s))"

text \<open>The same commands on the mock; the number of errors is set by an option.\<close>

fun mock_exec :: "'i codec \<Rightarrow> 'o codec \<Rightarrow> ('i option \<Rightarrow> 'o option \<times> 'e option) \<Rightarrow> ('i, 'o, 'e) mock_command
    \<Rightarrow> ('i, 'o, 'e) mock_function \<Rightarrow> (('o option \<times> 'e option) list \<times> ('i, 'o, 'e) mock_function) go" where
  "mock_exec I Q tr DoReset m = Inr ([], mock_Reset m)"
| "mock_exec I Q tr (DoSetOutput v) m = Inr ([], m\<lparr>Output := ptr_Set v (Output m)\<rparr>)"
| "mock_exec I Q tr (DoSetError e n) m =
     Inr ([], m\<lparr>MockError := error_Set (Some e)
       (case n of None \<Rightarrow> [] | Some k \<Rightarrow> [\<lambda>a. a\<lparr>error_maxCalls := k\<rparr>]) (MockError m)\<rparr>)"
| "mock_exec I Q tr (DoInvoke x) m = go_bind (Invoke I Q tr x m) (\<lambda>(r, m). Inr ([r], m))"

fun mock_run :: "'i codec \<Rightarrow> 'o codec \<Rightarrow> ('i option \<Rightarrow> 'o option \<times> 'e option) \<Rightarrow> ('i, 'o, 'e) mock_command list
    \<Rightarrow> ('i, 'o, 'e) mock_function \<Rightarrow> (('o option \<times> 'e option) list \<times> ('i, 'o, 'e) mock_function) go" where
  "mock_run I Q tr [] m = Inr ([], m)"
| "mock_run I Q tr (c # cs) m =
     go_bind (mock_exec I Q tr c m) (\<lambda>(r, m).
       go_bind (mock_run I Q tr cs m) (\<lambda>(rs, m). Inr (r @ rs, m)))"

text \<open>The discipline: an error is set once at most between two resets.\<close>

fun disciplined :: "bool \<Rightarrow> ('i, 'o, 'e) mock_command list \<Rightarrow> bool" where
  "disciplined fresh [] = True"
| "disciplined fresh (DoReset # cs) = disciplined True cs"
| "disciplined fresh (DoSetError e n # cs) = (fresh \<and> disciplined False cs)"
| "disciplined fresh (_ # cs) = disciplined fresh cs"

definition new_mock :: "('i, 'o, 'e) mock_function" where
  "new_mock = \<lparr>Output = None, CalledWithInput = [],
     MockError = \<lparr>error_err = None, error_calls = 0, error_maxCalls = 0\<rparr>, successfulCalls = 0, failedCalls = 0\<rparr>"

definition simulates :: "bool \<Rightarrow> ('i, 'o, 'e) mock_function \<Rightarrow> ('i, 'o, 'e) mock_spec \<Rightarrow> bool" where
  "simulates fresh m s \<longleftrightarrow>
     (fresh \<longrightarrow> MockError m = \<lparr>error_err = None, error_calls = 0, error_maxCalls = 0\<rparr>)
     \<and> (if pending s = [] then budget m = 0 \<or> error_err (MockError m) = None
        else \<exists>e. error_err (MockError m) = Some e \<and> pending s = replicate (nat (budget m)) e)
     \<and> Output m = spec_output s \<and> CalledWithInput m = spec_inputs s
     \<and> successfulCalls m = of_nat (spec_succeeded s) \<and> failedCalls m = of_nat (spec_failed s)"

fun still_fresh :: "bool \<Rightarrow> ('i, 'o, 'e) mock_command \<Rightarrow> bool" where
  "still_fresh fresh DoReset = True"
| "still_fresh fresh (DoSetError e n) = False"
| "still_fresh fresh c = fresh"

lemma simulates_new: "simulates True new_mock spec_new"
  by (simp add: simulates_def new_mock_def spec_new_def budget_def)

lemma simulates_invoke:
  assumes "\<And>v. clone I v = Inr (copyI v)" and "\<And>v. clone Q v = Inr (copyQ v)" and "simulates fresh m s"
  shows "\<exists>r m' s'. Invoke I Q tr x m = Inr (r, m') \<and> spec_invoke copyI copyQ tr x s = (r, s') \<and> simulates fresh m' s'"
proof (cases "pending s")
  case Nil
  have "\<exists>e. error_Get (MockError m) = (None, e) \<and> simulates fresh (m\<lparr>MockError := e\<rparr>) s"
    using assms(3) Nil by (auto simp: error_Get_def simulates_def budget_def Let_def)
  then obtain e where e: "error_Get (MockError m) = (None, e)" "simulates fresh (m\<lparr>MockError := e\<rparr>) s" by blast
  obtain out err where t: "tr x = (out, err)" by fastforce
  show ?thesis
    using Nil e t assms(1,2)
    by (cases "Output m"; cases err)
      (auto simp: Invoke_def simulates_def budget_def slice_Add_def ptr_IsNil_def ptr_Clone_def Let_def)
next
  case (Cons e es)
  with assms(3) have e: "error_err (MockError m) = Some e" "budget m > 0" "es = replicate (nat (budget m - 1)) e"
    by (auto simp: simulates_def Cons_replicate_eq nat_diff_distrib')
  then have g: "error_Get (MockError m) = (Some e, (MockError m)\<lparr>error_calls := error_calls (MockError m) + 1\<rparr>)"
    by (auto simp: error_Get_def budget_def)
  let ?m = "m\<lparr>MockError := (MockError m)\<lparr>error_calls := error_calls (MockError m) + 1\<rparr>, failedCalls := failedCalls m + 1\<rparr>"
  let ?s = "s\<lparr>pending := es, spec_failed := Suc (spec_failed s)\<rparr>"
  have "budget ?m = budget m - 1" using e(2) by (simp add: budget_def)
  moreover have "\<not> fresh" using assms(3) e(1) by (auto simp: simulates_def)
  ultimately have "simulates fresh ?m ?s"
    using assms(3) e by (simp add: simulates_def)
  moreover have "Invoke I Q tr x m = Inr ((None, Some e), ?m)" by (simp add: Invoke_def g)
  moreover have "spec_invoke copyI copyQ tr x s = ((None, Some e), ?s)" by (simp add: Cons)
  ultimately show ?thesis by blast
qed

lemma simulates_exec:
  assumes "\<And>v. clone I v = Inr (copyI v)" and "\<And>v. clone Q v = Inr (copyQ v)" and "simulates fresh m s"
    and "disciplined fresh (c # cs)"
  shows "\<exists>r m' s'. mock_exec I Q tr c m = Inr (r, m') \<and> spec_exec copyI copyQ tr c s = (r, s')
     \<and> simulates (still_fresh fresh c) m' s'"
proof (cases c)
  case (DoInvoke x)
  from simulates_invoke [OF assms(1-3), of tr x] DoInvoke show ?thesis
    by (auto simp del: spec_invoke.simps)
qed (use assms(3,4) in \<open>auto simp: mock_Reset_def simulates_def spec_new_def budget_def ptr_Reset_def ptr_Set_def
    slice_Reset_def error_Reset_def error_Set_def times_def Let_def split: option.splits\<close>)

lemma disciplined_next: "disciplined fresh (c # cs) \<Longrightarrow> disciplined (still_fresh fresh c) cs"
  by (cases c) auto

lemma simulates_run:
  assumes "\<And>v. clone I v = Inr (copyI v)" and "\<And>v. clone Q v = Inr (copyQ v)"
    and "simulates fresh m s" and "disciplined fresh cs"
  shows "\<exists>rs m' s' fresh'. mock_run I Q tr cs m = Inr (rs, m') \<and> spec_run copyI copyQ tr cs s = (rs, s')
     \<and> simulates fresh' m' s'"
  using assms(3,4)
proof (induction cs arbitrary: fresh m s)
  case (Cons c cs)
  obtain r m' s' where 1: "mock_exec I Q tr c m = Inr (r, m')" "spec_exec copyI copyQ tr c s = (r, s')"
      "simulates (still_fresh fresh c) m' s'"
    using simulates_exec [OF assms(1,2) Cons.prems] by blast
  obtain rs m'' s'' fresh' where "mock_run I Q tr cs m' = Inr (rs, m'')" "spec_run copyI copyQ tr cs s' = (rs, s'')"
      "simulates fresh' m'' s''"
    using Cons.IH [OF 1(3) disciplined_next [OF Cons.prems(2)]] by blast
  with 1 show ?case by auto
qed auto

lemma spec_counters:
  "spec_run copyI copyQ tr cs s = (rs, s') \<Longrightarrow>
   spec_succeeded s' + spec_failed s' \<le> spec_succeeded s + spec_failed s + length cs"
proof (induction cs arbitrary: s rs)
  case (Cons c cs)
  obtain r t where t: "spec_exec copyI copyQ tr c s = (r, t)" by fastforce
  have "spec_succeeded t + spec_failed t \<le> Suc (spec_succeeded s + spec_failed s)"
    using t by (cases c) (auto simp: spec_new_def Let_def split: list.splits if_splits)
  with Cons t show ?case by (fastforce split: prod.splits)
qed simp

lemma sint_of_nat32: "n < 2 ^ 31 \<Longrightarrow> sint (of_nat n :: 32 word) = int n"
  by (simp add: signed_of_nat signed_take_bit_int_eq_self)

text \<open>When all invocations have returned, the counts of the invariant are those of the failed and of the successful ones.\<close>

lemma returned_counts:
  fixes ts :: "('b option \<times> ('c, 'a) pc) list"
  assumes "mock_inv Q tr m0 xs e (m, ts)" and "returned (m, ts)"
  shows "\<forall>t \<in> set ts. snd t = Failed e \<or> (\<exists>out err. snd t = Returned out err)"
    and "cnt (\<lambda>p. p = Failed e) ts = min (int (length xs)) (budget m0)"
    and "cnt entered ts = int (length xs) - min (int (length xs)) (budget m0)"
    and "cnt did_fail ts + cnt did_succeed ts = int (length xs)"
proof -
  note inv' = assms(1) [unfolded mock_inv_def prod.case]
  have "map fst ts = xs" using inv' by blast
  then have len: "length ts = length xs" by auto
  show fin: "\<forall>t \<in> set ts. snd t = Failed e \<or> (\<exists>out err. snd t = Returned out err)"
  proof
    fix t assume "t \<in> set ts"
    then have "pc_ok Q tr (Output m0) e (fst t) (snd t)" and "result_of (snd t) \<noteq> None"
      using inv' assms(2) by (auto simp: returned_def)
    then show "snd t = Failed e \<or> (\<exists>out err. snd t = Returned out err)" by (cases "snd t") auto
  qed
  have all: "cnt (\<lambda>p. failing p \<or> passed p) ts = int (length ts)" "cnt (\<lambda>p. did_fail p \<or> did_succeed p) ts = int (length ts)"
    using fin by (fastforce intro!: cnt_all)+
  have disj: "\<not> (failing p \<and> passed p) \<and> \<not> (did_fail p \<and> did_succeed p)" for p :: "('c, 'a) pc" by (cases p) auto
  have same: "cnt failing ts = cnt (\<lambda>p. p = Failed e) ts" "cnt entered ts = cnt passed ts"
    using fin by (fastforce intro!: cnt_cong)+
  have sum: "cnt failing ts + cnt passed ts = int (length xs)"
    using cnt_add [of "\<lambda>p. failing p \<or> passed p" failing passed ts] all(1) disj len by simp
  have k: "cnt failing ts = min (int (length xs)) (budget m0)"
    using inv' sum cnt_bounds(1) [of passed ts] by (cases "cnt passed ts = 0") auto
  then show "cnt (\<lambda>p. p = Failed e) ts = min (int (length xs)) (budget m0)" by (simp only: same)
  from k sum show "cnt entered ts = int (length xs) - min (int (length xs)) (budget m0)" by (simp only: same)
  show "cnt did_fail ts + cnt did_succeed ts = int (length xs)"
    using cnt_add [of "\<lambda>p. did_fail p \<or> did_succeed p" did_fail did_succeed ts] all(2) disj len by simp
qed

section \<open>Properties\<close>

text \<open>
  Property C28. The mock implements its specification. Whatever resets, outputs, errors and invocations a
  new mock is given, as long as an error is set once at most between two resets, every invocation returns what
  the specification says, first the errors asked for, then results, and afterwards the recorded inputs and the number
  of calls are those of the specification, if there are fewer than \<open>2 ^ 31\<close> commands.
\<close>

theorem mock_refines:
  assumes "\<And>v. clone I v = Inr (copyI v)" and "\<And>v. clone Q v = Inr (copyQ v)"
    and "disciplined True cs" and "length cs < 2 ^ 31"
  shows "\<exists>rs m s. mock_run I Q tr cs new_mock = Inr (rs, m) \<and> spec_run copyI copyQ tr cs spec_new = (rs, s)
     \<and> CalledWithInput m = spec_inputs s \<and> SuccessfulCalls m = int (spec_succeeded s)
     \<and> FailedCalls m = int (spec_failed s) \<and> Calls m = int (spec_succeeded s + spec_failed s)"
proof -
  obtain rs m s f where 1: "mock_run I Q tr cs new_mock = Inr (rs, m)"
      "spec_run copyI copyQ tr cs spec_new = (rs, s)" "simulates f m s"
    using simulates_run [OF assms(1,2) simulates_new assms(3)] by blast
  have "spec_succeeded s + spec_failed s < 2 ^ 31"
    using spec_counters [OF 1(2)] assms(4) by (simp add: spec_new_def)
  then have "spec_succeeded s < 2 ^ 31" "spec_failed s < 2 ^ 31" by auto
  then have "SuccessfulCalls m = int (spec_succeeded s)" "FailedCalls m = int (spec_failed s)"
    using 1(3) by (simp_all only: SuccessfulCalls_def FailedCalls_def simulates_def sint_of_nat32)
  with 1 show ?thesis by (auto simp: Calls_def simulates_def)
qed

definition nat_codec :: "nat codec" where
  "nat_codec = \<lparr>Encode = (\<lambda>v. Inr (case v of None \<Rightarrow> [] | Some n \<Rightarrow> replicate n (CHR ''1''))),
     Decode = (\<lambda>s. Inr (length s))\<rparr>"

lemma nat_codec: "clone nat_codec v = Inr (case v of None \<Rightarrow> 0 | Some n \<Rightarrow> n)"
  by (simp add: clone_def nat_codec_def split: option.split)

definition demo_commands :: "(nat, nat, string) mock_command list" where
  "demo_commands = [DoSetError ''boom'' (Some 2), DoInvoke (Some 1), DoInvoke (Some 2), DoInvoke (Some 3),
     DoReset, DoSetOutput (Some 7), DoInvoke (Some 4)]"

theorem mock_refines_witness:
  "\<exists>rs m. mock_run nat_codec nat_codec (\<lambda>x. (x, None)) demo_commands new_mock = Inr (rs, m)
     \<and> rs = [(None, Some ''boom''), (None, Some ''boom''), (Some 3, None), (Some 7, None)]
     \<and> CalledWithInput m = [4] \<and> Calls m = 1"
proof -
  have "disciplined True demo_commands" "length demo_commands < 2 ^ 31" by (simp_all add: demo_commands_def)
  from mock_refines [OF nat_codec nat_codec this, of "\<lambda>x. (x, None)"] show ?thesis
    by (auto simp: demo_commands_def spec_new_def times_def numeral_2_eq_2)
qed

text \<open>
  Property C29. Let \<open>n\<close> invocations run at the same time, interleaved in any way, on a mock that has an error
  to return and still has to return it \<open>k\<close> times. When all have returned, exactly the
  smaller of \<open>n\<close> and \<open>k\<close> have failed with that error, each of the others has returned the clone of the
  output, or what the default function makes of its own input if no output is set, the inputs of these are recorded, and
  the two counters together have grown by \<open>n\<close>. If cloning does not fail, the invocations can always all return.
\<close>

theorem concurrent_invocations:
  assumes "error_err (MockError m0) = Some e" and "codec_total I" and "codec_total Q"
  shows "(\<exists>s. mock_reachable I Q tr m0 xs s \<and> returned s)
   \<and> (\<forall>m ts. mock_reachable I Q tr m0 xs (m, ts) \<and> returned (m, ts) \<longrightarrow>
        map fst ts = xs
        \<and> cnt (\<lambda>p. p = Failed e) ts = min (int (length xs)) (budget m0)
        \<and> (\<forall>(x, p) \<in> set ts. p \<noteq> Failed e \<longrightarrow>
             (case Output m0 of None \<Rightarrow> result_of p = Some (tr x)
              | Some v \<Rightarrow> \<exists>cp. clone Q (Some v) = Inr cp \<and> result_of p = Some (Some cp, None)))
        \<and> int (length (CalledWithInput m)) = int (length (CalledWithInput m0)) + int (length xs)
            - min (int (length xs)) (budget m0)
        \<and> successfulCalls m + failedCalls m = successfulCalls m0 + failedCalls m0 + of_nat (length xs))"
proof (intro conjI allI impI)
  show "\<exists>s. mock_reachable I Q tr m0 xs s \<and> returned s"
    by (rule mock_returns [OF assms(2,3) mock_reachable.start])
next
  fix m and ts :: "('b option \<times> ('c, 'a) pc) list"
  assume r: "mock_reachable I Q tr m0 xs (m, ts) \<and> returned (m, ts)"
  have inv: "mock_inv Q tr m0 xs e (m, ts)" by (rule mock_reachable_inv [OF conjunct1 [OF r] assms(1)])
  note counts = returned_counts [OF inv conjunct2 [OF r]]
  note inv' = inv [unfolded mock_inv_def prod.case]
  show "map fst ts = xs" using inv' by blast
  show "cnt (\<lambda>p. p = Failed e) ts = min (int (length xs)) (budget m0)" by (rule counts(2))
  show "\<forall>(x, p) \<in> set ts. p \<noteq> Failed e \<longrightarrow>
             (case Output m0 of None \<Rightarrow> result_of p = Some (tr x)
              | Some v \<Rightarrow> \<exists>cp. clone Q (Some v) = Inr cp \<and> result_of p = Some (Some cp, None))"
    using counts(1) inv' by (fastforce split: option.split)
  show "int (length (CalledWithInput m)) = int (length (CalledWithInput m0)) + int (length xs)
            - min (int (length xs)) (budget m0)"
    using inv' counts(3) by linarith
  have "(of_int (cnt did_fail ts) + of_int (cnt did_succeed ts) :: 32 word) = of_nat (length xs)"
    using counts(4) by (metis of_int_add of_int_of_nat_eq)
  with inv' show "successfulCalls m + failedCalls m = successfulCalls m0 + failedCalls m0 + of_nat (length xs)"
    by (simp add: algebra_simps)
qed


definition demo_mock :: "(nat, nat, string) mock_function" where
  "demo_mock = \<lparr>Output = Some 7, CalledWithInput = [],
     MockError = \<lparr>error_err = Some ''boom'', error_calls = 0, error_maxCalls = 1\<rparr>, successfulCalls = 0, failedCalls = 0\<rparr>"

theorem concurrent_invocations_witness:
  "\<exists>m ts. mock_reachable nat_codec nat_codec (\<lambda>x. (x, None)) demo_mock [Some 1, Some 2, Some 3] (m, ts)
     \<and> cnt (\<lambda>p. p = Failed ''boom'') ts = 1 \<and> successfulCalls m + failedCalls m = 3
     \<and> length (CalledWithInput m) = 2"
proof -
  have "error_err (MockError demo_mock) = Some ''boom''" "codec_total nat_codec"
    by (simp_all add: demo_mock_def codec_total_def nat_codec)
  note * = concurrent_invocations [OF this this(2), of "\<lambda>x. (x, None)" "[Some 1, Some 2, Some 3]"]
  then obtain m ts where r: "mock_reachable nat_codec nat_codec (\<lambda>x. (x, None)) demo_mock [Some 1, Some 2, Some 3] (m, ts)
      \<and> returned (m, ts)" by fast
  with * have "cnt (\<lambda>p. p = Failed ''boom'') ts = 1 \<and> successfulCalls m + failedCalls m = 3
     \<and> length (CalledWithInput m) = 2"
    by (fastforce simp: demo_mock_def budget_def)
  with r show ?thesis by blast
qed

text \<open>
  An error that is set after an earlier one has been returned is never returned, unless the mock is reset in
  between: \<open>Set\<close> does not clear the number of calls.
\<close>

lemma second_error_lost:
  assumes "\<And>v. clone I v = Inr (copyI v)"
  shows "\<exists>m. mock_run I Q (\<lambda>x. (None, None)) [DoSetError e None, DoInvoke x, DoSetError e' None, DoInvoke x] new_mock
     = Inr ([(None, Some e), (None, None)], m)"
  using assms by (simp add: new_mock_def error_Set_def Invoke_def error_Get_def slice_Add_def ptr_IsNil_def)

end
