(* ===== verification/Events.thy ===== *)
theory Events
  imports MetricVecs
begin

section \<open>The event controller\<close>

text \<open>
  \<open>events/controller.go\<close> and \<open>events/metrics.go\<close>: a controller that counts the Kubernetes events of the objects of one
  kind. The counter is used through the interface \<open>counter_ops\<close>; the locale \<open>counter_metric\<close> is its contract, which
  the Prometheus wrapper fulfils if its vector does what it is documented to do (\<open>counter_vec\<close>).
  \<open>GroupVersion.String\<close> of the API machinery and \<open>strings.ToLower\<close> are parameters.
\<close>

record event =
  InvolvedObject_Kind :: string
  InvolvedObject_APIVersion :: string
  Event_Type :: string
  Event_Reason :: string
  LastTimestamp :: go_time

record events_controller =
  events_gvk :: gvk
  startTime :: go_time

definition eventTotalMetric :: "string \<Rightarrow> 'b metric_desc" where
  "eventTotalMetric objectName =
     \<lparr>desc_kind = Counter, desc_Namespace = Namespace_operator, desc_Subsystem = objectName,
      desc_Name = ''event_total'', desc_Buckets = [], desc_labelNames = [LabelType, LabelReason]\<rparr>"

definition NewEventsController :: "(string \<Rightarrow> string) \<Rightarrow> gvk \<Rightarrow> go_time \<Rightarrow> events_controller \<times> 'b metric_desc" where
  "NewEventsController lower g now =
     (\<lparr>events_gvk = g, startTime = now\<rparr>, eventTotalMetric (lower (gvk_Kind g)))"

text \<open>The predicate and the name the controller is registered with.\<close>

definition events_predicate :: "(string \<Rightarrow> string \<Rightarrow> string) \<Rightarrow> events_controller \<Rightarrow> event \<Rightarrow> bool" where
  "events_predicate gv_String c ev \<longleftrightarrow>
     InvolvedObject_Kind ev = gvk_Kind (events_gvk c)
     \<and> InvolvedObject_APIVersion ev = gv_String (gvk_Group (events_gvk c)) (gvk_Version (events_gvk c))"

definition events_name :: "(string \<Rightarrow> string) \<Rightarrow> events_controller \<Rightarrow> string" where
  "events_name lower c = ''operatorpkg.'' @ lower (gvk_Kind (events_gvk c)) @ ''.events''"

definition events_Reconcile :: "'g counter_ops \<Rightarrow> events_controller \<Rightarrow> event \<Rightarrow> 'g
    \<Rightarrow> (reconcile_result \<times> string option) \<times> 'g" where
  "events_Reconcile C c ev g =
     (let g = (if startTime c < LastTimestamp ev
               then Counter_Inc C (to_labels [(LabelType, Event_Type ev), (LabelReason, Event_Reason ev)]) g
               else g)
      in ((empty_result, None), g))"

text \<open>A delivery of an event: \<open>Reconcile\<close> is called if the predicate lets it through.\<close>

definition events_deliver :: "(string \<Rightarrow> string \<Rightarrow> string) \<Rightarrow> 'g counter_ops \<Rightarrow> events_controller \<Rightarrow> event \<Rightarrow> 'g \<Rightarrow> 'g" where
  "events_deliver gv_String C c ev g =
     (if events_predicate gv_String c ev then snd (events_Reconcile C c ev g) else g)"

section \<open>The contract of a counter\<close>

locale counter_metric =
  fixes C :: "'g counter_ops" and tally :: "'g \<Rightarrow> labels \<Rightarrow> nat"
  assumes count_inc: "tally (Counter_Inc C l g) = (tally g)(l := Suc (tally g l))"
    and count_delete: "tally (Counter_Delete C l g) = (tally g)(l := 0)"
    and count_partial: "tally (Counter_DeletePartialMatch C l g) = (\<lambda>k. if partial_match l k then 0 else tally g k)"
    and count_reset: "tally (Counter_Reset C g) = (\<lambda>_. 0)"
begin

lemma count_deliver:
  "tally (events_deliver gv C c ev g) l =
     tally g l + of_bool (events_predicate gv c ev \<and> startTime c < LastTimestamp ev
       \<and> to_labels [(LabelType, Event_Type ev), (LabelReason, Event_Reason ev)] = l)"
  by (auto simp: events_deliver_def events_Reconcile_def Let_def count_inc)

lemma count_run:
  "tally (fold (events_deliver gv C c) evs g) l =
     tally g l + length (filter (\<lambda>ev. events_predicate gv c ev \<and> startTime c < LastTimestamp ev
       \<and> to_labels [(LabelType, Event_Type ev), (LabelReason, Event_Reason ev)] = l) evs)"
  by (induction evs arbitrary: g) (simp_all add: count_deliver)

end

locale counter_vec =
  fixes inc_metric :: "'m \<Rightarrow> 'm" and add_metric :: "mvalue \<Rightarrow> 'm \<Rightarrow> 'm" and V :: "('m, 'v) vec_ops"
    and tally :: "'v \<Rightarrow> labels \<Rightarrow> nat"
  assumes with_inc: "tally (Vec_With V l inc_metric g) = (tally g)(l := Suc (tally g l))"
    and vec_delete: "tally (Vec_Delete V l g) = (tally g)(l := 0)"
    and vec_partial: "tally (Vec_DeletePartialMatch V l g) = (\<lambda>k. if partial_match l k then 0 else tally g k)"
    and vec_reset: "tally (Vec_Reset V g) = (\<lambda>_. 0)"
begin

lemmas vec_laws = with_inc vec_delete vec_partial vec_reset

end

sublocale counter_vec \<subseteq> prometheus_counter: counter_metric "PrometheusCounter inc_metric add_metric V" tally
  by unfold_locales (simp_all add: PrometheusCounter_def vec_laws)

text \<open>The documented behaviour as a vector: its state is the map of its series.\<close>

definition reference_counter_vec :: "(nat, labels \<rightharpoonup> nat) vec_ops" where
  "reference_counter_vec =
     \<lparr>Vec_With = (\<lambda>l f g. g(l \<mapsto> f (case g l of None \<Rightarrow> 0 | Some x \<Rightarrow> x))),
      Vec_Delete = (\<lambda>l g. g(l := None)),
      Vec_DeletePartialMatch = (\<lambda>l g k. if partial_match l k then None else g k),
      Vec_Reset = (\<lambda>g. Map.empty)\<rparr>"

definition series_count :: "(labels \<rightharpoonup> nat) \<Rightarrow> labels \<Rightarrow> nat" where
  "series_count g l = (case g l of None \<Rightarrow> 0 | Some x \<Rightarrow> x)"

interpretation reference_counter: counter_vec Suc "\<lambda>v x. x" reference_counter_vec series_count
  by unfold_locales (auto simp: reference_counter_vec_def series_count_def fun_eq_iff)

lemma event_labels_eq:
  "to_labels [(LabelType, t), (LabelReason, r)] = to_labels [(LabelType, t'), (LabelReason, r')] \<longleftrightarrow> t = t' \<and> r = r'"
  by (auto simp: to_labels_def label_defs)

section \<open>Properties\<close>

text \<open>
  Property C30. After any deliveries of events, in any order, the series of a type and a reason has grown by the number of
  the deliveries of that type and reason that are of the controller's kind and version and happened
  strictly after the controller started; every call of \<open>Reconcile\<close> returns without an error or a
  requeue, and uses the label names its metric is registered with. Nothing else changes.
\<close>

theorem event_counts:
  assumes "counter_metric C tally" and "NewEventsController lower g now = (c, d)"
  shows "fst (events_Reconcile C c ev st) = (empty_result, None)
   \<and> label_keys (to_labels [(LabelType, t), (LabelReason, r)]) = set (desc_labelNames d)
   \<and> tally (fold (events_deliver gv C c) evs st) (to_labels [(LabelType, t), (LabelReason, r)])
       = tally st (to_labels [(LabelType, t), (LabelReason, r)])
         + length (filter (\<lambda>ev. InvolvedObject_Kind ev = gvk_Kind g
             \<and> InvolvedObject_APIVersion ev = gv (gvk_Group g) (gvk_Version g)
             \<and> now < LastTimestamp ev \<and> Event_Type ev = t \<and> Event_Reason ev = r) evs)
   \<and> ((\<nexists>t r. l = to_labels [(LabelType, t), (LabelReason, r)]) \<longrightarrow>
       tally (fold (events_deliver gv C c) evs st) l = tally st l)"
proof (intro conjI impI)
  note run = counter_metric.count_run [OF assms(1), of gv c]
  have c: "events_gvk c = g" "startTime c = now" and d: "d = eventTotalMetric (lower (gvk_Kind g))"
    using assms(2) by (auto simp: NewEventsController_def)
  show "fst (events_Reconcile C c ev st) = (empty_result, None)" by (simp add: events_Reconcile_def)
  show "label_keys (to_labels [(LabelType, t), (LabelReason, r)]) = set (desc_labelNames d)"
    by (simp add: d eventTotalMetric_def insert_commute)
  show "tally (fold (events_deliver gv C c) evs st) (to_labels [(LabelType, t), (LabelReason, r)])
       = tally st (to_labels [(LabelType, t), (LabelReason, r)])
         + length (filter (\<lambda>ev. InvolvedObject_Kind ev = gvk_Kind g
             \<and> InvolvedObject_APIVersion ev = gv (gvk_Group g) (gvk_Version g)
             \<and> now < LastTimestamp ev \<and> Event_Type ev = t \<and> Event_Reason ev = r) evs)"
    unfolding run event_labels_eq by (simp add: events_predicate_def c conj_assoc)
  assume "\<nexists>t r. l = to_labels [(LabelType, t), (LabelReason, r)]"
  then have "filter (\<lambda>ev. events_predicate gv c ev \<and> startTime c < LastTimestamp ev
       \<and> to_labels [(LabelType, Event_Type ev), (LabelReason, Event_Reason ev)] = l) evs = []"
    by (auto simp: filter_empty_conv)
  then show "tally (fold (events_deliver gv C c) evs st) l = tally st l" unfolding run by simp
qed

definition demo_event :: "string \<Rightarrow> go_time \<Rightarrow> event" where
  "demo_event reason t = \<lparr>InvolvedObject_Kind = ''Node'', InvolvedObject_APIVersion = ''v1'', Event_Type = ''Normal'',
     Event_Reason = reason, LastTimestamp = t\<rparr>"

theorem event_counts_witness:
  "\<exists>c d. NewEventsController (\<lambda>s. s) \<lparr>gvk_Group = [], gvk_Version = ''v1'', gvk_Kind = ''Node''\<rparr> 5 = (c, d :: nat metric_desc)
     \<and> series_count (fold (events_deliver (\<lambda>g v. v) (PrometheusCounter Suc (\<lambda>v x. x) reference_counter_vec) c)
         [demo_event ''A'' 5, demo_event ''A'' 6, demo_event ''B'' 7, demo_event ''A'' 8] Map.empty)
         (to_labels [(LabelType, ''Normal''), (LabelReason, ''A'')]) = 2"
proof -
  obtain c and d :: "nat metric_desc" where
    c: "NewEventsController (\<lambda>s. s) \<lparr>gvk_Group = [], gvk_Version = ''v1'', gvk_Kind = ''Node''\<rparr> 5 = (c, d)" by fastforce
  from event_counts [OF reference_counter.prometheus_counter.counter_metric_axioms c, of _ Map.empty "''Normal''" "''A''"
      "\<lambda>g v. v" "[demo_event ''A'' 5, demo_event ''A'' 6, demo_event ''B'' 7, demo_event ''A'' 8]"] c
  show ?thesis by (auto simp: demo_event_def series_count_def)
qed

end
