(* ===== verification/Env.thy ===== *)
theory Env
  imports Object
begin

section \<open>Environment variables, options and context values\<close>

text \<open>
  \<open>env/env.go\<close>, \<open>option/environment.go\<close> and the two accessors of \<open>context/context.go\<close>. The environment is a map, as
  \<open>os.LookupEnv\<close> reads it. The parsers are those of the standard library: \<open>strconv.ParseInt(s, 10, 64)\<close>, which \<open>Atoi\<close>
  is on a 64-bit platform, \<open>strconv.ParseBool\<close> and \<open>time.ParseDuration\<close>. An \<open>int\<close>, \<open>int64\<close> or \<open>time.Duration\<close> is an \<open>int\<close>
  within the bounds of 64 bits; a parse error is \<open>None\<close>. The one use of floating point, the fraction
  \<open>f / scale\<close> of a unit in \<open>ParseDuration\<close>, is the parameter \<open>fraction\<close>.
\<close>

definition min_int64 :: int where "min_int64 = - (2 ^ 63)"
definition max_int64 :: int where "max_int64 = 2 ^ 63 - 1"

definition int64_ok :: "int \<Rightarrow> bool" where
  "int64_ok i \<longleftrightarrow> min_int64 \<le> i \<and> i \<le> max_int64"

definition is_digit :: "char \<Rightarrow> bool" where
  "is_digit c \<longleftrightarrow> 48 \<le> (of_char c :: nat) \<and> (of_char c :: nat) \<le> 57"

definition digits_value :: "string \<Rightarrow> nat" where
  "digits_value s = fold (\<lambda>c n. 10 * n + (of_char c - 48)) s 0"

definition ParseInt :: "string \<Rightarrow> int option" where
  "ParseInt s =
     (let neg = (s \<noteq> [] \<and> hd s = CHR ''-'');
          ds = (if s \<noteq> [] \<and> hd s \<in> {CHR ''-'', CHR ''+''} then tl s else s)
      in if ds = [] \<or> \<not> list_all is_digit ds then None
         else let i = (if neg then - int (digits_value ds) else int (digits_value ds))
              in if int64_ok i then Some i else None)"

definition ParseBool :: "string \<Rightarrow> bool option" where
  "ParseBool s =
     (if s \<in> {''1'', ''t'', ''T'', ''true'', ''TRUE'', ''True''} then Some True
      else if s \<in> {''0'', ''f'', ''F'', ''false'', ''FALSE'', ''False''} then Some False
      else None)"

subsection \<open>time.ParseDuration\<close>

text \<open>The units in nanoseconds; the micro sign and the Greek letter mu are two bytes each.\<close>

definition unitMap :: "string \<rightharpoonup> nat" where
  "unitMap = map_of [(''ns'', 1), (''us'', 1000), ([CHR 0xC2, CHR 0xB5, CHR ''s''], 1000),
     ([CHR 0xCE, CHR 0xBC, CHR ''s''], 1000), (''ms'', 1000000), (''s'', 1000000000),
     (''m'', 60000000000), (''h'', 3600000000000)]"

text \<open>
  The digits before the point fail once the value exceeds \<open>2 ^ 63\<close>. Those of a fraction stop counting then, and
  \<open>scale\<close> is the power of ten of the digits counted.
\<close>

definition leadingInt :: "string \<Rightarrow> (nat \<times> string) option" where
  "leadingInt s =
     (let ds = takeWhile is_digit s
      in if digits_value ds > 2 ^ 63 then None else Some (digits_value ds, dropWhile is_digit s))"

fun fraction_loop :: "string \<Rightarrow> nat \<Rightarrow> nat \<Rightarrow> bool \<Rightarrow> nat \<times> nat" where
  "fraction_loop [] x scale overflow = (x, scale)"
| "fraction_loop (c # cs) x scale overflow =
     (if overflow then fraction_loop cs x scale overflow
      else if x > (2 ^ 63 - 1) div 10 then fraction_loop cs x scale True
      else let y = x * 10 + (of_char c - 48)
           in if y > 2 ^ 63 then fraction_loop cs x scale True else fraction_loop cs y (scale * 10) False)"

definition leadingFraction :: "string \<Rightarrow> (nat \<times> nat) \<times> string" where
  "leadingFraction s = (fraction_loop (takeWhile is_digit s) 0 1 False, dropWhile is_digit s)"

definition unit_char :: "char \<Rightarrow> bool" where
  "unit_char c \<longleftrightarrow> c \<noteq> CHR ''.'' \<and> \<not> is_digit c"

text \<open>
  One round of the loop: a number with its unit, as nanoseconds, and the rest of the string. The sum of the rounds is an
  unsigned 64-bit integer.
\<close>

definition duration_part :: "(nat \<Rightarrow> nat \<Rightarrow> nat \<Rightarrow> nat) \<Rightarrow> string \<Rightarrow> (nat \<times> string) option" where
  "duration_part fraction s =
     (case leadingInt s of
        None \<Rightarrow> None
      | Some (v, s1) \<Rightarrow>
          let pre = (length s1 \<noteq> length s);
              point = (s1 \<noteq> [] \<and> hd s1 = CHR ''.'');
              ((f, scale), s2) = (if point then leadingFraction (tl s1) else ((0, 1), s1));
              post = (point \<and> length s2 \<noteq> length (tl s1));
              u = takeWhile unit_char s2;
              rest = dropWhile unit_char s2
          in if \<not> pre \<and> \<not> post \<or> u = [] then None
             else (case unitMap u of
                 None \<Rightarrow> None
               | Some unt \<Rightarrow>
                   if v > 2 ^ 63 div unt then None
                   else let v = v * unt;
                            v' = (if f > 0 then v + fraction f unt scale else v)
                        in if v' > 2 ^ 63 then None else Some (v', rest)))"

lemma length_duration_part:
  assumes "duration_part fraction s = Some (v, rest)"
  shows "length rest < length s"
proof -
  obtain n s1 where 1: "leadingInt s = Some (n, s1)" "length s1 \<le> length s"
    using assms by (auto simp: duration_part_def leadingInt_def Let_def length_dropWhile_le split: option.splits if_splits)
  define s2 where "s2 = (if s1 \<noteq> [] \<and> hd s1 = CHR ''.'' then snd (leadingFraction (tl s1)) else s1)"
  have 2: "length s2 \<le> length s1"
    by (auto simp: s2_def leadingFraction_def intro: order_trans [OF length_dropWhile_le])
  have "rest = dropWhile unit_char s2" and "takeWhile unit_char s2 \<noteq> []"
    using assms 1(1) by (auto simp: duration_part_def s2_def Let_def split: option.splits if_splits prod.splits)
  then have "length rest < length s2"
    using arg_cong [OF takeWhile_dropWhile_id [of unit_char s2], of length] by (cases "takeWhile unit_char s2") auto
  with 1(2) 2 show ?thesis by simp
qed

function duration_loop :: "(nat \<Rightarrow> nat \<Rightarrow> nat \<Rightarrow> nat) \<Rightarrow> nat \<Rightarrow> string \<Rightarrow> nat option" where
  "duration_loop fraction d s =
     (if s = [] then Some d
      else case duration_part fraction s of
        None \<Rightarrow> None
      | Some (v, rest) \<Rightarrow>
          let d = (d + v) mod 2 ^ 64 in if d > 2 ^ 63 then None else duration_loop fraction d rest)"
  by pat_completeness auto
termination
  by (relation "measure (\<lambda>(fraction, d, s). length s)") (auto dest: length_duration_part)

declare duration_loop.simps [simp del]

definition ParseDuration :: "(nat \<Rightarrow> nat \<Rightarrow> nat \<Rightarrow> nat) \<Rightarrow> string \<Rightarrow> duration option" where
  "ParseDuration fraction orig =
     (let neg = (orig \<noteq> [] \<and> hd orig = CHR ''-'');
          s = (if orig \<noteq> [] \<and> hd orig \<in> {CHR ''-'', CHR ''+''} then tl orig else orig)
      in if s = ''0'' then Some 0
         else if s = [] then None
         else case duration_loop fraction 0 s of
             None \<Rightarrow> None
           | Some d \<Rightarrow> if neg then Some (- int d) else if int d > max_int64 then None else Some (int d))"

subsection \<open>Defaults\<close>

type_synonym environment = "string \<rightharpoonup> string"

definition WithDefaultInt :: "environment \<Rightarrow> string \<Rightarrow> int \<Rightarrow> int" where
  "WithDefaultInt env key def =
     (case env key of None \<Rightarrow> def | Some val \<Rightarrow> (case ParseInt val of None \<Rightarrow> def | Some i \<Rightarrow> i))"

definition WithDefaultInt64 :: "environment \<Rightarrow> string \<Rightarrow> int \<Rightarrow> int" where
  "WithDefaultInt64 env key def =
     (case env key of None \<Rightarrow> def | Some val \<Rightarrow> (case ParseInt val of None \<Rightarrow> def | Some i \<Rightarrow> i))"

definition WithDefaultString :: "environment \<Rightarrow> string \<Rightarrow> string \<Rightarrow> string" where
  "WithDefaultString env key def = (case env key of None \<Rightarrow> def | Some val \<Rightarrow> val)"

definition WithDefaultBool :: "environment \<Rightarrow> string \<Rightarrow> bool \<Rightarrow> bool" where
  "WithDefaultBool env key def =
     (case env key of None \<Rightarrow> def | Some val \<Rightarrow> (case ParseBool val of None \<Rightarrow> def | Some b \<Rightarrow> b))"

definition WithDefaultDuration :: "(nat \<Rightarrow> nat \<Rightarrow> nat \<Rightarrow> nat) \<Rightarrow> environment \<Rightarrow> string \<Rightarrow> duration \<Rightarrow> duration" where
  "WithDefaultDuration fraction env key def =
     (case env key of None \<Rightarrow> def | Some val \<Rightarrow> (case ParseDuration fraction val of None \<Rightarrow> def | Some d \<Rightarrow> d))"

definition MustGetEnv :: "environment \<Rightarrow> string \<Rightarrow> string go" where
  "MustGetEnv env name =
     (case env name of None \<Rightarrow> Inl (MustFailed (''env var '' @ name @ '' must exist'')) | Some val \<Rightarrow> Inr val)"

subsection \<open>Context values\<close>

text \<open>
  A context is the values put into it, the latest first, under the types of the pointers to them; a pointer is an
  option. What other code puts into a context under keys of its own is not part of the list.
\<close>

type_synonym ('t, 'v) context_values = "('t \<times> 'v option) list"

definition Into :: "'t \<Rightarrow> 'v option \<Rightarrow> ('t, 'v) context_values \<Rightarrow> ('t, 'v) context_values" where
  "Into t v parent = (t, v) # parent"

definition From :: "'t \<Rightarrow> ('t, 'v) context_values \<Rightarrow> 'v option" where
  "From t ctx = (case map_of ctx t of None \<Rightarrow> None | Some v \<Rightarrow> v)"

text \<open>
  \<open>New\<close>: the context that ends with a signal, with the logger for the stage in it, which is also set as the logger of
  \<open>klog\<close> and of controller-runtime (the second result). What zap returns for its two configurations are arguments.
\<close>

definition context_New :: "environment \<Rightarrow> ('t, 'v) context_values \<Rightarrow> string + 'c \<Rightarrow> string + 'c \<Rightarrow> ('c \<Rightarrow> 'v) \<Rightarrow> 't
    \<Rightarrow> (('t, 'v) context_values \<times> 'v) go" where
  "context_New env signal_context NewDevelopment NewProduction zapr_NewLogger logger_type =
     (case (if env ''STAGE'' = Some ''dev'' then NewDevelopment else NewProduction) of
        Inl e \<Rightarrow> Inl (MustFailed e)
      | Inr config \<Rightarrow>
          let logger = zapr_NewLogger config
          in Inr (Into logger_type (Some logger) signal_context, logger))"

lemma From_Into: "From t (Into t' v ctx) = (if t = t' then v else From t ctx)"
  by (simp add: From_def Into_def)

lemma context_New_logger: "context_New env ctx d p zapr t = Inr (ctx', logger) \<Longrightarrow> From t ctx' = Some logger"
  by (auto simp: context_New_def Let_def From_Into split: sum.splits if_splits)

section \<open>What the parsers accept\<close>

definition FormatInt :: "int \<Rightarrow> string" where
  "FormatInt i = (if i < 0 then CHR ''-'' # FormatUint10 (nat (- i)) else FormatUint10 (nat i))"

lemma digits_value_snoc: "digits_value (s @ [c]) = 10 * digits_value s + (of_char c - 48)"
  by (simp add: digits_value_def)

lemma is_digit_char: "n < (10 :: nat) \<Longrightarrow> is_digit (char_of (48 + n))"
  by (simp add: is_digit_def)

lemma digits_format: "digits_value (FormatUint10 n) = n \<and> list_all is_digit (FormatUint10 n)"
proof (induction n rule: FormatUint10.induct)
  case (1 n)
  show ?case
  proof (cases "n < 10")
    case True
    then show ?thesis
      by (subst (1 2) FormatUint10.simps) (simp add: digits_value_def is_digit_char)
  next
    case False
    with 1 show ?thesis
      by (subst (1 2) FormatUint10.simps) (simp add: digits_value_snoc is_digit_char)
  qed
qed

lemma sign_not_digit: "\<not> is_digit CHR ''-''" "\<not> is_digit CHR ''+''" "\<not> is_digit CHR ''.''"
  by (simp_all add: is_digit_def)

lemma format_head: "hd (FormatUint10 n) \<noteq> CHR ''-'' \<and> hd (FormatUint10 n) \<noteq> CHR ''+''"
proof -
  have "is_digit (hd (FormatUint10 n))"
    using digits_format [of n] FormatUint10_not_Nil [of n] by (cases "FormatUint10 n") auto
  then show ?thesis by (auto simp: sign_not_digit)
qed

lemma ParseInt_format: "ParseInt (FormatInt i) = (if int64_ok i then Some i else None)"
  using digits_format [of "nat i"] digits_format [of "nat (- i)"] format_head [of "nat i"]
    FormatUint10_not_Nil [of "nat i"] FormatUint10_not_Nil [of "nat (- i)"]
  by (auto simp: ParseInt_def FormatInt_def Let_def)

lemma ParseInt_bounds: "ParseInt s = Some i \<Longrightarrow> int64_ok i"
  by (auto simp: ParseInt_def Let_def split: if_splits)

lemma duration_loop_bound: "d \<le> 2 ^ 63 \<Longrightarrow> duration_loop fraction d s = Some e \<Longrightarrow> e \<le> 2 ^ 63"
proof (induction fraction d s rule: duration_loop.induct)
  case (1 fraction d s)
  from 1(3) show ?case
    by (subst (asm) duration_loop.simps)
      (use 1 in \<open>auto simp: Let_def simp del: One_nat_def split: if_splits option.splits prod.splits\<close>)
qed

lemma ParseDuration_bounds: "ParseDuration fraction s = Some d \<Longrightarrow> int64_ok d"
  by (auto simp: ParseDuration_def Let_def int64_ok_def min_int64_def max_int64_def
      split: if_splits option.splits dest!: duration_loop_bound [rotated])

lemma unitMap_ok: "unitMap u = Some k \<Longrightarrow> u \<noteq> [] \<and> list_all unit_char u \<and> k > 0"
  by (auto simp: unitMap_def unit_char_def is_digit_def split: if_splits)

lemma takeWhile_digits:
  "list_all is_digit ds \<Longrightarrow> list_all unit_char u \<Longrightarrow> takeWhile is_digit (ds @ u) = ds \<and> dropWhile is_digit (ds @ u) = u"
  by (induction ds) (cases u; auto simp: unit_char_def)+

lemma duration_part_unit:
  assumes "unitMap u = Some k"
  shows "duration_part fraction (FormatUint10 n @ u) = (if n * k \<le> 2 ^ 63 then Some (n * k, []) else None)"
proof -
  have u: "u \<noteq> []" "list_all unit_char u" "k > 0" using unitMap_ok [OF assms] by auto
  then have dot: "hd u \<noteq> CHR ''.''" by (cases u) (auto simp: unit_char_def)
  have tw: "takeWhile unit_char u = u" "dropWhile unit_char u = []"
    using u(2) by (simp_all add: list_all_iff)
  have bound: "n \<le> 2 ^ 63" if "n * k \<le> 2 ^ 63"
    using order_trans [OF _ that, of n] u(3) by (cases k) auto
  have ovf: "2 ^ 63 div k < n \<longleftrightarrow> \<not> n * k \<le> 2 ^ 63"
    using less_eq_div_iff_mult_less_eq [OF u(3), of n "2 ^ 63"] by (simp only: not_le [symmetric])
  have ds: "takeWhile is_digit (FormatUint10 n @ u) = FormatUint10 n" "dropWhile is_digit (FormatUint10 n @ u) = u"
    "digits_value (FormatUint10 n) = n"
    using digits_format [of n] takeWhile_digits [of "FormatUint10 n" u] u(2) by auto
  show ?thesis
  proof (cases "n \<le> 2 ^ 63")
    case True
    then have "leadingInt (FormatUint10 n @ u) = Some (n, u)" by (simp add: leadingInt_def ds Let_def)
    then show ?thesis
      using u(1) FormatUint10_not_Nil [of n]
      by (simp only: duration_part_def option.case prod.case Let_def dot simp_thms if_False tw assms ovf if_True
          length_append snd_conv fst_conv) (simp add: length_0_conv)
  next
    case False
    then have "leadingInt (FormatUint10 n @ u) = None" by (simp add: leadingInt_def ds Let_def)
    with False bound show ?thesis by (auto simp: duration_part_def)
  qed
qed

lemma ParseDuration_format:
  assumes "unitMap u = Some k"
  shows "ParseDuration fraction (FormatInt i @ u) = (if int64_ok (i * int k) then Some (i * int k) else None)"
proof -
  have u: "u \<noteq> []" "list_all unit_char u" "k > 0" using unitMap_ok [OF assms] by auto
  let ?n = "nat \<bar>i\<bar>"
  have ne: "FormatUint10 ?n @ u \<noteq> ''0''" "FormatUint10 ?n @ u \<noteq> []"
    using u FormatUint10_not_Nil [of ?n] by (auto simp: append_eq_Cons_conv)
  have hd: "hd (FormatUint10 ?n @ u) \<noteq> CHR ''-''" "hd (FormatUint10 ?n @ u) \<noteq> CHR ''+''"
    using format_head [of ?n] FormatUint10_not_Nil [of ?n] by auto
  have loop: "duration_loop fraction 0 (FormatUint10 ?n @ u) = (if ?n * k \<le> 2 ^ 63 then Some (?n * k) else None)"
    by (subst duration_loop.simps, simp only: ne(2) if_False duration_part_unit [OF assms])
      (simp add: duration_loop.simps [of _ _ "[]"])
  obtain N where N: "N = ?n * k" by blast
  show ?thesis
  proof (cases "i < 0")
    case True
    then have "i * int k = - int N" and "nat (- i) = ?n" by (simp_all add: N)
    then show ?thesis
      using True ne u(1) loop [folded N]
      by (simp add: ParseDuration_def FormatInt_def Let_def int64_ok_def min_int64_def max_int64_def)
  next
    case False
    then have "i * int k = int N" and "nat i = ?n" by (simp_all add: N)
    then show ?thesis
      using False ne u(1) hd loop [folded N]
      by (simp add: ParseDuration_def FormatInt_def Let_def int64_ok_def min_int64_def max_int64_def)
  qed
qed

section \<open>Properties\<close>

text \<open>
  Property C31. An integer variable is read exactly when it holds the decimal form of an integer of 64 bits,
  and a duration when it holds a whole number of one of the units that is a duration of 64 bits; the
  default is returned for one out of these bounds as for one that is not set. Whatever the variable holds, the
  result is within the bounds if the default is.
\<close>

theorem env_bounds:
  shows "(int64_ok def \<longrightarrow> int64_ok (WithDefaultInt env key def) \<and> int64_ok (WithDefaultInt64 env key def)
            \<and> int64_ok (WithDefaultDuration fraction env key def))
   \<and> (env key = Some (FormatInt i) \<longrightarrow>
        WithDefaultInt env key def = (if int64_ok i then i else def)
        \<and> WithDefaultInt64 env key def = (if int64_ok i then i else def))
   \<and> (env key = Some (FormatInt i @ u) \<and> unitMap u = Some k \<longrightarrow>
        WithDefaultDuration fraction env key def = (if int64_ok (i * int k) then i * int k else def))
   \<and> (env key = None \<longrightarrow> WithDefaultInt env key def = def \<and> WithDefaultInt64 env key def = def
        \<and> WithDefaultDuration fraction env key def = def)"
  by (simp add: WithDefaultInt_def WithDefaultInt64_def WithDefaultDuration_def ParseInt_format ParseDuration_format
      ParseInt_bounds ParseDuration_bounds split: option.split)

theorem env_bounds_witness:
  "WithDefaultInt [''N'' \<mapsto> ''-42''] ''N'' 7 = -42
   \<and> WithDefaultInt [''N'' \<mapsto> ''9223372036854775808''] ''N'' 7 = 7
   \<and> WithDefaultDuration (\<lambda>f u s. 0) [''T'' \<mapsto> ''90m''] ''T'' 7 = 5400000000000
   \<and> WithDefaultDuration (\<lambda>f u s. 0) [''T'' \<mapsto> ''2562048h''] ''T'' 7 = 7"
proof -
  have f: "FormatInt (-42) = ''-42''" "FormatInt 9223372036854775808 = ''9223372036854775808''"
      "FormatInt 90 = ''90''" "FormatInt 2562048 = ''2562048''"
    by (simp_all add: FormatInt_def FormatUint10.simps char_of_def bit_0)
  show ?thesis
    using env_bounds [of 7 "[''N'' \<mapsto> ''-42'']" "''N''" "\<lambda>f u s. 0" "-42"]
      env_bounds [of 7 "[''N'' \<mapsto> ''9223372036854775808'']" "''N''" "\<lambda>f u s. 0" 9223372036854775808]
      env_bounds [of 7 "[''T'' \<mapsto> ''90m'']" "''T''" "\<lambda>f u s. 0" 90 "''m''" 60000000000]
      env_bounds [of 7 "[''T'' \<mapsto> ''2562048h'']" "''T''" "\<lambda>f u s. 0" 2562048 "''h''" 3600000000000]
    unfolding f
    by (simp add: int64_ok_def min_int64_def max_int64_def unitMap_def)
qed

end
