(* ===== verification/Lease.thy ===== *)
theory Lease
  imports Env "HOL-Library.Word"
begin

section \<open>Taking over a leader election lease\<close>

text \<open>
  \<open>leaderelection/leasehijacker.go\<close>. Pointers of the lease are options, its two counters 32-bit integers that wrap
  around. What the API server, the host and \<open>resourcelock.New\<close> return are arguments; the \<open>OrDie\<close> constructors of
  the clients are assumed to succeed. The updates of the lease and the sleeps are recorded as effects, a reading of the
  clock is \<open>clk n\<close>, the first one of the call number \<open>k\<close>.
\<close>

record lease_spec =
  HolderIdentity :: "string option"
  LeaseDurationSeconds :: "32 word option"
  AcquireTime :: "go_time option"
  RenewTime :: "go_time option"
  LeaseTransitions :: "32 word option"

datatype lease_effect = UpdateLease lease_spec | Sleep duration

definition Second :: duration where "Second = 1000000000"

definition LeaseHijacker ::
  "environment \<Rightarrow> string + lease_spec \<Rightarrow> string + string \<Rightarrow> string \<Rightarrow> (lease_spec \<Rightarrow> string option)
     \<Rightarrow> (string \<Rightarrow> string + 'l) \<Rightarrow> clock \<Rightarrow> nat \<Rightarrow> 'l option go \<times> lease_effect list" where
  "LeaseHijacker env Get Hostname NewUUID Update New clk k =
     (if (case env ''HIJACK_LEASE'' of None \<Rightarrow> [] | Some v \<Rightarrow> v) \<noteq> ''true'' then (Inr None, [])
      else case Get of
        Inl err \<Rightarrow> (Inl (MustFailed err), [])
      | Inr lease \<Rightarrow>
         (case (RenewTime lease, LeaseDurationSeconds lease) of
            (Some renew, Some seconds) \<Rightarrow>
              let untilElection = time_Sub (renew + sint seconds * Second) (clk k)
              in (case Hostname of
                 Inl err \<Rightarrow> (Inl (MustFailed err), [])
               | Inr host \<Rightarrow>
                   let holder = host @ ''_'' @ NewUUID;
                       lease = lease\<lparr>HolderIdentity := Some holder, AcquireTime := Some (clk (k + 1)),
                         RenewTime := Some (clk (k + 2)), LeaseDurationSeconds := Some (seconds + 5)\<rparr>
                   in (case LeaseTransitions lease of
                        None \<Rightarrow> (Inl NilDereference, [])
                      | Some n \<Rightarrow>
                          let lease = lease\<lparr>LeaseTransitions := Some (n + 1)\<rparr>
                          in (case Update lease of
                               Some err \<Rightarrow> (Inl (MustFailed err), [UpdateLease lease])
                             | None \<Rightarrow>
                                 (case New holder of
                                    Inl err \<Rightarrow> (Inl (MustFailed err), [UpdateLease lease, Sleep untilElection])
                                  | Inr lock \<Rightarrow> (Inr (Some lock), [UpdateLease lease, Sleep untilElection])))))
          | _ \<Rightarrow> (Inl NilDereference, [])))"

lemma sint_add5: "sint seconds \<le> 2 ^ 31 - 6 \<Longrightarrow> sint (seconds + 5 :: 32 word) = sint seconds + 5"
  using sint_greater_eq [of seconds]
  by (simp add: sint_word_ariths signed_take_bit_int_eq_self)

lemma hijack_sleep:
  assumes "0 \<le> secs" and "secs \<le> 2 ^ 31 - 6" and "renew \<le> now"
  shows "max 0 (time_Sub (renew + secs * Second) now) = max 0 (renew + secs * Second - now)"
proof -
  have "renew + secs * Second - now \<le> max_duration"
    using assms by (simp add: Second_def max_duration_def)
  then show ?thesis by (simp add: time_Sub_def min_duration_def)
qed

lemma hijack_deadlines:
  assumes "0 \<le> secs" and "secs \<le> 2 ^ 31 - 6" and "renew \<le> now" and "now \<le> renew'"
    and "renew' \<le> start" and "start < renew' + 5 * Second"
  shows "renew + secs * Second \<le> start + max 0 (time_Sub (renew + secs * Second) now)"
    and "start + max 0 (time_Sub (renew + secs * Second) now) < renew' + (secs + 5) * Second"
  unfolding hijack_sleep [OF assms(1-3)] using assms by (auto simp: Second_def max_def)

section \<open>Properties\<close>

text \<open>
  Property C32. With \<open>HIJACK_LEASE\<close> set, a complete lease that was not renewed in the future is taken over: it is
  updated once, to a new holder, whose identity the returned lock has, with one more transition, and the call
  sleeps. If the update took less than five seconds, then at the end of the sleep the old lease has run out and the new one
  has not. Nothing is updated if a field of the lease is missing (the call panics), or if the variable is not set.
\<close>

theorem lease_hijacked:
  assumes "0 \<le> sint seconds" and "sint seconds \<le> 2 ^ 31 - 6" and "renew \<le> clk k" and "clk k \<le> clk (k + 2)"
    and "clk (k + 2) \<le> start" and "start < clk (k + 2) + 5 * Second"
  shows "(env ''HIJACK_LEASE'' \<noteq> Some ''true'' \<longrightarrow>
        LeaseHijacker env Get Hostname uuid Update New clk k = (Inr None, []))
   \<and> (env ''HIJACK_LEASE'' = Some ''true'' \<and> Get = Inr lease \<and> Hostname = Inr host
        \<and> RenewTime lease = Some renew \<and> LeaseDurationSeconds lease = Some seconds \<longrightarrow>
        (LeaseTransitions lease = None \<longrightarrow>
           LeaseHijacker env Get Hostname uuid Update New clk k = (Inl NilDereference, []))
        \<and> (LeaseTransitions lease = Some n \<and> (\<forall>l. Update l = None) \<and> New (host @ ''_'' @ uuid) = Inr lock \<longrightarrow>
           (\<exists>l d. LeaseHijacker env Get Hostname uuid Update New clk k = (Inr (Some lock), [UpdateLease l, Sleep d])
              \<and> HolderIdentity l = Some (host @ ''_'' @ uuid) \<and> LeaseTransitions l = Some (n + 1)
              \<and> (\<exists>renew' seconds'. RenewTime l = Some renew' \<and> LeaseDurationSeconds l = Some seconds'
                   \<and> renew + sint seconds * Second \<le> start + max 0 d
                   \<and> start + max 0 d < renew' + sint seconds' * Second))))"
  using hijack_deadlines [OF assms] sint_add5 [OF assms(2)]
  by (auto simp: LeaseHijacker_def Let_def split: option.splits)

definition demo_lease :: lease_spec where
  "demo_lease = \<lparr>HolderIdentity = Some ''other'', LeaseDurationSeconds = Some 15, AcquireTime = Some 0,
     RenewTime = Some 1000000000, LeaseTransitions = Some 3\<rparr>"

theorem lease_hijacked_witness:
  "\<exists>l d. LeaseHijacker [''HIJACK_LEASE'' \<mapsto> ''true''] (Inr demo_lease) (Inr ''host'') ''42'' (\<lambda>_. None) Inr
       (\<lambda>n. 2000000000 + int n) 0 = (Inr (Some ''host_42''), [UpdateLease l, Sleep d])
     \<and> LeaseTransitions l = Some 4 \<and> 16000000000 \<le> 3000000000 + max 0 d"
proof -
  have "0 \<le> sint (15 :: 32 word)" "sint (15 :: 32 word) \<le> 2 ^ 31 - 6" "(1000000000 :: int) \<le> 2000000000 + int 0"
    "2000000000 + int 0 \<le> 2000000000 + int (0 + 2)" "2000000000 + int (0 + 2) \<le> 3000000000"
    "3000000000 < 2000000000 + int (0 + 2) + 5 * Second"
    by (simp_all add: Second_def)
  from lease_hijacked [where clk = "\<lambda>n. 2000000000 + int n" and k = 0, OF this,
      of "[''HIJACK_LEASE'' \<mapsto> ''true'']" "Inr demo_lease" "Inr ''host''" "''42''" "\<lambda>_. None" Inr demo_lease "''host''" 3 "''host_42''"]
  show ?thesis by (fastforce simp: demo_lease_def Second_def)
qed

end
