(* ===== verification/Rfc3339.thy ===== *)
theory Rfc3339
  imports Env
begin

section \<open>RFC 3339\<close>

text \<open>
  What \<open>Format(time.RFC3339)\<close> of package \<open>time\<close> writes for an instant in UTC, and \<open>time.Parse\<close> on what it writes. The
  calendar is the proleptic Gregorian one; instants are counted from the first of January of the year 1, and the years
  0 to 9999 can be written.
\<close>

definition leap :: "nat \<Rightarrow> bool" where
  "leap y \<longleftrightarrow> y mod 4 = 0 \<and> (y mod 100 \<noteq> 0 \<or> y mod 400 = 0)"

definition year_len :: "nat \<Rightarrow> nat" where "year_len y = (if leap y then 366 else 365)"

definition month_lens :: "nat \<Rightarrow> nat list" where
  "month_lens y = [31, if leap y then 29 else 28, 31, 30, 31, 30, 31, 31, 30, 31, 30, 31]"

function year_loop :: "nat \<Rightarrow> nat \<Rightarrow> nat \<times> nat" where
  "year_loop y d = (if d < year_len y then (y, d) else year_loop (Suc y) (d - year_len y))"
  by pat_completeness auto
termination
  by (relation "measure (\<lambda>(y, d). d)") (auto simp: year_len_def)

fun month_loop :: "nat \<Rightarrow> nat list \<Rightarrow> nat \<Rightarrow> nat \<times> nat" where
  "month_loop m [] d = (m, d)"
| "month_loop m (l # ls) d = (if d < l then (m, d) else month_loop (Suc m) ls (d - l))"

definition days_before :: "nat \<Rightarrow> nat" where "days_before y = (\<Sum>i \<leftarrow> [0..<y]. year_len i)"

fun pad :: "nat \<Rightarrow> nat \<Rightarrow> string" where
  "pad 0 n = []"
| "pad (Suc k) n = pad k (n div 10) @ [char_of (48 + n mod 10)]"

definition format_fields :: "nat \<Rightarrow> nat \<Rightarrow> nat \<Rightarrow> nat \<Rightarrow> string" where
  "format_fields y m d s =
     pad 4 y @ ''-'' @ pad 2 m @ ''-'' @ pad 2 d @ ''T'' @ pad 2 (s div 3600) @ '':'' @ pad 2 (s div 60 mod 60)
     @ '':'' @ pad 2 (s mod 60) @ ''Z''"

definition year0_secs :: int where "year0_secs = 366 * 86400"

definition rfc3339_Format :: "go_time \<Rightarrow> string" where
  "rfc3339_Format t =
     (let secs = nat (t div 1000000000 + year0_secs);
          (y, r) = year_loop 0 (secs div 86400);
          (m, d) = month_loop 1 (month_lens y) r
      in format_fields y m (Suc d) (secs mod 86400))"

definition number_at :: "nat \<Rightarrow> nat \<Rightarrow> string \<Rightarrow> nat" where
  "number_at i k s = digits_value (take k (drop i s))"

definition well_formed :: "string \<Rightarrow> bool" where
  "well_formed s \<longleftrightarrow> length s = 20 \<and> s ! 4 = CHR ''-'' \<and> s ! 7 = CHR ''-'' \<and> s ! 10 = CHR ''T'' \<and> s ! 13 = CHR '':''
     \<and> s ! 16 = CHR '':'' \<and> s ! 19 = CHR ''Z''
     \<and> list_all is_digit (take 4 s @ take 2 (drop 5 s) @ take 2 (drop 8 s) @ take 2 (drop 11 s) @ take 2 (drop 14 s)
         @ take 2 (drop 17 s))"

definition rfc3339_Parse :: "string \<Rightarrow> string + go_time" where
  "rfc3339_Parse s =
     (let y = number_at 0 4 s; m = number_at 5 2 s; d = number_at 8 2 s;
          hh = number_at 11 2 s; mm = number_at 14 2 s; ss = number_at 17 2 s
      in if well_formed s \<and> 1 \<le> m \<and> m \<le> 12 \<and> 1 \<le> d \<and> d \<le> month_lens y ! (m - 1) \<and> hh < 24 \<and> mm < 60 \<and> ss < 60
         then Inr (((int (days_before y) + int (sum_list (take (m - 1) (month_lens y))) + int d - 1) * 86400
                    + int hh * 3600 + int mm * 60 + int ss - year0_secs) * 1000000000)
         else Inl ''parsing time'')"

section \<open>Parsing what was formatted\<close>

declare year_loop.simps [simp del]

lemma days_before_Suc: "days_before (Suc y) = days_before y + year_len y"
  by (simp add: days_before_def)

lemma year_loop_days:
  "year_loop y d = (y', r) \<Longrightarrow> days_before y' + r = days_before y + d \<and> r < year_len y'"
proof (induction y d rule: year_loop.induct)
  case (1 y d)
  show ?case
  proof (cases "d < year_len y")
    case True
    with 1 show ?thesis by (simp add: year_loop.simps)
  next
    case False
    then have "year_loop (Suc y) (d - year_len y) = (y', r)"
      using 1(2) by (simp add: year_loop.simps [of y d])
    with 1(1) [OF False] False show ?thesis by (auto simp: days_before_Suc)
  qed
qed

lemma days_before_closed: "days_before (Suc n) + n div 100 = 366 + 365 * n + n div 4 + n div 400"
proof (induction n)
  case (Suc n)
  have "Suc n mod 400 = 0 \<Longrightarrow> Suc n mod 100 = 0" and "Suc n mod 100 = 0 \<Longrightarrow> Suc n mod 4 = 0"
    by presburger+
  with Suc show ?case
    by (auto simp: days_before_Suc [of "Suc n"] year_len_def leap_def div_Suc)
qed (simp add: days_before_def year_len_def leap_def)

lemma month_loop_days:
  "month_loop m ls d = (m', r) \<Longrightarrow> d < sum_list ls \<Longrightarrow>
   m \<le> m' \<and> m' < m + length ls \<and> sum_list (take (m' - m) ls) + r = d \<and> r < ls ! (m' - m)"
proof (induction ls arbitrary: m d)
  case (Cons l ls)
  show ?case
  proof (cases "d < l")
    case False
    then have "Suc m \<le> m' \<and> m' < Suc m + length ls \<and> sum_list (take (m' - Suc m) ls) + r = d - l
        \<and> r < ls ! (m' - Suc m)"
      using Cons.prems by (intro Cons.IH) auto
    moreover from this have "m' - m = Suc (m' - Suc m)" by linarith
    ultimately show ?thesis using False by (simp add: le_add_diff_inverse add.assoc)
  qed (use Cons.prems in auto)
qed simp

lemma sum_month_lens: "sum_list (month_lens y) = year_len y"
  by (simp add: month_lens_def year_len_def)

lemma length_pad [simp]: "length (pad k n) = k"
  by (induction k arbitrary: n) auto

lemma pad_digits: "n < 10 ^ k \<Longrightarrow> digits_value (pad k n) = n" "list_all is_digit (pad k n)"
  by (induction k arbitrary: n) (auto simp: digits_value_snoc is_digit_char, simp add: digits_value_def)

lemma year_bound:
  assumes "days_before y + r = d" and "d < 3652425"
  shows "y < 10000"
proof (rule ccontr)
  assume "\<not> y < 10000"
  then have "days_before 10000 \<le> days_before y"
  proof (induction y)
    case (Suc y)
    show ?case
    proof (cases "y < 10000")
      case True
      with Suc.prems have "Suc y = 10000" by simp
      then show ?thesis by simp
    next
      case False
      with Suc.IH have "days_before 10000 \<le> days_before y" by simp
      with False show ?thesis by (simp add: days_before_Suc)
    qed
  qed simp
  moreover have "days_before 10000 = 3652425" using days_before_closed [of 9999] by simp
  ultimately show False using assms by simp
qed

lemma number_at_fields:
  assumes "y < 10000" "m < 100" "d < 100" "s < 86400"
  shows "number_at 0 4 (format_fields y m d s) = y" "number_at 5 2 (format_fields y m d s) = m"
    "number_at 8 2 (format_fields y m d s) = d" "number_at 11 2 (format_fields y m d s) = s div 3600"
    "number_at 14 2 (format_fields y m d s) = s div 60 mod 60" "number_at 17 2 (format_fields y m d s) = s mod 60"
proof -
  have "s div 3600 < 10 ^ 2" "s div 60 mod 60 < 10 ^ 2" "s mod 60 < 10 ^ 2"
    using assms(4) by (simp_all add: less_trans [OF mod_less_divisor])
  then show "number_at 0 4 (format_fields y m d s) = y" "number_at 5 2 (format_fields y m d s) = m"
    "number_at 8 2 (format_fields y m d s) = d" "number_at 11 2 (format_fields y m d s) = s div 3600"
    "number_at 14 2 (format_fields y m d s) = s div 60 mod 60" "number_at 17 2 (format_fields y m d s) = s mod 60"
    using assms by (simp_all add: number_at_def format_fields_def pad_digits(1) del: pad.simps)
qed

lemma well_formed_fields: "well_formed (format_fields y m d s)"
  by (simp add: well_formed_def format_fields_def nth_append pad_digits(2) del: pad.simps)

lemma rfc3339_Format_not_Nil: "rfc3339_Format t \<noteq> []"
  by (simp add: rfc3339_Format_def format_fields_def Let_def split: prod.split)

lemma clock_fields: "s div 3600 * 3600 + s div 60 mod 60 * 60 + s mod 60 = (s :: nat)"
proof -
  have "s div 3600 = s div 60 div 60" by (simp add: div_mult2_eq)
  then have "s div 3600 * 60 + s div 60 mod 60 = s div 60" by simp
  then have "s div 3600 * 3600 + s div 60 mod 60 * 60 = s div 60 * 60" by linarith
  then show ?thesis by simp
qed

lemma rfc3339_roundtrip:
  assumes "- year0_secs * 1000000000 \<le> t" and "t < 315537897600 * 1000000000"
  shows "rfc3339_Parse (rfc3339_Format t) = Inr (t - t mod 1000000000)"
proof -
  define secs where "secs = nat (t div 1000000000 + year0_secs)"
  have secs: "int secs = t div 1000000000 + year0_secs" "secs < 315569520000"
    using assms by (auto simp: secs_def year0_secs_def)
  obtain y r where y: "year_loop 0 (secs div 86400) = (y, r)" by fastforce
  obtain m d where m: "month_loop 1 (month_lens y) r = (m, d)" by fastforce
  have yr: "days_before y + r = secs div 86400" "r < year_len y"
    using year_loop_days [OF y] by (auto simp: days_before_def)
  have "y < 10000" by (rule year_bound [OF yr(1)]) (use secs(2) in simp)
  have md: "1 \<le> m" "m < 13" "sum_list (take (m - 1) (month_lens y)) + d = r" "d < month_lens y ! (m - 1)"
    using month_loop_days [OF m] yr(2) by (auto simp: sum_month_lens) (auto simp: month_lens_def)
  have "month_lens y ! (m - 1) \<in> set (month_lens y)"
    using md(1,2) by (intro nth_mem) (simp add: month_lens_def)
  then have "month_lens y ! (m - 1) \<le> 31" by (auto simp: month_lens_def split: if_splits)
  with md(4) have "Suc d < 100" by simp
  have s: "secs mod 86400 < 86400" by simp
  let ?s = "secs mod 86400"
  note at = number_at_fields [OF \<open>y < 10000\<close> less_trans [OF md(2), of 100] \<open>Suc d < 100\<close> s, simplified]
  have "rfc3339_Format t = format_fields y m (Suc d) ?s"
    by (simp add: rfc3339_Format_def secs_def [symmetric] y [simplified] m [simplified] Let_def)
  moreover have "(int (days_before y) + int (sum_list (take (m - 1) (month_lens y))) + int (Suc d) - 1) * 86400
      + int (?s div 3600) * 3600 + int (?s div 60 mod 60) * 60 + int (?s mod 60) = int secs"
  proof -
    have "int (days_before y) + int (sum_list (take (m - 1) (month_lens y))) + int (Suc d) - 1 = int (secs div 86400)"
      using yr(1) md(3) by simp
    moreover have "int (?s div 3600 * 3600 + ?s div 60 mod 60 * 60 + ?s mod 60) = int ?s"
      by (rule arg_cong [of _ _ int]) (rule clock_fields)
    moreover have "int (secs div 86400 * 86400 + ?s) = int secs" by simp
    ultimately show ?thesis by (simp only: of_nat_add of_nat_mult of_nat_numeral)
  qed
  moreover have "?s div 3600 < 24" by (simp add: less_mult_imp_div_less)
  moreover have "t div 1000000000 * 1000000000 = t - t mod 1000000000" by (simp add: minus_mod_eq_div_mult)
  ultimately show ?thesis
    using md \<open>y < 10000\<close> secs(1)
    by (simp add: rfc3339_Parse_def well_formed_fields at Let_def)
qed

text \<open>What is parsed can be written.\<close>

lemma digits_value_bound: "list_all is_digit s \<Longrightarrow> digits_value s < 10 ^ length s"
  by (induction s rule: rev_induct) (auto simp: digits_value_snoc is_digit_def, simp add: digits_value_def)

lemma days_before_mono: "y \<le> y' \<Longrightarrow> days_before y \<le> days_before y'"
  by (induction y' rule: dec_induct) (auto simp: days_before_Suc)

lemma sum_take_Suc: "m < length ls \<Longrightarrow> sum_list (take m ls) + ls ! m \<le> sum_list ls" for ls :: "nat list"
proof -
  assume "m < length ls"
  then have "ls = take m ls @ ls ! m # drop (Suc m) ls" by (simp add: id_take_nth_drop)
  then have "sum_list ls = sum_list (take m ls) + ls ! m + sum_list (drop (Suc m) ls)"
    by (metis sum_list.append sum_list.Cons add.assoc)
  then show ?thesis by simp
qed

lemma rfc3339_Parse_range:
  assumes "rfc3339_Parse s = Inr t"
  shows "- year0_secs * 1000000000 \<le> t \<and> t < 315537897600 * 1000000000 \<and> t mod 1000000000 = 0"
proof -
  let ?y = "number_at 0 4 s" and ?m = "number_at 5 2 s" and ?d = "number_at 8 2 s"
  let ?hh = "number_at 11 2 s" and ?mm = "number_at 14 2 s" and ?ss = "number_at 17 2 s"
  let ?day = "days_before ?y + sum_list (take (?m - 1) (month_lens ?y)) + (?d - 1)"
  have v: "well_formed s" "1 \<le> ?m" "?m \<le> 12" "1 \<le> ?d" "?d \<le> month_lens ?y ! (?m - 1)" "?hh < 24" "?mm < 60" "?ss < 60"
    and t: "t = ((int (days_before ?y) + int (sum_list (take (?m - 1) (month_lens ?y))) + int ?d - 1) * 86400
          + int ?hh * 3600 + int ?mm * 60 + int ?ss - year0_secs) * 1000000000"
    using assms by (auto simp: rfc3339_Parse_def Let_def split: if_splits)
  have "list_all is_digit (take 4 s)" "length (take 4 s) = 4" using v(1) by (auto simp: well_formed_def)
  then have "?y < 10000" using digits_value_bound [of "take 4 s"] by (simp add: number_at_def)
  have "?m - 1 < length (month_lens ?y)" using v(2,3) by (simp add: month_lens_def)
  from sum_take_Suc [OF this] have "?day < days_before (Suc ?y)"
    using v(4,5) by (simp add: sum_month_lens days_before_Suc)
  also have "\<dots> \<le> days_before 10000" using \<open>?y < 10000\<close> by (intro days_before_mono) simp
  also have "\<dots> = 3652425" using days_before_closed [of 9999] by simp
  finally have day: "?day < 3652425" .
  have t': "t = ((int ?day * 86400 + int ?hh * 3600 + int ?mm * 60 + int ?ss) - year0_secs) * 1000000000"
    unfolding t using v(4) by (simp add: of_nat_diff)
  have "int ?day * 86400 + int ?hh * 3600 + int ?mm * 60 + int ?ss < 3652425 * 86400"
  proof -
    have "int ?day \<le> 3652424" "int ?hh \<le> 23" "int ?mm \<le> 59" "int ?ss \<le> 59"
      using day v(6-8) by simp_all
    then show ?thesis by simp
  qed
  then show ?thesis unfolding t' by (simp add: year0_secs_def)
qed

end
