(* ===== verification/Adapter.thy ===== *)
theory Adapter
  imports StatusClaims Rfc3339
begin

section \<open>The adapter of unstructured objects\<close>

text \<open>
  \<open>status/unstructured_adapter.go\<close>: an object given as nested maps (\<open>unstructured.Unstructured\<close>) as a \<open>status.Object\<close>,
  whose conditions are the slice at \<open>status.conditions\<close>. The values are those of the theory \<open>Unstructured\<close>, with 64-bit
  integers, slices, and Go values that are not JSON as the other values. What the adapter calls of
  \<open>k8s.io/apimachinery\<close>, and the two functions of package \<open>time\<close> for RFC 3339, are the record \<open>machinery\<close>; what
  their documentation says of them is the locale \<open>apimachinery\<close>.
\<close>

datatype 'b jother = GInt64 int | GSlice "'b jother gov list" | GNotJSON 'b

type_synonym 'b jval = "'b jother gov"
type_synonym 'b content = "(string \<times> 'b jval) list"

record 'b machinery =
  NestedFieldNoCopy :: "'b content \<Rightarrow> string list \<Rightarrow> 'b jval option"
  NestedString :: "'b content \<Rightarrow> string \<Rightarrow> string"
  NestedInt64 :: "'b content \<Rightarrow> string \<Rightarrow> int"
  SetNestedSlice :: "'b content \<Rightarrow> 'b jval list \<Rightarrow> string list \<Rightarrow> 'b content"
  time_Parse :: "string \<Rightarrow> string + go_time"
  time_Format :: "go_time \<Rightarrow> string"
  u_SetGroupVersionKind :: "gvk \<Rightarrow> 'b content \<Rightarrow> 'b content"
  u_GetGeneration :: "'b content \<Rightarrow> int"
  u_GetCreationTimestamp :: "'b content \<Rightarrow> go_time"
  u_GetDeletionTimestamp :: "'b content \<Rightarrow> go_time option"
  u_GetLabels :: "'b content \<Rightarrow> strmap"
  u_GetFinalizers :: "'b content \<Rightarrow> string list"

definition conditions_path :: "string list" where "conditions_path = [''status'', ''conditions'']"

definition conversion_panic :: panic where "conversion_panic = PanicMessage ''interface conversion''"

definition NewUnstructuredAdapter :: "'b machinery \<Rightarrow> ('b jother goobj \<Rightarrow> gvk) \<Rightarrow> 'b jother goobj \<Rightarrow> 'b content go" where
  "NewUnstructuredAdapter A GVK obj =
     go_bind (ToPartialUnstructured obj [''.status.conditions''])
       (\<lambda>(u, _). Inr (u_SetGroupVersionKind A (GVK obj) u))"

text \<open>
  The adapter is its own \<open>ObjectKind\<close>: the kind is set in the map, but \<open>GroupVersionKind\<close> ignores the content: it is that of a
  new object of the type parameter.
\<close>

definition adapter_GetObjectKind :: "'b content \<Rightarrow> 'b content" where
  "adapter_GetObjectKind u = u"

definition adapter_SetGroupVersionKind :: "'b machinery \<Rightarrow> gvk \<Rightarrow> 'b content \<Rightarrow> 'b content" where
  "adapter_SetGroupVersionKind A g u = u_SetGroupVersionKind A g u"

definition adapter_GroupVersionKind :: "('o \<Rightarrow> gvk) \<Rightarrow> 'o \<Rightarrow> 'b content \<Rightarrow> gvk" where
  "adapter_GroupVersionKind GVK new u = GVK new"

definition adapter_condition :: "'b machinery \<Rightarrow> 'b jval \<Rightarrow> condition go" where
  "adapter_condition A v =
     (case v of
        GMap True cond \<Rightarrow>
          (let c = \<lparr>Type = NestedString A cond ''type'', Status = [], ObservedGeneration = 0, LastTransitionTime = 0,
                    Reason = NestedString A cond ''reason'', Message = []\<rparr>;
               status = NestedString A cond ''status'';
               c = (if status \<noteq> [] then c\<lparr>Status := status\<rparr> else c);
               c = c\<lparr>Message := NestedString A cond ''message''\<rparr>;
               transitionTime = NestedString A cond ''lastTransitionTime''
           in if transitionTime \<noteq> []
              then (case time_Parse A transitionTime of
                      Inl err \<Rightarrow> Inl (MustFailed err)
                    | Inr t \<Rightarrow> Inr (c\<lparr>LastTransitionTime := t, ObservedGeneration := NestedInt64 A cond ''observedGeneration''\<rparr>))
              else Inr (c\<lparr>ObservedGeneration := NestedInt64 A cond ''observedGeneration''\<rparr>))
      | _ \<Rightarrow> Inl conversion_panic)"

fun go_map :: "('a \<Rightarrow> 'b go) \<Rightarrow> 'a list \<Rightarrow> 'b list go" where
  "go_map f [] = Inr []"
| "go_map f (x # xs) = go_bind (f x) (\<lambda>y. go_bind (go_map f xs) (\<lambda>ys. Inr (y # ys)))"

definition adapter_GetConditions :: "'b machinery \<Rightarrow> 'b content \<Rightarrow> condition list go" where
  "adapter_GetConditions A u =
     (case NestedFieldNoCopy A u conditions_path of
        None \<Rightarrow> Inr []
      | Some GNil \<Rightarrow> Inr []
      | Some (GOther (GSlice conditions)) \<Rightarrow> go_map (adapter_condition A) conditions
      | Some _ \<Rightarrow> Inl conversion_panic)"

definition adapter_entry :: "'b machinery \<Rightarrow> condition \<Rightarrow> 'b jval" where
  "adapter_entry A c =
     (let b = [];
          b = (if Type c \<noteq> [] then AList.update ''type'' (GString (Type c)) b else b);
          b = (if Reason c \<noteq> [] then AList.update ''reason'' (GString (Reason c)) b else b);
          b = (if Status c \<noteq> [] then AList.update ''status'' (GString (Status c)) b else b);
          b = (if Message c \<noteq> [] then AList.update ''message'' (GString (Message c)) b else b);
          b = (if \<not> time_IsZero (LastTransitionTime c)
               then AList.update ''lastTransitionTime'' (GString (time_Format A (LastTransitionTime c))) b else b);
          b = (if ObservedGeneration c \<noteq> 0
               then AList.update ''observedGeneration'' (GOther (GInt64 (ObservedGeneration c))) b else b)
      in GMap True b)"

definition adapter_SetConditions :: "'b machinery \<Rightarrow> condition list \<Rightarrow> 'b content \<Rightarrow> 'b content" where
  "adapter_SetConditions A conditions u = SetNestedSlice A u (map (adapter_entry A) conditions) conditions_path"

text \<open>
  The adapter's method table, for an object whose conditions can be read: where \<open>GetConditions\<close> panics the
  table has no conditions, and \<open>StatusConditions\<close> panics before it is used.
\<close>

definition adapter_ops :: "'b machinery \<Rightarrow> 'b content object_ops" where
  "adapter_ops A =
     \<lparr>GetConditions = (\<lambda>u. case adapter_GetConditions A u of Inl _ \<Rightarrow> [] | Inr cs \<Rightarrow> cs),
      SetConditions = adapter_SetConditions A,
      GetGeneration = u_GetGeneration A,
      GetCreationTimestamp = u_GetCreationTimestamp A,
      GetDeletionTimestamp = u_GetDeletionTimestamp A\<rparr>"

definition adapter_StatusConditions :: "'b machinery \<Rightarrow> clock \<Rightarrow> 'b content \<Rightarrow> nat
    \<Rightarrow> ('b content condition_set \<times> nat) go" where
  "adapter_StatusConditions A clk u n =
     go_bind (adapter_GetConditions A u) (\<lambda>conditions.
       cs_For (adapter_ops A) clk (NewReadyConditions (map Type conditions)) (Some u) n)"

text \<open>What the map written for a condition holds.\<close>

definition entry_lookups :: "'b machinery \<Rightarrow> condition \<Rightarrow> 'b content \<Rightarrow> bool" where
  "entry_lookups A c b \<longleftrightarrow>
     map_of b ''type'' = (if Type c = [] then None else Some (GString (Type c)))
     \<and> map_of b ''reason'' = (if Reason c = [] then None else Some (GString (Reason c)))
     \<and> map_of b ''status'' = (if Status c = [] then None else Some (GString (Status c)))
     \<and> map_of b ''message'' = (if Message c = [] then None else Some (GString (Message c)))
     \<and> map_of b ''lastTransitionTime''
         = (if LastTransitionTime c = 0 then None else Some (GString (time_Format A (LastTransitionTime c))))
     \<and> map_of b ''observedGeneration''
         = (if ObservedGeneration c = 0 then None else Some (GOther (GInt64 (ObservedGeneration c))))"

definition put_if :: "bool \<Rightarrow> string \<Rightarrow> 'v \<Rightarrow> (string \<times> 'v) list \<Rightarrow> (string \<times> 'v) list" where
  "put_if p k v b = (if p then AList.update k v b else b)"

lemma map_of_put_if: "map_of (put_if p k v b) k' = (if k = k' \<and> p then Some v else map_of b k')"
  by (simp add: put_if_def AList.update_conv')

lemma entry_map:
  obtains b where "adapter_entry A c = GMap True b" and "entry_lookups A c b"
proof
  let ?b = "put_if (ObservedGeneration c \<noteq> 0) ''observedGeneration'' (GOther (GInt64 (ObservedGeneration c)))
    (put_if (\<not> time_IsZero (LastTransitionTime c)) ''lastTransitionTime'' (GString (time_Format A (LastTransitionTime c)))
    (put_if (Message c \<noteq> []) ''message'' (GString (Message c))
    (put_if (Status c \<noteq> []) ''status'' (GString (Status c))
    (put_if (Reason c \<noteq> []) ''reason'' (GString (Reason c))
    (put_if (Type c \<noteq> []) ''type'' (GString (Type c)) [])))))"
  show "adapter_entry A c = GMap True ?b"
    unfolding adapter_entry_def put_if_def Let_def by (rule refl)
  show "entry_lookups A c ?b"
    unfolding entry_lookups_def by (simp add: map_of_put_if time_IsZero_def)
qed

subsection \<open>The generic controller\<close>

text \<open>
  \<open>GenericObjectController\<close>: the status controller on adapters. Reflection shows of an adapter the embedded struct, with the
  content as its only field. \<open>new\<close> is a new object of the type parameter, for which \<open>Reconcile\<close> makes an
  adapter before \<open>Get\<close> fills it.
\<close>

definition AdapterStatus :: "'b machinery \<Rightarrow> ('b content, 'b jother) status_object" where
  "AdapterStatus A =
     \<lparr>Conditions_ops = adapter_ops A,
      StatusConditions = (\<lambda>clk u n. go_bind (adapter_StatusConditions A clk u n)
        (\<lambda>(cs, n). Inr (case object cs of None \<Rightarrow> u | Some u' \<Rightarrow> u', cs, n))),
      GetLabels = u_GetLabels A,
      GetFinalizers = u_GetFinalizers A,
      Reflected = (\<lambda>u. Object_value (GPtr (Some (GStruct
        [(gofield ''Unstructured'' [], GStruct [(gofield ''Object'' [], GMap True u)])]))))\<rparr>"

definition generic_Reconcile :: "'b machinery \<Rightarrow> ('b jother goobj \<Rightarrow> gvk) \<Rightarrow> 'b jother goobj \<Rightarrow> controller
    \<Rightarrow> ((string \<times> 'b jval) list \<Rightarrow> string list \<Rightarrow> string) \<Rightarrow> clock \<Rightarrow> request \<Rightarrow> ('b content, 'e) get_result
    \<Rightarrow> 'b content cstate \<Rightarrow> (reconcile_result \<times> (string \<times> 'e) option \<times> 'b content cstate) go" where
  "generic_Reconcile A GVK new c NS clk req r st =
     go_bind (NewUnstructuredAdapter A GVK new)
       (\<lambda>ob0. reconcile c (AdapterStatus A) NS clk req ob0 r st)"

section \<open>Conditions of an adapter\<close>

text \<open>
  An object that has a \<open>Ready\<close> condition is not changed by \<open>StatusConditions\<close>: every condition it has becomes a
  condition type, and all of them are there.
\<close>

lemma adapter_ops_Get: "adapter_GetConditions A u = Inr cs \<Longrightarrow> GetConditions (adapter_ops A) u = cs"
  by (simp add: adapter_ops_def)

lemma For_loop_present:
  "\<forall>t \<in> set ts. cs_Get M cs t \<noteq> None \<Longrightarrow> For_loop M clk ts cs n = Inr (cs, n)"
  by (induction ts) auto

lemma adapter_StatusConditions_ready:
  assumes "adapter_GetConditions A u = Inr cs" and "ConditionReady \<in> Type ` set cs"
  shows "adapter_StatusConditions A clk u n
    = Inr (\<lparr>ctypes = NewReadyConditions (map Type cs), object = Some u\<rparr>, n)"
proof -
  have "cs_Get (adapter_ops A) \<lparr>ctypes = NewReadyConditions (map Type cs), object = Some u\<rparr> t \<noteq> None"
    if "t \<in> Type ` set cs" for t
    using that find_key_None [of Type t cs]
    by (simp add: cs_Get_def Get_object_def adapter_ops_def assms(1))
  then have "For_loop (adapter_ops A) clk (root (NewReadyConditions (map Type cs)) # dependents (NewReadyConditions (map Type cs)))
      \<lparr>ctypes = NewReadyConditions (map Type cs), object = Some u\<rparr> n
    = Inr (\<lparr>ctypes = NewReadyConditions (map Type cs), object = Some u\<rparr>, n)"
    using assms(2) by (intro For_loop_present) (auto simp: NewReadyConditions_def)
  then show ?thesis by (simp add: adapter_StatusConditions_def cs_For_def assms(1) del: For_loop.simps)
qed

section \<open>What the machinery promises\<close>

text \<open>
  Strings and integers are read from a map as they are in it, and are empty or zero where there is none; a slice that
  is set is read back, where nothing but maps is in its way (\<open>writable\<close>), nothing happens otherwise, and the metadata stays;
  the time that a formatted one parses to is its whole seconds, for the years 1 to 9999 and for every time that was
  parsed itself.
\<close>

definition end_of_rfc3339 :: go_time where "end_of_rfc3339 = 315537897600 * 1000000000"

definition whole_seconds :: "go_time \<Rightarrow> go_time" where "whole_seconds t = t - t mod 1000000000"

definition formattable :: "'b machinery \<Rightarrow> go_time \<Rightarrow> bool" where
  "formattable A t \<longleftrightarrow> time_Parse A (time_Format A t) = Inr (whole_seconds t) \<and> time_Format A t \<noteq> []"

definition writable :: "'b content \<Rightarrow> bool" where
  "writable u \<longleftrightarrow> (case map_of u ''status'' of None \<Rightarrow> True | Some (GMap True m) \<Rightarrow> True | _ \<Rightarrow> False)"

locale apimachinery =
  fixes A :: "'b machinery"
  assumes nested_string: "NestedString A m k = (case map_of m k of Some (GString s) \<Rightarrow> s | _ \<Rightarrow> [])"
    and nested_int: "NestedInt64 A m k = (case map_of m k of Some (GOther (GInt64 i)) \<Rightarrow> i | _ \<Rightarrow> 0)"
    and nested_set: "writable u \<Longrightarrow>
      NestedFieldNoCopy A (SetNestedSlice A u xs conditions_path) conditions_path = Some (GOther (GSlice xs))"
    and not_writable: "\<not> writable u \<Longrightarrow> SetNestedSlice A u xs conditions_path = u"
      "\<not> writable u \<Longrightarrow> NestedFieldNoCopy A u conditions_path = None"
    and metadata_set: "u_GetGeneration A (SetNestedSlice A u xs conditions_path) = u_GetGeneration A u"
      "u_GetCreationTimestamp A (SetNestedSlice A u xs conditions_path) = u_GetCreationTimestamp A u"
      "u_GetDeletionTimestamp A (SetNestedSlice A u xs conditions_path) = u_GetDeletionTimestamp A u"
    and in_range: "0 \<le> t \<Longrightarrow> t < end_of_rfc3339 \<Longrightarrow> formattable A t"
    and parsed: "time_Parse A s = Inr t \<Longrightarrow> formattable A t"
    and creation: "formattable A (u_GetCreationTimestamp A u)"
begin

lemma condition_entry:
  assumes "formattable A (LastTransitionTime c)"
  shows "adapter_condition A (adapter_entry A c) = Inr (c\<lparr>LastTransitionTime := whole_seconds (LastTransitionTime c)\<rparr>)"
proof -
  obtain b where b: "adapter_entry A c = GMap True b" and look: "entry_lookups A c b" by (rule entry_map)
  note look' = look [unfolded entry_lookups_def]
  have str: "NestedString A b ''type'' = Type c" "NestedString A b ''reason'' = Reason c"
      "NestedString A b ''status'' = Status c" "NestedString A b ''message'' = Message c"
      "NestedString A b ''lastTransitionTime'' = (if LastTransitionTime c = 0 then [] else time_Format A (LastTransitionTime c))"
      "NestedInt64 A b ''observedGeneration'' = ObservedGeneration c"
    unfolding nested_string nested_int by (simp_all add: look')
  have "whole_seconds 0 = 0" by (simp add: whole_seconds_def)
  then show ?thesis
    unfolding b using assms [unfolded formattable_def]
    by (cases "LastTransitionTime c = 0"; cases "Status c = []") (simp_all add: adapter_condition_def str Let_def)
qed

lemma get_set:
  assumes "writable u" and "\<forall>c \<in> set cs. formattable A (LastTransitionTime c)"
  shows "adapter_GetConditions A (adapter_SetConditions A cs u)
     = Inr (map (\<lambda>c. c\<lparr>LastTransitionTime := whole_seconds (LastTransitionTime c)\<rparr>) cs)"
proof -
  have "go_map (adapter_condition A) (map (adapter_entry A) cs)
     = Inr (map (\<lambda>c. c\<lparr>LastTransitionTime := whole_seconds (LastTransitionTime c)\<rparr>) cs)"
    using assms(2) by (induction cs) (simp_all add: condition_entry)
  with assms(1) show ?thesis
    by (simp add: adapter_GetConditions_def adapter_SetConditions_def nested_set)
qed

text \<open>What is read can be written again.\<close>

lemma formattable_0: "formattable A 0"
  by (rule in_range) (simp_all add: end_of_rfc3339_def)

lemma condition_formattable: "adapter_condition A v = Inr c \<Longrightarrow> formattable A (LastTransitionTime c)"
  by (auto simp: adapter_condition_def Let_def formattable_0 intro: parsed
      split: gov.splits bool.splits if_splits sum.splits)

lemma conditions_formattable:
  "adapter_GetConditions A u = Inr cs \<Longrightarrow> \<forall>c \<in> set cs. formattable A (LastTransitionTime c)"
proof -
  have "go_map (adapter_condition A) vs = Inr cs \<Longrightarrow> \<forall>c \<in> set cs. formattable A (LastTransitionTime c)" for vs cs
    by (induction vs arbitrary: cs) (auto simp: go_bind_eq_Inr intro: condition_formattable)
  then show "adapter_GetConditions A u = Inr cs \<Longrightarrow> \<forall>c \<in> set cs. formattable A (LastTransitionTime c)"
    by (auto simp: adapter_GetConditions_def split: option.splits gov.splits jother.splits)
qed

text \<open>
  \<open>StatusConditions\<close> of an object whose conditions can be read and have distinct types returns; the conditions of the
  object it leaves can be read, and their types are those there were, with \<open>Ready\<close> if the object can be written.
\<close>

text \<open>The conditions it writes when there is no \<open>Ready\<close> among those it reads, and the object with these conditions.\<close>

definition with_ready where
  "with_ready u cs = go_sort (condition_less ConditionReady) (map (bump (adapter_ops A) u) cs
     @ [(mk_condition ConditionReady ConditionUnknown ''AwaitingReconciliation'' ''object is awaiting reconciliation'')
       \<lparr>ObservedGeneration := u_GetGeneration A u, LastTransitionTime := u_GetCreationTimestamp A u\<rparr>])"

lemma with_ready:
  assumes "adapter_GetConditions A u = Inr cs" and "ConditionReady \<notin> Type ` set cs" and "distinct (map Type cs)"
  shows "\<forall>c \<in> set (with_ready u cs). formattable A (LastTransitionTime c)"
    and "Type ` set (with_ready u cs) = insert ConditionReady (Type ` set cs)" and "distinct (map Type (with_ready u cs))"
  using conditions_formattable [OF assms(1)] assms(2,3) creation by (auto simp: with_ready_def comp_def image_image)

lemma StatusConditions_adds:
  assumes "adapter_GetConditions A u = Inr cs" and "ConditionReady \<notin> Type ` set cs"
    and "ct = NewReadyConditions (map Type cs)"
  shows "adapter_StatusConditions A clk u n = For_loop (adapter_ops A) clk (dependents ct)
    \<lparr>ctypes = ct, object = Some (adapter_SetConditions A (with_ready u cs) u)\<rparr> n"
proof -
  let ?M = "adapter_ops A" and ?u = "adapter_SetConditions A (with_ready u cs) u" and ?set = "\<lambda>u. \<lparr>ctypes = ct, object = Some u\<rparr>"
  have root: "root ct = ConditionReady" by (simp add: assms(3) NewReadyConditions_def)
  have get: "GetConditions ?M u = cs" by (simp add: adapter_ops_def assms(1))
  have "Set_store ?M clk ct (mk_condition ConditionReady ConditionUnknown ''AwaitingReconciliation''
      ''object is awaiting reconciliation'') (u, n) = Inr (?u, n)"
    using assms(2)
    by (simp add: Set_store_def Set_loop_absent get root IsDependentCondition_def Let_def with_ready_def)
      (simp add: adapter_ops_def)
  then have "cs_SetUnknown ?M clk (?set u) ConditionReady n = Inr (True, ?set ?u, n)"
    by (simp add: cs_SetUnknown_def cs_SetUnknownWithReason_def cs_Set_def Set_object.simps
        recomputeRootCondition.simps root)
  moreover have "cs_Get ?M (?set u) ConditionReady = None"
    using assms(2) by (simp add: cs_Get_def Get_object_def get find_key_None)
  ultimately show ?thesis by (simp add: adapter_StatusConditions_def assms(1) assms(3) [symmetric] cs_For_def root)
qed

lemma StatusConditions_absent:
  assumes "adapter_GetConditions A u = Inr cs" and "ConditionReady \<notin> Type ` set cs" and "distinct (map Type cs)"
  shows "\<exists>u' cs'. adapter_StatusConditions A clk u n = Inr (\<lparr>ctypes = NewReadyConditions (map Type cs), object = Some u'\<rparr>, n)
    \<and> adapter_GetConditions A u' = Inr cs' \<and> distinct (map Type cs')
    \<and> Type ` set cs' = (if writable u then insert ConditionReady (Type ` set cs) else {})"
proof -
  let ?M = "adapter_ops A" and ?ct = "NewReadyConditions (map Type cs)" and ?u = "adapter_SetConditions A (with_ready u cs) u"
  note loop = StatusConditions_adds [OF assms(1,2) refl] and new = with_ready [OF assms]
  show ?thesis
  proof (cases "writable u")
    case True
    let ?cs' = "map (\<lambda>c. c\<lparr>LastTransitionTime := whole_seconds (LastTransitionTime c)\<rparr>) (with_ready u cs)"
    have g: "adapter_GetConditions A ?u = Inr ?cs'" by (rule get_set [OF True new(1)])
    have "\<forall>t \<in> set (dependents ?ct). cs_Get ?M \<lparr>ctypes = ?ct, object = Some ?u\<rparr> t \<noteq> None"
    proof
      fix t
      assume "t \<in> set (dependents ?ct)"
      then have "t \<in> Type ` set ?cs'" using new(2) by (auto simp: NewReadyConditions_def image_image)
      moreover have "GetConditions ?M ?u = ?cs'" by (rule adapter_ops_Get [OF g])
      ultimately show "cs_Get ?M \<lparr>ctypes = ?ct, object = Some ?u\<rparr> t \<noteq> None"
        using find_key_None [of Type t ?cs'] by (simp add: cs_Get_def Get_object_def)
    qed
    then have "adapter_StatusConditions A clk u n = Inr (\<lparr>ctypes = ?ct, object = Some ?u\<rparr>, n)"
      unfolding loop by (rule For_loop_present)
    with g new(2,3) True show ?thesis
      by (intro exI [of _ ?u] exI [of _ ?cs']) (simp add: image_image comp_def)
  next
    case False
    then have "?u = u" and "cs = []"
      using assms(1) by (simp_all add: adapter_SetConditions_def adapter_GetConditions_def not_writable)
    with loop assms(1) False show ?thesis
      by (simp add: NewReadyConditions_def newConditionTypes_def)
  qed
qed

lemma StatusConditions_readable:
  assumes "adapter_GetConditions A u = Inr cs" and "distinct (map Type cs)"
  shows "\<exists>u' cs'. adapter_StatusConditions A clk u n = Inr (\<lparr>ctypes = NewReadyConditions (map Type cs), object = Some u'\<rparr>, n)
    \<and> adapter_GetConditions A u' = Inr cs' \<and> distinct (map Type cs')"
proof (cases "ConditionReady \<in> Type ` set cs")
  case True
  from adapter_StatusConditions_ready [OF assms(1) True] assms show ?thesis by blast
next
  case False
  from StatusConditions_absent [OF assms(1) False assms(2)] show ?thesis by blast
qed

end

text \<open>So the status controller's contract holds of adapters, whose conditions never fail to be read once they were.\<close>

sublocale apimachinery \<subseteq> adapter_status: status_object "AdapterStatus A"
proof
  fix ob clk n ob' cs n'
  assume wf: "wf_conditions (Conditions_ops (AdapterStatus A)) ob"
    and s: "StatusConditions (AdapterStatus A) clk ob n = Inr (ob', cs, n')"
  from s obtain cl where g: "adapter_GetConditions A ob = Inr cl"
    by (cases "adapter_GetConditions A ob") (auto simp: AdapterStatus_def adapter_StatusConditions_def)
  with wf have "distinct (map Type cl)" by (simp add: AdapterStatus_def wf_conditions_def adapter_ops_def)
  from StatusConditions_readable [OF g this, of clk n] s
  show "object cs = Some ob' \<and> wf_conditions (Conditions_ops (AdapterStatus A)) ob'"
    by (auto simp: AdapterStatus_def wf_conditions_def adapter_ops_def)
qed

context apimachinery begin

lemma adapter_inv:
  "ctl_reachable c (AdapterStatus A) NS clk st \<Longrightarrow> config_ok c \<Longrightarrow> ctl_inv c (AdapterStatus A) st"
  by (rule adapter_status.reachable_inv)

end

section \<open>The machinery itself\<close>

text \<open>
  The accessors of nested maps as they are documented: an error of a setter leaves the object as it is, the getters return
  the zero value for one.
\<close>

fun nested_get :: "'b content \<Rightarrow> string list \<Rightarrow> 'b jval option" where
  "nested_get u [] = None"
| "nested_get u [k] = map_of u k"
| "nested_get u (k # ks) = (case map_of u k of Some (GMap True m) \<Rightarrow> nested_get m ks | _ \<Rightarrow> None)"

fun nested_put :: "'b content \<Rightarrow> 'b jval \<Rightarrow> string list \<Rightarrow> 'b content" where
  "nested_put u v [] = u"
| "nested_put u v [k] = AList.update k v u"
| "nested_put u v (k # ks) =
     (case map_of u k of
        None \<Rightarrow> AList.update k (GMap True (nested_put [] v ks)) u
      | Some (GMap True m) \<Rightarrow> AList.update k (GMap True (nested_put m v ks)) u
      | _ \<Rightarrow> u)"

definition string_value :: "'b jval option \<Rightarrow> string" where
  "string_value v = (case v of Some (GString s) \<Rightarrow> s | _ \<Rightarrow> [])"

definition int_value :: "'b jval option \<Rightarrow> int" where
  "int_value v = (case v of Some (GOther (GInt64 i)) \<Rightarrow> i | _ \<Rightarrow> 0)"

definition time_value :: "string \<Rightarrow> go_time option" where
  "time_value s = (case rfc3339_Parse s of Inl _ \<Rightarrow> None | Inr t \<Rightarrow> Some t)"

definition api_machinery :: "'b machinery" where
  "api_machinery =
     \<lparr>NestedFieldNoCopy = nested_get,
      NestedString = (\<lambda>m k. string_value (map_of m k)),
      NestedInt64 = (\<lambda>m k. int_value (map_of m k)),
      SetNestedSlice = (\<lambda>u xs. nested_put u (GOther (GSlice xs))),
      time_Parse = rfc3339_Parse,
      time_Format = rfc3339_Format,
      u_SetGroupVersionKind = (\<lambda>g u. AList.update ''kind'' (GString (gvk_Kind g))
        (AList.update ''apiVersion'' (GString (if gvk_Group g = [] then gvk_Version g
           else gvk_Group g @ ''/'' @ gvk_Version g)) u)),
      u_GetGeneration = (\<lambda>u. int_value (nested_get u [''metadata'', ''generation''])),
      u_GetCreationTimestamp = (\<lambda>u.
        case time_value (string_value (nested_get u [''metadata'', ''creationTimestamp''])) of None \<Rightarrow> 0 | Some t \<Rightarrow> t),
      u_GetDeletionTimestamp = (\<lambda>u. time_value (string_value (nested_get u [''metadata'', ''deletionTimestamp'']))),
      u_GetLabels = (\<lambda>u k. case nested_get u [''metadata'', ''labels'', k] of Some (GString s) \<Rightarrow> Some s | _ \<Rightarrow> None),
      u_GetFinalizers = (\<lambda>u. case nested_get u [''metadata'', ''finalizers''] of
        Some (GOther (GSlice xs)) \<Rightarrow> map (\<lambda>x. string_value (Some x)) xs | _ \<Rightarrow> [])\<rparr>"

lemma api_simps:
  "NestedFieldNoCopy api_machinery = nested_get"
  "NestedString api_machinery m k = string_value (map_of m k)"
  "NestedInt64 api_machinery m k = int_value (map_of m k)"
  "SetNestedSlice api_machinery u xs = nested_put u (GOther (GSlice xs))"
  "time_Parse api_machinery = rfc3339_Parse" "time_Format api_machinery = rfc3339_Format"
  "u_GetGeneration api_machinery u = int_value (nested_get u [''metadata'', ''generation''])"
  "u_GetCreationTimestamp api_machinery u =
     (case time_value (string_value (nested_get u [''metadata'', ''creationTimestamp''])) of None \<Rightarrow> 0 | Some t \<Rightarrow> t)"
  "u_GetDeletionTimestamp api_machinery u
     = time_value (string_value (nested_get u [''metadata'', ''deletionTimestamp'']))"
  by (simp_all add: api_machinery_def)

lemma nested_get_put_status:
  "writable u \<Longrightarrow> nested_get (nested_put u v conditions_path) conditions_path = Some v"
  "\<not> writable u \<Longrightarrow> nested_put u v conditions_path = u"
  "\<not> writable u \<Longrightarrow> nested_get u conditions_path = None"
  by (auto simp: writable_def conditions_path_def AList.update_conv' split: option.splits gov.splits bool.splits)

lemma nested_get_metadata:
  "nested_get (nested_put u v conditions_path) [''metadata'', k] = nested_get u [''metadata'', k]"
  by (auto simp: conditions_path_def AList.update_conv' split: option.splits gov.splits bool.splits)

lemma api_formattable:
  "- year0_secs * 1000000000 \<le> t \<Longrightarrow> t < end_of_rfc3339 \<Longrightarrow> formattable api_machinery t"
  by (simp add: formattable_def api_simps rfc3339_Format_not_Nil rfc3339_roundtrip whole_seconds_def
      end_of_rfc3339_def)

lemma api_parsed: "rfc3339_Parse s = Inr t \<Longrightarrow> formattable api_machinery t"
  using rfc3339_Parse_range [of s t] by (intro api_formattable) (simp_all add: end_of_rfc3339_def)

lemma api_in_range: "0 \<le> t \<Longrightarrow> t < end_of_rfc3339 \<Longrightarrow> formattable api_machinery t"
  by (rule api_formattable) (simp_all add: year0_secs_def)

lemma api_creation: "formattable api_machinery (u_GetCreationTimestamp api_machinery u)"
  unfolding api_simps time_value_def
  by (auto intro: api_parsed api_in_range simp: end_of_rfc3339_def split: sum.split)

interpretation api: apimachinery api_machinery
proof unfold_locales
  fix t s and u :: "'a content"
  show "0 \<le> t \<Longrightarrow> t < end_of_rfc3339 \<Longrightarrow> formattable api_machinery t" by (rule api_in_range)
  show "time_Parse api_machinery s = Inr t \<Longrightarrow> formattable api_machinery t"
    unfolding api_simps by (rule api_parsed)
  show "formattable api_machinery (u_GetCreationTimestamp api_machinery u)" by (rule api_creation)
qed (simp_all add: api_simps nested_get_put_status nested_get_metadata string_value_def int_value_def
    del: nested_get.simps(3))

section \<open>The labels of the generic controller\<close>

text \<open>
  The contents of the object are below the field \<open>Unstructured\<close> for \<open>ToPartialUnstructured\<close>, so for a path that does not
  start there the generic controller finds nothing: the label has the value of an absent field.
\<close>

lemma generic_field_absent:
  assumes "segments p = f # fs" and "f \<noteq> ''Unstructured''"
  shows "go_bind (ToPartialUnstructured (Reflected (AdapterStatus A) u) [p]) (\<lambda>(r, _). Inr r) = Inr []"
  using assms
  by (simp add: AdapterStatus_def ToPartialUnstructured_def select_def field_matches_def gofield_def getJSONKey_def
      resolve_def)

section \<open>Properties\<close>

text \<open>
  Property C33. Conditions written through the adapter are read back as they were written, in their order and with
  all their fields, up to the fraction of a second of their transition times, which RFC 3339 does not keep; and
  generation, creation and deletion time of the object stay what they were.
\<close>

theorem adapter_roundtrip:
  assumes "apimachinery A" and "writable u"
    and "\<forall>c \<in> set cs. 0 \<le> LastTransitionTime c \<and> LastTransitionTime c < end_of_rfc3339"
  shows "adapter_GetConditions A (adapter_SetConditions A cs u)
       = Inr (map (\<lambda>c. c\<lparr>LastTransitionTime := LastTransitionTime c - LastTransitionTime c mod 1000000000\<rparr>) cs)
     \<and> GetGeneration (adapter_ops A) (adapter_SetConditions A cs u) = GetGeneration (adapter_ops A) u
     \<and> GetCreationTimestamp (adapter_ops A) (adapter_SetConditions A cs u) = GetCreationTimestamp (adapter_ops A) u
     \<and> GetDeletionTimestamp (adapter_ops A) (adapter_SetConditions A cs u) = GetDeletionTimestamp (adapter_ops A) u"
  using apimachinery.get_set [OF assms(1,2)] apimachinery.in_range [OF assms(1)] assms(3)
    apimachinery.metadata_set [OF assms(1)]
  by (simp add: adapter_ops_def adapter_SetConditions_def whole_seconds_def)

theorem adapter_roundtrip_witness:
  "adapter_GetConditions api_machinery (adapter_SetConditions api_machinery
     [\<lparr>Type = ''Ready'', Status = ''True'', ObservedGeneration = 2, LastTransitionTime = 62135596800000000007,
       Reason = [], Message = ''ok''\<rparr>] ([] :: unit content))
   = Inr [\<lparr>Type = ''Ready'', Status = ''True'', ObservedGeneration = 2, LastTransitionTime = 62135596800000000000,
       Reason = [], Message = ''ok''\<rparr>]"
  using adapter_roundtrip [OF api.apimachinery_axioms, of "[] :: unit content"
      "[\<lparr>Type = ''Ready'', Status = ''True'', ObservedGeneration = 2, LastTransitionTime = 62135596800000000007,
       Reason = [], Message = ''ok''\<rparr>]"]
  by (simp add: writable_def end_of_rfc3339_def)

definition demo_content :: "unit content" where
  "demo_content = [(''status'', GMap True [(''conditions'', GOther (GSlice
     [GMap True [(''type'', GString ''Ready''), (''status'', GString ''True'')]]))])]"

definition demo_generic :: controller where
  "demo_generic = fst (NewController ([] :: unit list) (\<lambda>k. ''node'')
     \<lparr>gvk_Group = [], gvk_Version = ''v1'', gvk_Kind = ''Node''\<rparr> [])"

lemma demo_generic_fields:
  "additionalMetricFields demo_generic = []" "additionalGaugeMetricFields demo_generic = []"
  "additionalMetricLabels demo_generic = []" "additionalGaugeMetricLabels demo_generic = []"
  by (simp_all add: demo_generic_def NewController_def zero_options_def)

lemma demo_generic_config: "config_ok demo_generic"
  by (simp add: config_ok_def gauge_keys_def demo_generic_fields)

lemma demo_content_conditions:
  "adapter_GetConditions api_machinery demo_content = Inr [\<lparr>Type = ''Ready'', Status = ''True'', ObservedGeneration = 0,
     LastTransitionTime = 0, Reason = [], Message = []\<rparr>]"
  by (simp add: adapter_GetConditions_def api_simps conditions_path_def demo_content_def adapter_condition_def
      string_value_def int_value_def)

lemma demo_content_deletion: "GetDeletionTimestamp (Conditions_ops (AdapterStatus api_machinery)) demo_content = None"
proof -
  have "rfc3339_Parse [] = Inl ''parsing time''" by (simp add: rfc3339_Parse_def well_formed_def Let_def)
  then show ?thesis
    by (simp add: AdapterStatus_def adapter_ops_def api_simps demo_content_def string_value_def time_value_def)
qed

lemma demo_content_StatusConditions:
  "StatusConditions (AdapterStatus api_machinery) clk demo_content n
     = Inr (demo_content, \<lparr>ctypes = NewReadyConditions [''Ready''], object = Some demo_content\<rparr>, n)"
  using adapter_StatusConditions_ready [OF demo_content_conditions]
  by (simp add: AdapterStatus_def ConditionReady_def)

lemma demo_generic_step:
  "\<exists>st. ctl_reachable demo_generic (AdapterStatus api_machinery) NS clk st
     \<and> observedConditions st req = Some \<lparr>ctypes = NewReadyConditions [''Ready''], object = Some demo_content\<rparr>"
proof -
  let ?S = "AdapterStatus api_machinery :: (unit content, unit jother) status_object"
  have labels: "\<exists>gl. toAdditionalGaugeMetricLabels demo_generic ?S NS demo_content = Inr gl"
      "\<exists>ml. toAdditionalMetricLabels demo_generic ?S NS demo_content = Inr ml"
    by (simp_all add: toAdditionalGaugeMetricLabels_def toAdditionalMetricLabels_def demo_generic_fields
        ToPartialUnstructured_def)
  then have "\<exists>st. reconcile_found demo_generic ?S NS clk req demo_content new_cstate = Inr st"
    by (auto simp: reconcile_found_def detect_termination_def demo_content_deletion demo_content_StatusConditions Let_def)
  then obtain st where st: "reconcile_found demo_generic ?S NS clk req demo_content new_cstate = Inr st" ..
  then have "observedConditions st req = Some \<lparr>ctypes = NewReadyConditions [''Ready''], object = Some demo_content\<rparr>"
    by (rule reconcile_foundE) (auto simp: maps_of_core demo_content_StatusConditions)
  moreover have "reconcile demo_generic ?S NS clk req [] (GetOk demo_content :: (unit content, string) get_result) new_cstate
      = Inr (empty_result\<lparr>result_RequeueAfter := second * 10\<rparr>, None, st)"
    by (simp add: reconcile_def st)
  then have "ctl_reachable demo_generic ?S NS clk st"
    by (rule ctl_step [OF ctl_start, rotated])
      (simp add: wf_conditions_def AdapterStatus_def adapter_ops_Get [OF demo_content_conditions])
  ultimately show ?thesis by blast
qed



text \<open>
  An adapter can be made for an object of any type, but the conditions of a typed object are not a slice of
  \<open>interface{}\<close>: reading them panics.
\<close>

lemma adapter_panics_on_typed:
  "go_bind (NewUnstructuredAdapter api_machinery (\<lambda>_. g) (Object_value (GPtr (Some (GStruct
     [(\<lparr>Field_Name = ''Status'', Field_Tag = ''status'', Field_Exported = True\<rparr>, GStruct
       [(\<lparr>Field_Name = ''Conditions'', Field_Tag = ''conditions'', Field_Exported = True\<rparr>, GOther (GNotJSON ()))])])))))
     (adapter_GetConditions api_machinery) = Inl conversion_panic"
  by (simp add: NewUnstructuredAdapter_def ToPartialUnstructured_def segments_def select_def field_matches_def
      getJSONKey_def adapter_GetConditions_def conditions_path_def api_machinery_def resolve_def)

end
