(* ===== verification/Wiring.thy ===== *)
theory Wiring
  imports Events ClientMetrics Complex_Main
begin

section \<open>Setting up an operator\<close>

text \<open>
  The constructors and \<open>Register\<close> methods of the controllers, in the order a program calls them: the package
  variables of \<open>status/metrics.go\<close>, \<open>RegisterClientMetrics\<close>, \<open>status.NewController\<close>, \<open>NewGenericObjectController\<close>,
  \<open>events.NewController\<close>, and the registration of each controller with a manager. All metrics go to one registry of
  Prometheus, all controllers to one manager of controller-runtime; both are parameters, with
  the locales \<open>prometheus_registry\<close> and \<open>controller_manager\<close> for what they are documented to do: a registry
  panics on a name it has and on a metric with two equal label names, a manager refuses a name it has.
  The types of the objects are taken to be known to the scheme, as \<open>object.GVK\<close> asks for.
\<close>

record registration =
  reg_For :: gvk
  reg_MaxConcurrentReconciles :: int
  reg_Name :: string

record ('b, 'r, 'm) platform =
  MustRegister :: "'b metric_desc \<Rightarrow> 'r \<Rightarrow> 'r go"
  Complete :: "registration \<Rightarrow> 'm \<Rightarrow> string + 'm"
  DefBuckets :: "'b list"
  ExponentialBuckets :: "rat \<Rightarrow> rat \<Rightarrow> nat \<Rightarrow> 'b list"
  ToLower :: "string \<Rightarrow> string"

text \<open>
  \<open>NewPrometheusCounter\<close>; \<open>NewPrometheusGauge\<close>, \<open>NewPrometheusHistogram\<close> and \<open>NewPrometheusSummary\<close> differ only in the
  kind of the vector, which is part of the description.
\<close>

definition NewPrometheus :: "('b, 'r, 'm) platform \<Rightarrow> 'b metric_desc \<Rightarrow> 'r \<Rightarrow> ('b metric_desc \<times> 'r) go" where
  "NewPrometheus P d r = go_bind (MustRegister P d r) (\<lambda>r. Inr (d, r))"

fun register_all :: "('b, 'r, 'm) platform \<Rightarrow> 'b metric_desc list \<Rightarrow> 'r \<Rightarrow> 'r go" where
  "register_all P [] r = Inr r"
| "register_all P (d # ds) r = go_bind (NewPrometheus P d r) (\<lambda>(_, r). register_all P ds r)"

text \<open>The package variables are initialised in the order of their declarations, which is also that of the fields.\<close>

definition metric_order :: "metric list" where
  "metric_order = [ConditionDuration, ConditionCount, ConditionCurrentStatusSeconds,
     ConditionTransitionsTotal, TerminationCurrentTimeSeconds, TerminationDuration]"

definition package_init :: "('b, 'r, 'm) platform \<Rightarrow> 'r \<Rightarrow> 'r go" where
  "package_init P r = register_all P (map (deprecated_metric (DefBuckets P)) metric_order) r"

definition register_NewController ::
  "('b, 'r, 'm) platform \<Rightarrow> gvk \<Rightarrow> ('b options \<Rightarrow> 'b options) option list \<Rightarrow> 'r \<Rightarrow> (controller \<times> 'r) go" where
  "register_NewController P g opts r =
     (let (c, ms) = NewController (DefBuckets P) (ToLower P) g opts
      in go_bind (register_all P (map ms metric_order) r) (\<lambda>r. Inr (c, r)))"

definition register_NewEventsController ::
  "('b, 'r, 'm) platform \<Rightarrow> gvk \<Rightarrow> go_time \<Rightarrow> 'r \<Rightarrow> (events_controller \<times> 'r) go" where
  "register_NewEventsController P g now r =
     (let (c, d) = NewEventsController (ToLower P) g now
      in go_bind (NewPrometheus P d r) (\<lambda>(_, r). Inr (c, r)))"

definition request_duration :: "('b, 'r, 'm) platform \<Rightarrow> 'b metric_desc" where
  "request_duration P =
     \<lparr>desc_kind = Histogram, desc_Namespace = [], desc_Subsystem = [],
      desc_Name = ''client_go_request_duration_seconds'',
      desc_Buckets = ExponentialBuckets P (1 / 1000) (3 / 2) 20,
      desc_labelNames = [''verb'', ''group'', ''version'', ''kind'', ''subresource'']\<rparr>"

definition request_total :: "'b metric_desc" where
  "request_total =
     \<lparr>desc_kind = Counter, desc_Namespace = [], desc_Subsystem = [],
      desc_Name = ''client_go_request_total'', desc_Buckets = [], desc_labelNames = [''code'', ''method'']\<rparr>"

text \<open>\<open>RegisterClientMetrics\<close> returns what it stores in \<open>clientmetrics.RequestLatency\<close> and \<open>RequestResult\<close>.\<close>

definition RegisterClientMetrics ::
  "('b, 'r, 'm) platform \<Rightarrow> 'r \<Rightarrow> (('b metric_desc \<times> 'b metric_desc) \<times> 'r) go" where
  "RegisterClientMetrics P r =
     go_bind (NewPrometheus P (request_duration P) r) (\<lambda>(latency, r).
     go_bind (NewPrometheus P request_total r) (\<lambda>(total, r). Inr ((latency, total), r)))"

text \<open>\<open>Register\<close> of the three controllers. The object of a controller stands for the type \<open>For\<close> is given.\<close>

definition status_name :: "string \<Rightarrow> string" where
  "status_name k = ''operatorpkg.'' @ k @ ''.status''"

definition status_Register :: "('b, 'r, 'm) platform \<Rightarrow> controller \<Rightarrow> 'm \<Rightarrow> string + 'm" where
  "status_Register P c m = Complete P
     \<lparr>reg_For = controller_gvk c, reg_MaxConcurrentReconciles = maxConcurrentReconciles c,
      reg_Name = status_name (ToLower P (gvk_Kind (controller_gvk c)))\<rparr> m"

text \<open>The generic controller is named after the Go type of the object, \<open>T\<close>, not after its kind.\<close>

definition generic_Register :: "('b, 'r, 'm) platform \<Rightarrow> string \<Rightarrow> controller \<Rightarrow> 'm \<Rightarrow> string + 'm" where
  "generic_Register P T c m = Complete P
     \<lparr>reg_For = controller_gvk c, reg_MaxConcurrentReconciles = maxConcurrentReconciles c,
      reg_Name = status_name (ToLower P T)\<rparr> m"

definition core_Event :: gvk where
  "core_Event = \<lparr>gvk_Group = [], gvk_Version = ''v1'', gvk_Kind = ''Event''\<rparr>"

definition events_Register :: "('b, 'r, 'm) platform \<Rightarrow> events_controller \<Rightarrow> 'm \<Rightarrow> string + 'm" where
  "events_Register P c m = Complete P
     \<lparr>reg_For = core_Event, reg_MaxConcurrentReconciles = 10, reg_Name = events_name (ToLower P) c\<rparr> m"

text \<open>
  A program sets itself up by a list of steps, each of them constructing a controller and registering it. It ends with
  the first error a step returns.
\<close>

datatype 'b setup_step =
    ClientStep
  | StatusStep gvk "('b options \<Rightarrow> 'b options) option list"
  | GenericStep gvk string "('b options \<Rightarrow> 'b options) option list"
  | EventsStep gvk go_time

fun perform :: "('b, 'r, 'm) platform \<Rightarrow> 'b setup_step \<Rightarrow> 'r \<times> 'm \<Rightarrow> (string + 'r \<times> 'm) go" where
  "perform P ClientStep (r, m) = go_bind (RegisterClientMetrics P r) (\<lambda>(_, r). Inr (Inr (r, m)))"
| "perform P (StatusStep g opts) (r, m) =
     go_bind (register_NewController P g opts r) (\<lambda>(c, r). Inr (map_sum id (Pair r) (status_Register P c m)))"
| "perform P (GenericStep g T opts) (r, m) =
     go_bind (register_NewController P g opts r) (\<lambda>(c, r). Inr (map_sum id (Pair r) (generic_Register P T c m)))"
| "perform P (EventsStep g now) (r, m) =
     go_bind (register_NewEventsController P g now r) (\<lambda>(c, r). Inr (map_sum id (Pair r) (events_Register P c m)))"

fun run_setup :: "('b, 'r, 'm) platform \<Rightarrow> 'b setup_step list \<Rightarrow> 'r \<times> 'm \<Rightarrow> (string + 'r \<times> 'm) go" where
  "run_setup P [] st = Inr (Inr st)"
| "run_setup P (s # ss) st = go_bind (perform P s st)
     (\<lambda>res. case res of Inl e \<Rightarrow> Inr (Inl e) | Inr st \<Rightarrow> run_setup P ss st)"

definition setup_operator :: "('b, 'r, 'm) platform \<Rightarrow> 'b setup_step list \<Rightarrow> 'r \<times> 'm \<Rightarrow> (string + 'r \<times> 'm) go" where
  "setup_operator P ss = (\<lambda>(r, m). go_bind (package_init P r) (\<lambda>r. run_setup P ss (r, m)))"

section \<open>The contracts of the registry and the manager\<close>

definition letter :: "char \<Rightarrow> bool" where
  "letter c \<longleftrightarrow> c \<in> set ''abcdefghijklmnopqrstuvwxyzABCDEFGHIJKLMNOPQRSTUVWXYZ''"

definition digit :: "char \<Rightarrow> bool" where
  "digit c \<longleftrightarrow> c \<in> set ''0123456789''"

text \<open>Names of metrics and labels that are valid whatever validation scheme Prometheus is configured with.\<close>

definition valid_name :: "string \<Rightarrow> bool" where
  "valid_name s \<longleftrightarrow> s \<noteq> [] \<and> \<not> digit (hd s) \<and> (\<forall>c \<in> set s. letter c \<or> digit c \<or> c = CHR ''_'')"

definition valid_label :: "string \<Rightarrow> bool" where
  "valid_label s \<longleftrightarrow> valid_name s \<and> take 2 s \<noteq> ''__''"

text \<open>The full name of a metric, as \<open>BuildFQName\<close> is documented to build it from parts of which some may be empty.\<close>

definition fq_name :: "(string \<Rightarrow> string \<Rightarrow> string \<Rightarrow> string) \<Rightarrow> 'b metric_desc \<Rightarrow> string" where
  "fq_name fq d = fq (desc_Namespace d) (desc_Subsystem d) (desc_Name d)"

locale prometheus_registry =
  fixes P :: "('b, 'r, 'm) platform" and fq :: "string \<Rightarrow> string \<Rightarrow> string \<Rightarrow> string" and registered :: "'r \<Rightarrow> string set"
  assumes fq_parts: "x \<noteq> [] \<Longrightarrow> fq ns sub x = strings_Join (filter (\<lambda>s. s \<noteq> []) [ns, sub, x]) ''_''"
    and register_fresh: "valid_name (fq_name fq d) \<Longrightarrow> list_all valid_label (desc_labelNames d)
      \<Longrightarrow> distinct (desc_labelNames d) \<Longrightarrow> fq_name fq d \<notin> registered r
      \<Longrightarrow> \<exists>r'. MustRegister P d r = Inr r' \<and> registered r' = insert (fq_name fq d) (registered r)"
    and register_taken: "fq_name fq d \<in> registered r \<Longrightarrow> \<exists>p. MustRegister P d r = Inl p"
    and register_twice: "\<not> distinct (desc_labelNames d) \<Longrightarrow> \<exists>p. MustRegister P d r = Inl p"

locale controller_manager =
  fixes P :: "('b, 'r, 'm) platform" and managed :: "'m \<Rightarrow> string set"
  assumes complete_fresh: "reg_Name x \<notin> managed m
      \<Longrightarrow> \<exists>m'. Complete P x m = Inr m' \<and> managed m' = insert (reg_Name x) (managed m)"
    and complete_taken: "reg_Name x \<in> managed m \<Longrightarrow> \<exists>e. Complete P x m = Inl e"


locale operator_platform =
  prometheus_registry P fq registered + controller_manager P managed
  for P :: "('b, 'r, 'm) platform" and fq registered and managed

section \<open>What a program may set up\<close>

text \<open>
  The metrics a step registers and the name it gives its controller; \<open>slot\<close> is what the names of the metrics depend
  on: they have the kind in them, but not its group or version.
\<close>

fun metrics_of :: "('b, 'r, 'm) platform \<Rightarrow> 'b setup_step \<Rightarrow> 'b metric_desc list" where
  "metrics_of P ClientStep = [request_duration P, request_total]"
| "metrics_of P (StatusStep g opts) =
     map (controller_metric (DefBuckets P) (ToLower P (gvk_Kind g)) (option_Resolve zero_options opts)) metric_order"
| "metrics_of P (GenericStep g T opts) =
     map (controller_metric (DefBuckets P) (ToLower P (gvk_Kind g)) (option_Resolve zero_options opts)) metric_order"
| "metrics_of P (EventsStep g now) = [eventTotalMetric (ToLower P (gvk_Kind g))]"

datatype slot = ClientSlot | StatusSlot string | EventsSlot string

fun slot_of :: "(string \<Rightarrow> string) \<Rightarrow> 'b setup_step \<Rightarrow> slot" where
  "slot_of lower ClientStep = ClientSlot"
| "slot_of lower (StatusStep g opts) = StatusSlot (lower (gvk_Kind g))"
| "slot_of lower (GenericStep g T opts) = StatusSlot (lower (gvk_Kind g))"
| "slot_of lower (EventsStep g now) = EventsSlot (lower (gvk_Kind g))"

fun named_after :: "(string \<Rightarrow> string) \<Rightarrow> 'b setup_step \<Rightarrow> string list" where
  "named_after lower (StatusStep g opts) = [lower (gvk_Kind g)]"
| "named_after lower (GenericStep g T opts) = [lower T]"
| "named_after lower _ = []"

definition events_controller :: "string \<Rightarrow> string" where
  "events_controller k = ''operatorpkg.'' @ k @ ''.events''"

fun controller_names :: "(string \<Rightarrow> string) \<Rightarrow> 'b setup_step \<Rightarrow> string list" where
  "controller_names lower (EventsStep g now) = [events_controller (lower (gvk_Kind g))]"
| "controller_names lower s = map status_name (named_after lower s)"

fun step_options :: "'b setup_step \<Rightarrow> 'b options" where
  "step_options (StatusStep g opts) = option_Resolve zero_options opts"
| "step_options (GenericStep g T opts) = option_Resolve zero_options opts"
| "step_options _ = zero_options"

text \<open>The label names of the series of a condition, and that none of them is there twice.\<close>

definition labels_apart :: "'b options \<Rightarrow> bool" where
  "labels_apart p \<longleftrightarrow> distinct ([MetricLabelNamespace, MetricLabelName, LabelType,
     MetricLabelConditionStatus, LabelReason] @ gauge_label_names p)"

text \<open>A kind is a word of letters and digits, and the names of the additional labels are valid.\<close>

definition kind_ok :: "string \<Rightarrow> bool" where
  "kind_ok k \<longleftrightarrow> k \<noteq> [] \<and> (\<forall>c \<in> set k. letter c \<or> digit c)"

fun step_ok :: "(string \<Rightarrow> string) \<Rightarrow> 'b setup_step \<Rightarrow> bool" where
  "step_ok lower ClientStep = True"
| "step_ok lower (StatusStep g opts) =
     (kind_ok (lower (gvk_Kind g)) \<and> list_all valid_label (gauge_label_names (option_Resolve zero_options opts)))"
| "step_ok lower (GenericStep g T opts) =
     (kind_ok (lower (gvk_Kind g)) \<and> list_all valid_label (gauge_label_names (option_Resolve zero_options opts)))"
| "step_ok lower (EventsStep g now) = kind_ok (lower (gvk_Kind g))"

section \<open>Lemmas\<close>

lemma distinct_concat_map_key:
  assumes "\<And>x. x \<in> set xs \<Longrightarrow> distinct (f (key x)) \<and> f (key x) \<noteq> []"
    and "\<And>x y. x \<in> set xs \<Longrightarrow> y \<in> set xs \<Longrightarrow> key x \<noteq> key y \<Longrightarrow> set (f (key x)) \<inter> set (f (key y)) = {}"
  shows "distinct (concat (map (\<lambda>x. f (key x)) xs)) \<longleftrightarrow> distinct (map key xs)"
  using assms
proof (induction xs)
  case (Cons x xs)
  have "set (f (key x)) \<inter> (\<Union>y \<in> set xs. set (f (key y))) = {} \<longleftrightarrow> key x \<notin> key ` set xs"
  proof
    assume d: "set (f (key x)) \<inter> (\<Union>y \<in> set xs. set (f (key y))) = {}"
    obtain z where "z \<in> set (f (key x))" using Cons.prems(1) [of x] by (cases "f (key x)") auto
    with d show "key x \<notin> key ` set xs" by (force simp: disjoint_iff)
  next
    assume "key x \<notin> key ` set xs"
    then show "set (f (key x)) \<inter> (\<Union>y \<in> set xs. set (f (key y))) = {}" using Cons.prems(2) [of x] by auto
  qed
  with Cons show ?case by simp blast
qed simp

lemma underscore_char: "\<not> letter CHR ''_''" "\<not> digit CHR ''_''"
  by (simp_all add: letter_def digit_def)

lemma kind_ok_underscore: "kind_ok k \<Longrightarrow> CHR ''_'' \<notin> set k"
  using underscore_char by (metis kind_ok_def)

subsection \<open>The names of the metrics\<close>

definition operator_metric :: "string \<Rightarrow> string \<Rightarrow> string" where
  "operator_metric k x = ''operator_'' @ k @ CHR ''_'' # x"

fun slot_metrics :: "slot \<Rightarrow> string list" where
  "slot_metrics ClientSlot = [''client_go_request_duration_seconds'', ''client_go_request_total'']"
| "slot_metrics (StatusSlot k) = map (operator_metric k)
     [''status_condition_transition_seconds'', ''status_condition_count'', ''status_condition_current_status_seconds'',
      ''status_condition_transitions_total'', ''termination_current_time_seconds'', ''termination_duration_seconds'']"
| "slot_metrics (EventsSlot k) = [operator_metric k ''event_total'']"

definition package_names :: "string list" where
  "package_names = map (operator_metric ''status'')
     [''condition_transition_seconds'', ''condition_count'', ''condition_current_status_seconds'', ''condition_transitions_total'']
   @ map (operator_metric ''termination'') [''current_time_seconds'', ''duration_seconds'']"

fun slot_ok :: "slot \<Rightarrow> bool" where
  "slot_ok ClientSlot = True"
| "slot_ok (StatusSlot k) = kind_ok k"
| "slot_ok (EventsSlot k) = kind_ok k"

lemma operator_metric_eq:
  "CHR ''_'' \<notin> set k \<Longrightarrow> CHR ''_'' \<notin> set k' \<Longrightarrow> operator_metric k x = operator_metric k' y \<longleftrightarrow> k = k' \<and> x = y"
  by (simp add: operator_metric_def append_sep_eq)

lemma operator_metric_client: "operator_metric k x \<noteq> CHR ''c'' # y"
  by (simp add: operator_metric_def)

lemmas metric_name_eqs = operator_metric_eq operator_metric_client operator_metric_client [symmetric] kind_ok_underscore

lemma slot_metrics_distinct: "slot_ok s \<Longrightarrow> distinct (slot_metrics s) \<and> slot_metrics s \<noteq> []"
  by (cases s) (simp_all add: metric_name_eqs)

lemma slot_metrics_apart:
  "slot_ok s \<Longrightarrow> slot_ok t \<Longrightarrow> s \<noteq> t \<Longrightarrow> set (slot_metrics s) \<inter> set (slot_metrics t) = {}"
  by (cases s; cases t) (simp_all add: metric_name_eqs)

lemma slot_metrics_package: "slot_ok s \<Longrightarrow> set (slot_metrics s) \<inter> set package_names = {}"
  by (cases s) (simp_all add: metric_name_eqs package_names_def)

lemma package_names_distinct: "distinct package_names"
  by (simp add: package_names_def metric_name_eqs)


subsection \<open>What the steps register\<close>

definition enrol :: "('b, 'r, 'm) platform \<Rightarrow> 'b setup_step \<Rightarrow> 'm \<Rightarrow> string + 'm" where
  "enrol P s m =
     (case s of
        ClientStep \<Rightarrow> Inr m
      | StatusStep g opts \<Rightarrow> status_Register P (fst (NewController (DefBuckets P) (ToLower P) g opts)) m
      | GenericStep g T opts \<Rightarrow> generic_Register P T (fst (NewController (DefBuckets P) (ToLower P) g opts)) m
      | EventsStep g now \<Rightarrow> events_Register P (fst (NewEventsController (ToLower P) g now :: _ \<times> 'b metric_desc)) m)"

lemma perform_eq:
  "perform P s (r, m) =
     go_bind (register_all P (metrics_of P s) r) (\<lambda>r. Inr (map_sum id (Pair r) (enrol P s m)))"
  by (cases s)
    (simp_all add: go_bind_def RegisterClientMetrics_def register_NewController_def register_NewEventsController_def
      NewController_def NewEventsController_def Let_def enrol_def split: sum.splits prod.splits)

lemma perform_eq_Inr:
  "perform P s (r, m) = Inr (Inr (r', m')) \<longleftrightarrow> register_all P (metrics_of P s) r = Inr r' \<and> enrol P s m = Inr m'"
  by (cases "enrol P s m") (auto simp: perform_eq go_bind_eq_Inr)

definition desc_ok :: "(string \<Rightarrow> string \<Rightarrow> string \<Rightarrow> string) \<Rightarrow> 'b metric_desc \<Rightarrow> bool" where
  "desc_ok fq d \<longleftrightarrow> valid_name (fq_name fq d) \<and> list_all valid_label (desc_labelNames d)"

context prometheus_registry begin

lemma NewPrometheus_iff:
  assumes "desc_ok fq d"
  shows "(\<exists>x. NewPrometheus P d r = Inr x) \<longleftrightarrow> fq_name fq d \<notin> registered r \<and> distinct (desc_labelNames d)"
    and "NewPrometheus P d r = Inr (d', r') \<Longrightarrow> registered r' = insert (fq_name fq d) (registered r)"
proof -
  note laws = register_fresh [of d r] register_taken [of d r] register_twice [of d r]
  show "(\<exists>x. NewPrometheus P d r = Inr x) \<longleftrightarrow> fq_name fq d \<notin> registered r \<and> distinct (desc_labelNames d)"
    using laws assms by (cases "MustRegister P d r") (auto simp: NewPrometheus_def desc_ok_def)
  assume n: "NewPrometheus P d r = Inr (d', r')"
  then have "MustRegister P d r = Inr r'" by (auto simp: NewPrometheus_def go_bind_eq_Inr)
  with laws(2,3) have "fq_name fq d \<notin> registered r" "distinct (desc_labelNames d)" by auto
  with laws(1) assms \<open>MustRegister P d r = Inr r'\<close> show "registered r' = insert (fq_name fq d) (registered r)"
    by (simp add: desc_ok_def)
qed

lemma register_all_registered:
  "list_all (desc_ok fq) ds \<Longrightarrow> register_all P ds r = Inr r' \<Longrightarrow> registered r' = registered r \<union> fq_name fq ` set ds"
proof (induction ds arbitrary: r)
  case (Cons d ds)
  then show ?case using NewPrometheus_iff(2) [of d r] by (fastforce simp: go_bind_eq_Inr)
qed simp

lemma register_all_iff:
  "list_all (desc_ok fq) ds \<Longrightarrow>
   (\<exists>r'. register_all P ds r = Inr r') \<longleftrightarrow>
     distinct (map (fq_name fq) ds) \<and> fq_name fq ` set ds \<inter> registered r = {} \<and> (\<forall>d \<in> set ds. distinct (desc_labelNames d))"
proof (induction ds arbitrary: r)
  case (Cons d ds)
  show ?case
  proof (cases "NewPrometheus P d r")
    case (Inl p)
    then show ?thesis using NewPrometheus_iff(1) [of d r] Cons.prems by auto
  next
    case (Inr x)
    then obtain d' r1 where x: "NewPrometheus P d r = Inr (d', r1)" by (cases x) auto
    with Cons.prems NewPrometheus_iff [of d r] have r1: "registered r1 = insert (fq_name fq d) (registered r)"
        "fq_name fq d \<notin> registered r" "distinct (desc_labelNames d)" by auto
    then show ?thesis using Cons.IH [of r1] Cons.prems x by auto
  qed
qed simp

end

context controller_manager begin

lemma Complete_iff: "(\<exists>m'. Complete P x m = Inr m') \<longleftrightarrow> reg_Name x \<notin> managed m"
  using complete_fresh [of x m] complete_taken [of x m] by auto

lemma Complete_managed: "Complete P x m = Inr m' \<Longrightarrow> managed m' = insert (reg_Name x) (managed m)"
  using complete_fresh [of x m] complete_taken [of x m] by (cases "reg_Name x \<in> managed m") auto

lemma enrol_iff: "(\<exists>m'. enrol P s m = Inr m') \<longleftrightarrow> set (controller_names (ToLower P) s) \<inter> managed m = {}"
  by (cases s) (simp_all add: enrol_def Complete_iff status_Register_def generic_Register_def events_Register_def
      NewController_def NewEventsController_def Let_def events_name_def events_controller_def)

lemma enrol_managed: "enrol P s m = Inr m' \<Longrightarrow> managed m' = managed m \<union> set (controller_names (ToLower P) s)"
  by (cases s) (auto simp: enrol_def status_Register_def generic_Register_def events_Register_def NewController_def
      NewEventsController_def Let_def events_name_def events_controller_def dest: Complete_managed)

end


lemma valid_operator_metric:
  assumes "kind_ok k" and "\<forall>c \<in> set x. letter c \<or> digit c \<or> c = CHR ''_''"
  shows "valid_name (operator_metric k x)"
proof -
  have "\<forall>c \<in> set ''operator_''. letter c \<or> digit c \<or> c = CHR ''_''" "\<not> digit CHR ''o''"
    by (simp_all add: letter_def digit_def)
  with assms show ?thesis
    unfolding valid_name_def operator_metric_def kind_ok_def set_append ball_Un by simp blast
qed

lemma base_labels_valid:
  "valid_label MetricLabelNamespace" "valid_label MetricLabelName" "valid_label LabelType"
  "valid_label MetricLabelConditionStatus" "valid_label LabelReason" "valid_label LabelGroup" "valid_label LabelKind"
  by (simp_all add: label_defs valid_label_def valid_name_def letter_def digit_def)

lemma metric_labels_valid:
  "list_all valid_label (gauge_label_names p) \<Longrightarrow> list_all valid_label (metric_label_names p)"
  by (auto simp: gauge_label_names_def metric_label_names_def list_all_iff)

lemma metric_labels_distinct: "distinct (gauge_label_names p) \<Longrightarrow> distinct (metric_label_names p)"
  unfolding gauge_label_names_def metric_label_names_def map_append distinct_append by auto

lemma set_metric_labels: "set (metric_label_names p) \<subseteq> set (gauge_label_names p)"
  by (auto simp: gauge_label_names_def metric_label_names_def)

lemma controller_labels:
  "desc_labelNames (controller_metric D k p x) =
     (case x of
        ConditionDuration \<Rightarrow> [LabelType, MetricLabelConditionStatus] @ metric_label_names p
      | ConditionTransitionsTotal \<Rightarrow> [LabelType, MetricLabelConditionStatus, LabelReason] @ metric_label_names p
      | TerminationCurrentTimeSeconds \<Rightarrow> [MetricLabelNamespace, MetricLabelName] @ gauge_label_names p
      | TerminationDuration \<Rightarrow> metric_label_names p
      | _ \<Rightarrow> [MetricLabelNamespace, MetricLabelName, LabelType, MetricLabelConditionStatus, LabelReason] @ gauge_label_names p)"
  by (cases x) (simp_all add: metric_defs)

lemma controller_labels_valid:
  "list_all valid_label (gauge_label_names p) \<Longrightarrow> list_all valid_label (desc_labelNames (controller_metric D k p x))"
  by (cases x) (simp_all add: controller_labels base_labels_valid metric_labels_valid del: controller_metric.simps)

lemma controller_labels_distinct:
  "(\<forall>x \<in> set metric_order. distinct (desc_labelNames (controller_metric D k p x))) \<longleftrightarrow> labels_apart p"
proof
  assume "\<forall>x \<in> set metric_order. distinct (desc_labelNames (controller_metric D k p x))"
  then have "distinct (desc_labelNames (controller_metric D k p ConditionCount))" by (simp add: metric_order_def)
  then show "labels_apart p" by (simp add: labels_apart_def controller_labels del: controller_metric.simps)
next
  assume "labels_apart p"
  then show "\<forall>x \<in> set metric_order. distinct (desc_labelNames (controller_metric D k p x))"
    using set_metric_labels [of p] metric_labels_distinct [of p]
    by (auto simp: labels_apart_def metric_order_def controller_labels simp del: controller_metric.simps)
qed


lemma slot_of_ok: "step_ok lower s \<Longrightarrow> slot_ok (slot_of lower s)"
  by (cases s) simp_all

lemma slot_metrics_valid: "slot_ok s \<Longrightarrow> list_all valid_name (slot_metrics s)"
  by (cases s) (simp_all add: valid_operator_metric letter_def digit_def, simp_all add: valid_name_def letter_def digit_def)

lemma client_labels_valid:
  "list_all valid_label (desc_labelNames (request_duration P))" "list_all valid_label (desc_labelNames request_total)"
  by (simp_all add: request_duration_def request_total_def valid_label_def valid_name_def letter_def digit_def)

lemma metrics_of_labels:
  "step_ok (ToLower P) s \<Longrightarrow> d \<in> set (metrics_of P s) \<Longrightarrow> list_all valid_label (desc_labelNames d)"
  by (cases s) (auto simp: controller_labels_valid client_labels_valid eventTotalMetric_def base_labels_valid
      simp del: controller_metric.simps)

lemma metrics_of_distinct:
  "(\<forall>d \<in> set (metrics_of P s). distinct (desc_labelNames d)) \<longleftrightarrow> labels_apart (step_options s)"
proof -
  have "labels_apart zero_options"
    by (simp add: labels_apart_def label_defs zero_options_def gauge_label_names_def)
  then show ?thesis
    by (cases s) (simp_all add: controller_labels_distinct request_duration_def request_total_def eventTotalMetric_def
        label_defs del: controller_metric.simps)
qed

context prometheus_registry begin

lemma fq_operator: "x \<noteq> [] \<Longrightarrow> k \<noteq> [] \<Longrightarrow> fq ''operator'' k x = operator_metric k x"
  by (simp add: fq_parts operator_metric_def)

lemma fq_controller:
  assumes "k \<noteq> []"
  shows "map (fq_name fq) (map (controller_metric D k p) metric_order) = slot_metrics (StatusSlot k)"
proof -
  have "fq ''operator'' (k @ CHR ''_'' # y) x = operator_metric k (y @ CHR ''_'' # x)" if "x \<noteq> []" for x y
    using that by (simp add: fq_parts operator_metric_def)
  with assms show ?thesis
    by (simp add: metric_order_def fq_name_def metric_defs subsystem_of_def Namespace_operator_def
        MetricSubsystem_def TerminationSubsystem_def)
qed

lemma fq_package: "map (fq_name fq) (map (deprecated_metric D) metric_order) = package_names"
  by (simp add: metric_order_def fq_name_def deprecated_metric.simps metric_defs subsystem_of_def
      Namespace_operator_def package_names_def MetricSubsystem_def TerminationSubsystem_def fq_parts operator_metric_def)

lemma fq_metrics_of:
  assumes "step_ok (ToLower P) s"
  shows "map (fq_name fq) (metrics_of P s) = slot_metrics (slot_of (ToLower P) s)"
proof (cases s)
  case ClientStep
  then show ?thesis by (simp add: fq_name_def fq_parts request_duration_def request_total_def)
next
  case (StatusStep g opts)
  with assms have "ToLower P (gvk_Kind g) \<noteq> []" by (simp add: kind_ok_def)
  with StatusStep show ?thesis by (simp only: metrics_of.simps slot_of.simps fq_controller not_False_eq_True)
next
  case (GenericStep g T opts)
  with assms have "ToLower P (gvk_Kind g) \<noteq> []" by (simp add: kind_ok_def)
  with GenericStep show ?thesis by (simp only: metrics_of.simps slot_of.simps fq_controller not_False_eq_True)
next
  case (EventsStep g now)
  with assms show ?thesis
    by (simp add: kind_ok_def fq_name_def eventTotalMetric_def Namespace_operator_def fq_operator)
qed

lemma metrics_of_ok:
  assumes "step_ok (ToLower P) s"
  shows "list_all (desc_ok fq) (metrics_of P s)"
proof -
  have "list_all valid_name (map (fq_name fq) (metrics_of P s))"
    unfolding fq_metrics_of [OF assms] by (rule slot_metrics_valid [OF slot_of_ok [OF assms]])
  with metrics_of_labels [OF assms] show ?thesis by (simp add: list_all_iff desc_ok_def)
qed

end


subsection \<open>Runs\<close>

context operator_platform begin

lemma register_iff:
  assumes "step_ok (ToLower P) s"
  shows "(\<exists>r'. register_all P (metrics_of P s) r = Inr r') \<longleftrightarrow>
      set (slot_metrics (slot_of (ToLower P) s)) \<inter> registered r = {} \<and> labels_apart (step_options s)"
  using slot_metrics_distinct [OF slot_of_ok [OF assms]]
  by (simp add: register_all_iff [OF metrics_of_ok [OF assms]] fq_metrics_of [OF assms] metrics_of_distinct
      flip: set_map)

lemma register_registered:
  assumes "step_ok (ToLower P) s" and "register_all P (metrics_of P s) r = Inr r'"
  shows "registered r' = registered r \<union> set (slot_metrics (slot_of (ToLower P) s))"
  using register_all_registered [OF metrics_of_ok [OF assms(1)] assms(2)] fq_metrics_of [OF assms(1)]
  by (simp flip: set_map)

lemma perform_iff:
  assumes "step_ok (ToLower P) s"
  shows "(\<exists>r' m'. perform P s (r, m) = Inr (Inr (r', m'))) \<longleftrightarrow>
    set (slot_metrics (slot_of (ToLower P) s)) \<inter> registered r = {} \<and> labels_apart (step_options s)
      \<and> set (controller_names (ToLower P) s) \<inter> managed m = {}"
  using register_iff [OF assms, of r] enrol_iff [of s m] by (simp add: perform_eq_Inr)

lemma conj_chain:
  "A \<and> A' \<longleftrightarrow> B \<and> B' \<Longrightarrow> C \<and> C' \<longleftrightarrow> D \<and> D' \<Longrightarrow> X \<longleftrightarrow> Y \<Longrightarrow> Y \<longleftrightarrow> B \<and> B' \<and> D \<and> D' \<and> L \<Longrightarrow> l
    \<Longrightarrow> X \<longleftrightarrow> A \<and> A' \<and> C \<and> C' \<and> l \<and> L"
  by blast

lemma run_setup_iff:
  assumes "list_all (step_ok (ToLower P)) ss"
  shows "(\<exists>st. run_setup P ss (r, m) = Inr (Inr st)) \<longleftrightarrow>
    (let ms = concat (map (\<lambda>s. slot_metrics (slot_of (ToLower P) s)) ss);
         cs = concat (map (controller_names (ToLower P)) ss)
     in distinct ms \<and> set ms \<inter> registered r = {} \<and> distinct cs \<and> set cs \<inter> managed m = {}
        \<and> (\<forall>s \<in> set ss. labels_apart (step_options s)))"
  using assms
proof (induction ss arbitrary: r m)
  case (Cons s ss)
  let ?M = "set (slot_metrics (slot_of (ToLower P) s))" and ?N = "set (controller_names (ToLower P) s)"
  have s: "step_ok (ToLower P) s" and ss: "list_all (step_ok (ToLower P)) ss" using Cons.prems by simp_all
  have d: "distinct (slot_metrics (slot_of (ToLower P) s))" "distinct (controller_names (ToLower P) s)"
    using slot_metrics_distinct [OF slot_of_ok [OF s]] by (simp, cases s) simp_all
  show ?case
  proof (cases "\<exists>r' m'. perform P s (r, m) = Inr (Inr (r', m'))")
    case True
    then obtain r' m' where p: "perform P s (r, m) = Inr (Inr (r', m'))" by blast
    then have reg: "register_all P (metrics_of P s) r = Inr r'" and en: "enrol P s m = Inr m'"
      by (simp_all add: perform_eq_Inr)
    have upd: "registered r' = registered r \<union> ?M" "managed m' = managed m \<union> ?N"
      using register_registered [OF s reg] enrol_managed [OF en] by simp_all
    have free: "?M \<inter> registered r = {}" "labels_apart (step_options s)" "?N \<inter> managed m = {}"
      using perform_iff [OF s, of r m] p by auto
    define ms cs where "ms = concat (map (\<lambda>s. slot_metrics (slot_of (ToLower P) s)) ss)"
      and "cs = concat (map (controller_names (ToLower P)) ss)"
    have "distinct (slot_metrics (slot_of (ToLower P) s) @ ms)
          \<and> set (slot_metrics (slot_of (ToLower P) s) @ ms) \<inter> registered r = {}
        \<longleftrightarrow> distinct ms \<and> set ms \<inter> registered r' = {}"
      unfolding upd distinct_append set_append using d(1) free(1) by blast
    moreover have "distinct (controller_names (ToLower P) s @ cs) \<and> set (controller_names (ToLower P) s @ cs) \<inter> managed m = {}
        \<longleftrightarrow> distinct cs \<and> set cs \<inter> managed m' = {}"
      unfolding upd distinct_append set_append using d(2) free(3) by blast
    moreover have "(\<exists>st. run_setup P (s # ss) (r, m) = Inr (Inr st)) \<longleftrightarrow> (\<exists>st. run_setup P ss (r', m') = Inr (Inr st))"
      by (simp add: p)
    moreover note Cons.IH [OF ss, of r' m', unfolded Let_def, folded ms_def cs_def] free(2)
    ultimately show ?thesis
      unfolding Let_def list.map concat.simps list.set ball_simps ms_def [symmetric] cs_def [symmetric]
      by (rule conj_chain)
  next
    case False
    then have "\<not> (?M \<inter> registered r = {} \<and> labels_apart (step_options s) \<and> ?N \<inter> managed m = {})"
      using perform_iff [OF s, of r m] by blast
    moreover from False have "\<nexists>st. run_setup P (s # ss) (r, m) = Inr (Inr st)"
      by (auto simp: go_bind_eq_Inr split: sum.splits)
    ultimately show ?thesis by (auto simp: Let_def)
  qed
qed (simp add: Let_def)

end


lemma status_name_eq: "status_name k = status_name k' \<longleftrightarrow> k = k'"
  by (simp add: status_name_def)

lemma events_controller_eq: "events_controller k = events_controller k' \<longleftrightarrow> k = k'"
  by (simp add: events_controller_def)

lemma status_events_name: "status_name k \<noteq> events_controller k'" "events_controller k' \<noteq> status_name k"
  by (auto simp: status_name_def events_controller_def append_eq_append_conv)

lemma status_name_in: "status_name k \<in> set (controller_names lower s) \<longleftrightarrow> k \<in> set (named_after lower s)"
  by (cases s) (simp_all add: status_name_eq status_events_name)

lemma events_name_in: "events_controller k \<in> set (controller_names lower s) \<longleftrightarrow> slot_of lower s = EventsSlot k"
  by (cases s) (auto simp: status_events_name events_controller_eq)

lemma controller_names_distinct:
  "distinct (map (slot_of lower) ss) \<Longrightarrow>
   distinct (concat (map (controller_names lower) ss)) \<longleftrightarrow> distinct (concat (map (named_after lower) ss))"
proof (induction ss)
  case (Cons s ss)
  have "set (controller_names lower s) \<inter> (\<Union>t \<in> set ss. set (controller_names lower t)) = {} \<longleftrightarrow>
      set (named_after lower s) \<inter> (\<Union>t \<in> set ss. set (named_after lower t)) = {}"
  proof (cases s)
    case (EventsStep g now)
    have "events_controller (lower (gvk_Kind g)) \<notin> set (controller_names lower t)" if "t \<in> set ss" for t
      using that Cons.prems EventsStep unfolding events_name_in by (force simp: image_iff)
    with EventsStep show ?thesis by auto
  qed (auto simp: status_name_in)
  moreover have "distinct (controller_names lower s)" "distinct (named_after lower s)" by (cases s; simp)+
  ultimately show ?case using Cons by simp
qed simp

text \<open>What the names of a program begin with.\<close>

lemma slot_metrics_prefix:
  "n \<in> set (slot_metrics s) \<union> set package_names \<Longrightarrow> prefix ''operator_'' n \<or> prefix ''client_go_request_'' n"
  by (cases s) (auto simp: operator_metric_def package_names_def)

lemma controller_names_prefix: "n \<in> set (controller_names lower s) \<Longrightarrow> prefix ''operatorpkg.'' n"
  by (cases s) (auto simp: status_name_def events_controller_def)

context operator_platform begin

lemma package_init_ok:
  assumes "set package_names \<inter> registered r = {}"
  shows "\<exists>r'. package_init P r = Inr r' \<and> registered r' = registered r \<union> set package_names"
proof -
  let ?ds = "map (deprecated_metric (DefBuckets P)) metric_order"
  have "list_all valid_name package_names"
    unfolding package_names_def
    by (simp add: valid_operator_metric kind_ok_def letter_def digit_def)
  moreover have "list_all (\<lambda>d. list_all valid_label (desc_labelNames d)) ?ds"
    by (simp add: metric_order_def deprecated_metric.simps metric_defs base_labels_valid)
  ultimately have ok: "list_all (desc_ok fq) ?ds"
    unfolding fq_package [of "DefBuckets P", symmetric] by (simp add: list_all_iff desc_ok_def)
  have "\<forall>d \<in> set ?ds. distinct (desc_labelNames d)"
    by (simp add: metric_order_def deprecated_metric.simps metric_defs label_defs)
  with assms have "\<exists>r'. register_all P ?ds r = Inr r'"
    unfolding register_all_iff [OF ok] fq_package set_map [symmetric] using package_names_distinct by blast
  with register_all_registered [OF ok, of r] show ?thesis
    unfolding package_init_def fq_package set_map [symmetric] by blast
qed

lemma setup_iff:
  assumes "list_all (step_ok (ToLower P)) ss"
    and "\<forall>n \<in> registered r. \<not> prefix ''operator_'' n \<and> \<not> prefix ''client_go_request_'' n"
    and "\<forall>n \<in> managed m. \<not> prefix ''operatorpkg.'' n"
  shows "(\<exists>st. setup_operator P ss (r, m) = Inr (Inr st)) \<longleftrightarrow>
    distinct (map (slot_of (ToLower P)) ss) \<and> distinct (concat (map (named_after (ToLower P)) ss))
    \<and> (\<forall>s \<in> set ss. labels_apart (step_options s))"
proof -
  let ?key = "slot_of (ToLower P)"
  have ok: "slot_ok (?key s)" if "s \<in> set ss" for s
    using that assms(1) slot_of_ok by (auto simp: list_all_iff)
  have "set package_names \<inter> registered r = {}"
    using slot_metrics_prefix assms(2) by blast
  then obtain r' where r': "package_init P r = Inr r'" "registered r' = registered r \<union> set package_names"
    using package_init_ok by blast
  have "distinct (concat (map (\<lambda>s. slot_metrics (?key s)) ss)) \<longleftrightarrow> distinct (map ?key ss)"
    by (rule distinct_concat_map_key) (use ok slot_metrics_distinct slot_metrics_apart in blast)+
  moreover have "set (concat (map (\<lambda>s. slot_metrics (?key s)) ss)) \<inter> registered r' = {}"
    using ok slot_metrics_prefix slot_metrics_package assms(2) unfolding r'(2) by fastforce
  moreover have "set (concat (map (controller_names (ToLower P)) ss)) \<inter> managed m = {}"
    using controller_names_prefix assms(3) by fastforce
  ultimately show ?thesis
    using run_setup_iff [OF assms(1), of r' m] controller_names_distinct [of "ToLower P" ss]
    by (auto simp: setup_operator_def r'(1) Let_def)
qed

lemma taken_slot_panics:
  assumes "step_ok (ToLower P) s" and "set (slot_metrics (slot_of (ToLower P) s)) \<inter> registered r \<noteq> {}"
  shows "\<exists>p. perform P s (r, m) = Inl p"
  using register_iff [OF assms(1), of r] assms(2)
  by (cases "register_all P (metrics_of P s) r") (auto simp: perform_eq)

end


section \<open>The documented registry and manager\<close>

text \<open>Both keep the names they have.\<close>

definition BuildFQName :: "string \<Rightarrow> string \<Rightarrow> string \<Rightarrow> string" where
  "BuildFQName ns sub x = (if x = [] then [] else strings_Join (filter (\<lambda>s. s \<noteq> []) [ns, sub, x]) ''_'')"

definition reference_platform :: "(rat, string list, string list) platform" where
  "reference_platform =
     \<lparr>MustRegister = (\<lambda>d r.
        if fq_name BuildFQName d \<in> set r \<or> \<not> distinct (desc_labelNames d)
        then Inl (MustFailed ''descriptor'') else Inr (fq_name BuildFQName d # r)),
      Complete = (\<lambda>x m. if reg_Name x \<in> set m then Inl (''controller with name '' @ reg_Name x @ '' already exists'')
        else Inr (reg_Name x # m)),
      DefBuckets = [5 / 1000, 1 / 100, 25 / 1000, 5 / 100, 1 / 10, 1 / 4, 1 / 2, 1, 5 / 2, 5, 10],
      ExponentialBuckets = (\<lambda>start factor n. map (\<lambda>i. start * factor ^ i) [0..<n]),
      ToLower = ascii_lower\<rparr>"

interpretation reference_platform: operator_platform reference_platform BuildFQName set set
  by unfold_locales (auto simp: reference_platform_def BuildFQName_def)

section \<open>Properties\<close>

text \<open>
  Property C35. A program sets itself up without a panic and without an error exactly when no two of its status controllers
  (generic ones among them) and no two of its event controllers are for kinds that agree up to case, whatever their groups,
  the client metrics are registered at most once, no two of the names the status controllers are registered under
  agree (the kind, but the Go type of a generic one), and in each controller the names of the additional
  labels, as Prometheus gets them, differ from each other and from the five names a series of a condition has. The
  deprecated metrics of the package never stand in the way.
\<close>

theorem setup_succeeds_iff:
  assumes "operator_platform P fq metric_names manager_names" and "list_all (step_ok (ToLower P)) ss"
    and "\<forall>n \<in> metric_names r. \<not> prefix ''operator_'' n \<and> \<not> prefix ''client_go_request_'' n"
    and "\<forall>n \<in> manager_names m. \<not> prefix ''operatorpkg.'' n"
  shows "(\<exists>st. setup_operator P ss (r, m) = Inr (Inr st)) \<longleftrightarrow>
    distinct (map (slot_of (ToLower P)) ss) \<and> distinct (concat (map (named_after (ToLower P)) ss))
    \<and> (\<forall>s \<in> set ss. labels_apart (step_options s))"
  using operator_platform.setup_iff [OF assms] .

definition demo_kind :: "string \<Rightarrow> string \<Rightarrow> gvk" where
  "demo_kind g k = \<lparr>gvk_Group = g, gvk_Version = ''v1'', gvk_Kind = k\<rparr>"

definition demo_program :: "rat setup_step list" where
  "demo_program = [ClientStep, StatusStep (demo_kind ''karpenter.sh'' ''NodePool'') [Some (WithLabels [''app.kubernetes.io/name''])],
     EventsStep (demo_kind ''karpenter.sh'' ''NodePool'') 7, GenericStep (demo_kind [] ''Node'') ''Node'' []]"

definition clashing_step :: "rat setup_step" where
  "clashing_step = StatusStep (demo_kind ''other.io'' ''Nodepool'') []"

lemma reference_ToLower: "ToLower reference_platform = ascii_lower"
  by (simp add: reference_platform_def)

lemma demo_lower:
  "ascii_lower ''NodePool'' = ''nodepool''" "ascii_lower ''Nodepool'' = ''nodepool''" "ascii_lower ''Node'' = ''node''"
  by code_simp+

lemma demo_kind_ok: "kind_ok ''nodepool''" "kind_ok ''node''"
  by (simp_all add: kind_ok_def letter_def)

lemma demo_gauge_labels:
  "gauge_label_names (WithLabels [''app.kubernetes.io/name''] zero_options) = [''app_kubernetes_io_name'']"
  "gauge_label_names zero_options = []"
  by (simp_all add: zero_options_def gauge_label_names_def WithLabels_def toPrometheusLabel_def ReplaceAll_char_def)

lemmas demo_program_defs = demo_program_def clashing_step_def demo_kind_def reference_ToLower demo_lower

lemma demo_program_ok: "list_all (step_ok (ToLower reference_platform)) (demo_program @ [clashing_step])"
  by (simp add: demo_program_defs demo_kind_ok demo_gauge_labels,
    simp add: valid_label_def valid_name_def letter_def digit_def)

theorem setup_succeeds_iff_witness:
  "(\<exists>st. setup_operator reference_platform demo_program ([], []) = Inr (Inr st))
   \<and> (\<nexists>st. setup_operator reference_platform (demo_program @ [clashing_step]) ([], []) = Inr (Inr st))"
proof
  have ok: "list_all (step_ok (ToLower reference_platform)) demo_program" using demo_program_ok by simp
  have none: "\<forall>n \<in> set ([] :: string list). Q n" for Q by simp
  note iff = setup_succeeds_iff [OF reference_platform.operator_platform_axioms _ none none]
  show "\<exists>st. setup_operator reference_platform demo_program ([], []) = Inr (Inr st)"
    unfolding iff [OF ok] by (simp add: demo_program_defs demo_gauge_labels labels_apart_def label_defs)
  show "\<nexists>st. setup_operator reference_platform (demo_program @ [clashing_step]) ([], []) = Inr (Inr st)"
    by (subst iff [OF demo_program_ok]) (simp add: demo_program_defs)
qed

text \<open>
  Two controllers for the same kind in different groups: the constructor of the second one panics, because the names of the
  metrics do not contain the group.
\<close>

lemma same_kind_panics:
  assumes "kind_ok (ascii_lower k)"
  shows "\<exists>p. run_setup reference_platform [StatusStep (demo_kind g k) [], StatusStep (demo_kind h k) []] ([], []) = Inl p"
proof -
  have ok: "step_ok (ToLower reference_platform) (StatusStep (demo_kind i k) [] :: rat setup_step)" for i
    using assms by (simp add: reference_ToLower demo_kind_def demo_gauge_labels)
  let ?s = "StatusStep (demo_kind g k) [] :: rat setup_step" and ?t = "StatusStep (demo_kind h k) [] :: rat setup_step"
  have "labels_apart zero_options" by (simp add: labels_apart_def label_defs demo_gauge_labels)
  then obtain r m where p: "perform reference_platform ?s ([], []) = Inr (Inr (r, m))"
    using reference_platform.perform_iff [OF ok, of g "[]" "[]"] by auto
  from p have "register_all reference_platform (metrics_of reference_platform ?s) [] = Inr r"
    by (simp only: perform_eq_Inr)
  from reference_platform.register_registered [OF ok this] have "set r = set (slot_metrics (slot_of (ToLower reference_platform) ?t))" by (simp add: demo_kind_def)
  moreover have "slot_metrics (slot_of (ToLower reference_platform) ?t) \<noteq> []" by simp
  ultimately obtain e where "perform reference_platform ?t (r, m) = Inl e"
    using reference_platform.taken_slot_panics [OF ok [of h], of r m] by (metis inf.idem set_empty)
  with p show ?thesis by simp
qed

end
