(* ===== verification/Backoff.thy ===== *)
theory Backoff
  imports Reconciler StatusController
begin

section \<open>Back-off\<close>

text \<open>
  \<open>reasonable/reasonable.go\<close>, and \<open>Source\<close> of \<open>singleton/controller.go\<close>. The limiters of \<open>workqueue\<close> that
  \<open>reasonable.RateLimiter\<close> is put together from are parameters; the locale \<open>workqueue_limiters\<close> states their
  documentation: an item-exponential limiter doubles its delay with every failure of an item up to a maximum, a bucket
  has no count per item, and the maximum of two limiters asks both. From this follows that the composed limiter has the contract
  \<open>rate_limiter\<close>, and what a reconciler that asks for a requeue is told.
\<close>

definition millisecond :: duration where "millisecond = 1000000"
definition minute :: duration where "minute = 60 * second"

definition RateLimiter ::
  "(('r, 'e) rate_limiter_ops \<Rightarrow> ('r, 'b) rate_limiter_ops \<Rightarrow> ('r, 'e \<times> 'b) rate_limiter_ops)
    \<Rightarrow> (duration \<Rightarrow> duration \<Rightarrow> ('r, 'e) rate_limiter_ops) \<Rightarrow> (int \<Rightarrow> int \<Rightarrow> ('r, 'b) rate_limiter_ops)
    \<Rightarrow> ('r, 'e \<times> 'b) rate_limiter_ops" where
  "RateLimiter MaxOf ItemExponential Bucket =
     MaxOf (ItemExponential (100 * millisecond) (1 * minute)) (Bucket 10 100)"

text \<open>
  \<open>Source\<close>: a channel that holds one event, and the handler that adds the empty request for it. \<open>Channel\<close> stands for
  \<open>source.Channel\<close>.
\<close>

definition GenericFunc :: "(request \<Rightarrow> 'q \<Rightarrow> 'q) \<Rightarrow> unit \<Rightarrow> 'q \<Rightarrow> 'q" where
  "GenericFunc Add ev queue = Add \<lparr>req_Namespace = [], req_Name = []\<rparr> queue"

definition Source :: "(unit list \<Rightarrow> (unit \<Rightarrow> 'q \<Rightarrow> 'q) \<Rightarrow> 'src) \<Rightarrow> (request \<Rightarrow> 'q \<Rightarrow> 'q) \<Rightarrow> 'src" where
  "Source Channel Add = Channel [()] (GenericFunc Add)"

section \<open>The contract of the limiters\<close>

locale workqueue_limiters =
  fixes MaxOf :: "('r, 'e) rate_limiter_ops \<Rightarrow> ('r, 'b) rate_limiter_ops \<Rightarrow> ('r, 'e \<times> 'b) rate_limiter_ops"
    and ItemExponential :: "duration \<Rightarrow> duration \<Rightarrow> ('r, 'e) rate_limiter_ops"
    and Bucket :: "int \<Rightarrow> int \<Rightarrow> ('r, 'b) rate_limiter_ops"
    and failures :: "'e \<Rightarrow> 'r \<Rightarrow> nat"
  assumes exp_delay: "fst (When (ItemExponential base most) r e) = min (base * 2 ^ failures e r) most"
    and exp_when: "failures (snd (When (ItemExponential base most) r e)) = (failures e)(r := Suc (failures e r))"
    and exp_forget: "failures (Forget (ItemExponential base most) r e) = (failures e)(r := 0)"
    and exp_count: "NumRequeues (ItemExponential base most) r e = int (failures e r)"
    and bucket_delay: "0 \<le> fst (When (Bucket limit burst) r b)"
    and bucket_count: "NumRequeues (Bucket limit burst) r b = 0"
    and max_when: "When (MaxOf A B) r (e, b)
      = (max (fst (When A r e)) (fst (When B r b)), (snd (When A r e), snd (When B r b)))"
    and max_forget: "Forget (MaxOf A B) r (e, b) = (Forget A r e, Forget B r b)"
    and max_count: "NumRequeues (MaxOf A B) r (e, b) = max (NumRequeues A r e) (NumRequeues B r b)"
begin

lemmas exp_laws = exp_delay exp_when exp_forget exp_count
lemmas max_laws = max_when max_forget max_count

lemma reasonable_count: "NumRequeues (RateLimiter MaxOf ItemExponential Bucket) r l = int (failures (fst l) r)"
  by (cases l) (simp add: RateLimiter_def exp_laws max_laws bucket_count)

lemma reasonable_delay:
  "fst (When (RateLimiter MaxOf ItemExponential Bucket) r l)
     = max (min (100 * millisecond * 2 ^ failures (fst l) r) (1 * minute)) (fst (When (Bucket 10 100) r (snd l)))"
  by (cases l) (simp add: RateLimiter_def exp_laws max_laws)

end

sublocale workqueue_limiters \<subseteq> reasonable: rate_limiter "RateLimiter MaxOf ItemExponential Bucket" "\<lambda>_. True"
proof
  fix r r' :: 'r and l :: "'e \<times> 'b"
  let ?L = "RateLimiter MaxOf ItemExponential Bucket"
  show "NumRequeues ?L r' (snd (When ?L r l)) = (if r' = r then NumRequeues ?L r' l + 1 else NumRequeues ?L r' l)"
    by (cases l) (simp add: RateLimiter_def exp_laws max_laws bucket_count)
  show "NumRequeues ?L r' (Forget ?L r l) = (if r' = r then 0 else NumRequeues ?L r' l)"
    by (cases l) (simp add: RateLimiter_def exp_laws max_laws bucket_count)
qed simp_all

context workqueue_limiters begin

lemma backoff_after:
  assumes "failures (fst l) r = 0" and "l' = limiter_calls (RateLimiter MaxOf ItemExponential Bucket) cs l"
  shows "fst (When (RateLimiter MaxOf ItemExponential Bucket) r l')
    = max (min (100 * millisecond * 2 ^ trailing_requeues r cs) minute) (fst (When (Bucket 10 100) r (snd l')))"
  using reasonable.calls_count [where l = l and r = r and cs = cs] assms unfolding reasonable_delay by (simp add: reasonable_count)

end

text \<open>
  The documented behaviour itself: the failures of each item, and a bucket of which tokens are taken at one instant, where the
  token number \<open>k\<close> is there as soon as \<open>k + 1 - burst\<close> of them have dripped in.
\<close>

definition documented_exponential :: "duration \<Rightarrow> duration \<Rightarrow> ('r, 'r \<Rightarrow> nat) rate_limiter_ops" where
  "documented_exponential base most =
     \<lparr>When = (\<lambda>r f. (min (base * 2 ^ f r) most, f(r := Suc (f r)))),
      Forget = (\<lambda>r f. f(r := 0)), NumRequeues = (\<lambda>r f. int (f r))\<rparr>"

definition documented_bucket :: "int \<Rightarrow> int \<Rightarrow> ('r, nat) rate_limiter_ops" where
  "documented_bucket limit burst =
     \<lparr>When = (\<lambda>r k. (max 0 ((int k + 1 - burst) * second div limit), Suc k)),
      Forget = (\<lambda>r k. k), NumRequeues = (\<lambda>r k. 0)\<rparr>"

definition documented_max :: "('r, 'e) rate_limiter_ops \<Rightarrow> ('r, 'b) rate_limiter_ops \<Rightarrow> ('r, 'e \<times> 'b) rate_limiter_ops" where
  "documented_max A B =
     \<lparr>When = (\<lambda>r (e, b). (max (fst (When A r e)) (fst (When B r b)), (snd (When A r e), snd (When B r b)))),
      Forget = (\<lambda>r (e, b). (Forget A r e, Forget B r b)),
      NumRequeues = (\<lambda>r (e, b). max (NumRequeues A r e) (NumRequeues B r b))\<rparr>"

interpretation documented: workqueue_limiters documented_max documented_exponential documented_bucket "\<lambda>f. f"
  by unfold_locales (simp_all add: documented_max_def documented_exponential_def documented_bucket_def)

section \<open>Properties\<close>

text \<open>
  Property C36. With the reasonable rate limiter a reconciler that keeps asking for a requeue backs off: after any calls for
  any requests, if the last \<open>n\<close> outcomes for a request asked for a requeue, the next one that does is told to come back after
  100 milliseconds doubled \<open>n\<close> times, but at most a minute, or later if the bucket all requests share asks for
  more; so the delay is never less than 100 milliseconds, and at least a minute from the eleventh time on.
\<close>

theorem reasonable_backoff:
  assumes "workqueue_limiters MaxOf ItemExponential Bucket failures" and "\<forall>r. failures (fst l) r = 0"
    and "Requeue res" and "RequeueAfter res \<le> 0" and "L = RateLimiter MaxOf ItemExponential Bucket"
    and "l' = limiter_calls L cs l"
    and "AsReconcilerWithRateLimiter L (\<lambda>_ s. ((res, None), s)) req (s, l') = ((told, err), sl)"
  shows "err = None
    \<and> runtime_RequeueAfter told
        = max (min (100 * millisecond * 2 ^ trailing_requeues req cs) minute) (fst (When (Bucket 10 100) req (snd l')))
    \<and> 100 * millisecond \<le> runtime_RequeueAfter told
    \<and> (10 \<le> trailing_requeues req cs \<longrightarrow> minute \<le> runtime_RequeueAfter told)"
proof -
  let ?L = "RateLimiter MaxOf ItemExponential Bucket"
  have told: "err = None" "runtime_RequeueAfter told = fst (When ?L req l')"
    using assms(3,4,5,7) by (auto simp: AsReconcilerWithRateLimiter_def split: prod.splits)
  have delay: "fst (When ?L req l')
      = max (min (100 * millisecond * 2 ^ trailing_requeues req cs) minute) (fst (When (Bucket 10 100) req (snd l')))"
    using workqueue_limiters.backoff_after [OF assms(1), of l req l' cs] assms(2,5,6) by simp
  have "100 * millisecond \<le> min (100 * millisecond * 2 ^ trailing_requeues req cs) minute"
    by (simp add: millisecond_def minute_def second_def)
  moreover have "minute \<le> min (100 * millisecond * 2 ^ trailing_requeues req cs) minute" if "10 \<le> trailing_requeues req cs"
    using power_increasing [OF that, of "2 :: int"] by (simp add: millisecond_def minute_def second_def)
  ultimately show ?thesis
    unfolding told delay by (simp add: le_max_iff_disj)
qed

theorem reasonable_backoff_witness:
  "\<exists>l' told sl. l' = limiter_calls (RateLimiter documented_max documented_exponential documented_bucket)
       (replicate 5 (7 :: nat, \<lparr>RequeueAfter = 0, Requeue = True\<rparr>, None :: string option)) (\<lambda>_. 0, 98)
     \<and> AsReconcilerWithRateLimiter (RateLimiter documented_max documented_exponential documented_bucket)
       (\<lambda>_ s. ((\<lparr>RequeueAfter = 0, Requeue = True\<rparr>, None :: string option), s)) 7 ((), l') = ((told, None), sl)
     \<and> runtime_RequeueAfter told = 3200000000"
proof -
  define L :: "(nat, (nat \<Rightarrow> nat) \<times> nat) rate_limiter_ops"
    where "L = RateLimiter documented_max documented_exponential documented_bucket"
  let ?cs = "replicate 5 (7 :: nat, \<lparr>RequeueAfter = 0, Requeue = True\<rparr>, None :: string option)"
  define l' where "l' = limiter_calls L ?cs (\<lambda>_. 0, 98)"
  obtain told err sl where a: "AsReconcilerWithRateLimiter L
      (\<lambda>_ s. ((\<lparr>RequeueAfter = 0, Requeue = True\<rparr>, None :: string option), s)) 7 ((), l') = ((told, err), sl)"
    by (metis surj_pair)
  have "snd l' = 103"
    by (simp add: l'_def L_def limiter_calls_def AsReconcilerWithRateLimiter_def RateLimiter_def documented_max_def
        documented_exponential_def documented_bucket_def eval_nat_numeral)
  moreover have "trailing_requeues 7 ?cs = 5"
    by (simp add: trailing_requeues_def eval_nat_numeral)
  moreover note reasonable_backoff [OF documented.workqueue_limiters_axioms _ _ _ L_def l'_def a]
  ultimately have "err = None" "runtime_RequeueAfter told = 3200000000"
    by (simp_all add: millisecond_def minute_def second_def documented_bucket_def)
  with a show ?thesis unfolding L_def l'_def by blast
qed

text \<open>
  \<open>Channel\<close> hands every event of its channel to the handler: the queue of a singleton controller gets the empty request,
  once.
\<close>

lemma singleton_source: "Source (\<lambda>evs h q. fold h evs q) Add q = Add \<lparr>req_Namespace = [], req_Name = []\<rparr> q"
  by (simp add: Source_def GenericFunc_def)

end
