(* ===== verification/TestObject.thy ===== *)
theory TestObject
  imports Condition Env
begin

section \<open>Objects for tests\<close>

text \<open>
  \<open>test/object.go\<close>: names for test objects, the objects themselves, and the deep copies of \<open>CustomObject\<close> with those of
  \<open>status/zz_generated.deepcopy.go\<close> they call. The random words of a name and \<open>mergo.Merge\<close> are parameters;
  the locale \<open>mergo\<close> says what merging with override is documented to do to the metadata of an object. The counter of
  the names is a 64-bit word under a lock, so calls happen one after the other.
\<close>

definition DiscoveryLabel :: string where "DiscoveryLabel = ''operators.k8s.aws/test-id''"

definition Namespace_Name :: string where "Namespace_Name = ''default''"

definition RandomName :: "string \<Rightarrow> string \<Rightarrow> 64 word \<Rightarrow> string \<times> 64 word" where
  "RandomName silly alnum sequentialNumber =
     (let n = sequentialNumber + 1
      in (ascii_lower (silly @ ''-'' @ FormatInt (sint n) @ ''-'' @ alnum), n))"

text \<open>The methods of \<open>client.Object\<close> that are used, and a new object of its type.\<close>

record 'o client_object =
  client_New :: 'o
  client_GetName :: "'o \<Rightarrow> string"
  client_SetName :: "string \<Rightarrow> 'o \<Rightarrow> 'o"
  client_GetNamespace :: "'o \<Rightarrow> string"
  client_SetNamespace :: "string \<Rightarrow> 'o \<Rightarrow> 'o"
  client_GetGeneration :: "'o \<Rightarrow> int"
  client_SetGeneration :: "int \<Rightarrow> 'o \<Rightarrow> 'o"
  client_GetLabels :: "'o \<Rightarrow> strmap"
  client_SetLabels :: "strmap \<Rightarrow> 'o \<Rightarrow> 'o"
  client_GetCreationTimestamp :: "'o \<Rightarrow> go_time"
  client_SetCreationTimestamp :: "go_time \<Rightarrow> 'o \<Rightarrow> 'o"

fun merge_all :: "('o \<Rightarrow> 'o \<Rightarrow> string + 'o) \<Rightarrow> 'o \<Rightarrow> 'o list \<Rightarrow> 'o go" where
  "merge_all Merge dest [] = Inr dest"
| "merge_all Merge dest (src # srcs) =
     (case Merge dest src of Inl e \<Rightarrow> Inl (MustFailed e) | Inr dest \<Rightarrow> merge_all Merge dest srcs)"

definition test_Object :: "'o client_object \<Rightarrow> ('o \<Rightarrow> 'o \<Rightarrow> string + 'o) \<Rightarrow> go_time \<Rightarrow> string \<Rightarrow> string
    \<Rightarrow> 'o \<Rightarrow> 'o list \<Rightarrow> 64 word \<Rightarrow> ('o \<times> 64 word) go" where
  "test_Object M Merge now silly alnum base overrides n =
     (let (name, n) = RandomName silly alnum n;
          dest = client_SetName M name (client_New M);
          dest = client_SetNamespace M Namespace_Name dest;
          dest = client_SetGeneration M 1 dest;
          dest = client_SetLabels M (client_GetLabels M dest ++ [DiscoveryLabel \<mapsto> client_GetName M dest]) dest
      in go_bind (merge_all Merge dest (base # overrides)) (\<lambda>dest.
           Inr (client_SetCreationTimestamp M now dest, n)))"

subsection \<open>Deep copies\<close>

text \<open>
  A slice of conditions is a place in a store of arrays, nil is \<open>None\<close>. The store allocates places in their order. The metadata
  holds slices and maps of its own, which \<open>ObjectMeta.DeepCopyInto\<close> copies; it is the parameter \<open>MetaDeepCopy\<close>.
\<close>

record store =
  cells :: "nat \<Rightarrow> condition list"
  next_cell :: nat

record ref_object =
  ref_ObjectMeta :: object_meta
  ref_Field1 :: string
  ref_Field2 :: string
  ref_Conditions :: "nat option"

definition zero_condition :: condition where
  "zero_condition = \<lparr>Type = [], Status = [], ObservedGeneration = 0, LastTransitionTime = 0, Reason = [], Message = []\<rparr>"

definition alloc :: "condition list \<Rightarrow> store \<Rightarrow> nat \<times> store" where
  "alloc cs h = (next_cell h, h\<lparr>cells := (cells h)(next_cell h := cs), next_cell := Suc (next_cell h)\<rparr>)"

definition write_cell :: "nat \<Rightarrow> nat \<Rightarrow> condition \<Rightarrow> store \<Rightarrow> store go" where
  "write_cell a i c h =
     (if i < length (cells h a) then Inr (h\<lparr>cells := (cells h)(a := (cells h a)[i := c])\<rparr>) else Inl IndexOutOfRange)"

definition Condition_DeepCopyInto :: "condition \<Rightarrow> condition \<Rightarrow> condition" where
  "Condition_DeepCopyInto c to = (let to = c in to\<lparr>LastTransitionTime := LastTransitionTime c\<rparr>)"

text \<open>\<open>for i := range *in\<close> copies element by element, through the store.\<close>

fun copy_loop :: "nat \<Rightarrow> nat \<Rightarrow> nat list \<Rightarrow> store \<Rightarrow> store go" where
  "copy_loop a b [] h = Inr h"
| "copy_loop a b (i # is) h =
     go_bind (go_nth (cells h a) i) (\<lambda>c.
     go_bind (go_nth (cells h b) i) (\<lambda>to.
     go_bind (write_cell b i (Condition_DeepCopyInto c to) h) (copy_loop a b is)))"

definition CustomStatus_DeepCopyInto :: "nat option \<Rightarrow> store \<Rightarrow> (nat option \<times> store) go" where
  "CustomStatus_DeepCopyInto conds h =
     (case conds of
        None \<Rightarrow> Inr (None, h)
      | Some a \<Rightarrow>
          let (b, h) = alloc (replicate (length (cells h a)) zero_condition) h
          in go_bind (copy_loop a b [0..<length (cells h a)] h) (\<lambda>h. Inr (Some b, h)))"

definition Condition_DeepCopy :: "condition option \<Rightarrow> condition option" where
  "Condition_DeepCopy p = (case p of None \<Rightarrow> None | Some c \<Rightarrow> Some (Condition_DeepCopyInto c zero_condition))"

definition CustomStatus_DeepCopy :: "nat option option \<Rightarrow> store \<Rightarrow> (nat option option \<times> store) go" where
  "CustomStatus_DeepCopy p h =
     (case p of
        None \<Rightarrow> Inr (None, h)
      | Some conds \<Rightarrow> go_bind (CustomStatus_DeepCopyInto conds h) (\<lambda>(conds, h). Inr (Some conds, h)))"

definition CustomObject_DeepCopyInto :: "(object_meta \<Rightarrow> object_meta) \<Rightarrow> ref_object \<Rightarrow> store \<Rightarrow> (ref_object \<times> store) go" where
  "CustomObject_DeepCopyInto MetaDeepCopy ob h =
     (let to = ob; to = to\<lparr>ref_ObjectMeta := MetaDeepCopy (ref_ObjectMeta ob)\<rparr>
      in go_bind (CustomStatus_DeepCopyInto (ref_Conditions ob) h) (\<lambda>(conds, h). Inr (to\<lparr>ref_Conditions := conds\<rparr>, h)))"

definition CustomObject_DeepCopy ::
  "(object_meta \<Rightarrow> object_meta) \<Rightarrow> ref_object option \<Rightarrow> store \<Rightarrow> (ref_object option \<times> store) go" where
  "CustomObject_DeepCopy MetaDeepCopy p h =
     (case p of
        None \<Rightarrow> Inr (None, h)
      | Some ob \<Rightarrow> go_bind (CustomObject_DeepCopyInto MetaDeepCopy ob h) (\<lambda>(ob, h). Inr (Some ob, h)))"

definition CustomObject_DeepCopyObject ::
  "(object_meta \<Rightarrow> object_meta) \<Rightarrow> ref_object option \<Rightarrow> store \<Rightarrow> (ref_object option \<times> store) go" where
  "CustomObject_DeepCopyObject MetaDeepCopy p h =
     go_bind (CustomObject_DeepCopy MetaDeepCopy p h) (\<lambda>(c, h). Inr (case c of None \<Rightarrow> None | Some c \<Rightarrow> Some c, h))"

section \<open>Names\<close>

lemma upper_not_dash:
  assumes "65 \<le> n" and "n \<le> 90"
  shows "char_of (n + 32 :: nat) \<noteq> CHR ''-''"
proof
  assume "char_of (n + 32) = CHR ''-''"
  then have "of_char (char_of (n + 32) :: char) = (of_char CHR ''-'' :: nat)" by (rule arg_cong)
  with assms show False by simp
qed

lemma lower_dash: "CHR ''-'' \<in> set (ascii_lower s) \<longleftrightarrow> CHR ''-'' \<in> set s"
proof -
  define f where "f c = (if 65 \<le> (of_char c :: nat) \<and> (of_char c :: nat) \<le> 90 then char_of ((of_char c :: nat) + 32) else c)"
    for c :: char
  have "f c = CHR ''-'' \<longleftrightarrow> c = CHR ''-''" for c
  proof (cases "65 \<le> (of_char c :: nat) \<and> (of_char c :: nat) \<le> 90")
    case True
    then have "c \<noteq> CHR ''-''" by force
    with True upper_not_dash show ?thesis by (simp add: f_def)
  qed (simp only: f_def if_False)
  moreover have "ascii_lower s = map f s" by (simp only: ascii_lower_def f_def [abs_def])
  ultimately show ?thesis by (metis imageE image_eqI list.set_map)
qed

lemma lower_digits: "list_all is_digit s \<Longrightarrow> ascii_lower s = s"
  unfolding ascii_lower_def by (rule map_idI) (auto simp: list_all_iff is_digit_def)

lemma lower_append: "ascii_lower (s @ t) = ascii_lower s @ ascii_lower t"
  by (simp add: ascii_lower_def)

lemma lower_dash_alone: "ascii_lower ''-'' = ''-''"
  by code_simp

lemma random_name_eq:
  assumes "CHR ''-'' \<notin> set alnum" and "CHR ''-'' \<notin> set alnum'"
    and "ascii_lower (silly @ ''-'' @ FormatUint10 m @ ''-'' @ alnum) = ascii_lower (silly' @ ''-'' @ FormatUint10 n @ ''-'' @ alnum')"
  shows "m = n"
proof -
  have no_dash: "CHR ''-'' \<notin> set (FormatUint10 k)" for k
    using digits_format [of k] sign_not_digit(1) by (auto simp: list_all_iff)
  have "rev (ascii_lower (s @ ''-'' @ FormatUint10 k @ ''-'' @ t))
      = rev (ascii_lower t) @ CHR ''-'' # rev (FormatUint10 k) @ CHR ''-'' # rev (ascii_lower s)" for s t k
    using digits_format [of k] by (simp only: lower_append lower_dash_alone lower_digits) simp
  with assms(3) have "rev (ascii_lower alnum) @ CHR ''-'' # rev (FormatUint10 m) @ CHR ''-'' # rev (ascii_lower silly)
      = rev (ascii_lower alnum') @ CHR ''-'' # rev (FormatUint10 n) @ CHR ''-'' # rev (ascii_lower silly')" by metis
  then have "FormatUint10 m = FormatUint10 n"
    using assms(1,2) no_dash by (simp add: append_sep_eq lower_dash)
  then show ?thesis by (rule FormatUint10_inj)
qed


lemma RandomName_distinct:
  assumes "CHR ''-'' \<notin> set alnum" and "CHR ''-'' \<notin> set alnum'"
    and "0 < sint (m + 1)" and "0 < sint (n + 1)" and "m \<noteq> n"
  shows "fst (RandomName silly alnum m) \<noteq> fst (RandomName silly' alnum' n)"
proof
  assume "fst (RandomName silly alnum m) = fst (RandomName silly' alnum' n)"
  then have "nat (sint (m + 1)) = nat (sint (n + 1))"
    using assms(3,4) by (intro random_name_eq [OF assms(1,2)]) (simp add: RandomName_def FormatInt_def Let_def)
  with assms(3,4) have "sint (m + 1) = sint (n + 1)" by simp
  then have "m + 1 = n + 1" by (rule signed_word_eqI)
  with assms(5) show False by simp
qed

section \<open>Merging\<close>

text \<open>
  What the last of the values that is set gives. Merging with override keeps a value of the destination where the source has
  none, and the union of the labels.
\<close>

definition override :: "'a \<Rightarrow> 'a \<Rightarrow> 'a list \<Rightarrow> 'a" where
  "override none d xs = fold (\<lambda>x d. if x = none then d else x) xs d"

locale mergo =
  fixes M :: "'o client_object" and Merge :: "'o \<Rightarrow> 'o \<Rightarrow> string + 'o"
  assumes merges: "\<exists>ob. Merge d s = Inr ob
      \<and> client_GetName M ob = (if client_GetName M s = [] then client_GetName M d else client_GetName M s)
      \<and> client_GetNamespace M ob = (if client_GetNamespace M s = [] then client_GetNamespace M d else client_GetNamespace M s)
      \<and> client_GetGeneration M ob = (if client_GetGeneration M s = 0 then client_GetGeneration M d else client_GetGeneration M s)
      \<and> client_GetLabels M ob = client_GetLabels M d ++ client_GetLabels M s"
    and new: "client_GetLabels M (client_New M) = Map.empty"
    and name: "client_GetName M (client_SetName M x ob) = x"
      "client_GetName M (client_SetNamespace M x ob) = client_GetName M ob"
      "client_GetName M (client_SetGeneration M g ob) = client_GetName M ob"
      "client_GetName M (client_SetLabels M l ob) = client_GetName M ob"
      "client_GetName M (client_SetCreationTimestamp M t ob) = client_GetName M ob"
    and namespace: "client_GetNamespace M (client_SetNamespace M x ob) = x"
      "client_GetNamespace M (client_SetGeneration M g ob) = client_GetNamespace M ob"
      "client_GetNamespace M (client_SetLabels M l ob) = client_GetNamespace M ob"
      "client_GetNamespace M (client_SetCreationTimestamp M t ob) = client_GetNamespace M ob"
    and generation: "client_GetGeneration M (client_SetGeneration M g ob) = g"
      "client_GetGeneration M (client_SetLabels M l ob) = client_GetGeneration M ob"
      "client_GetGeneration M (client_SetCreationTimestamp M t ob) = client_GetGeneration M ob"
    and labels: "client_GetLabels M (client_SetName M x ob) = client_GetLabels M ob"
      "client_GetLabels M (client_SetNamespace M x ob) = client_GetLabels M ob"
      "client_GetLabels M (client_SetGeneration M g ob) = client_GetLabels M ob"
      "client_GetLabels M (client_SetLabels M l ob) = l"
      "client_GetLabels M (client_SetCreationTimestamp M t ob) = client_GetLabels M ob"
    and created: "client_GetCreationTimestamp M (client_SetCreationTimestamp M t ob) = t"
begin

lemmas client_laws = new name namespace generation labels created

lemma merge_all_merges:
  "\<exists>ob. merge_all Merge d srcs = Inr ob
     \<and> client_GetName M ob = override [] (client_GetName M d) (map (client_GetName M) srcs)
     \<and> client_GetNamespace M ob = override [] (client_GetNamespace M d) (map (client_GetNamespace M) srcs)
     \<and> client_GetGeneration M ob = override 0 (client_GetGeneration M d) (map (client_GetGeneration M) srcs)
     \<and> client_GetLabels M ob = fold (\<lambda>s l. l ++ client_GetLabels M s) srcs (client_GetLabels M d)"
proof (induction srcs arbitrary: d)
  case (Cons s srcs)
  obtain ob where "Merge d s = Inr ob"
    "client_GetName M ob = (if client_GetName M s = [] then client_GetName M d else client_GetName M s)"
    "client_GetNamespace M ob = (if client_GetNamespace M s = [] then client_GetNamespace M d else client_GetNamespace M s)"
    "client_GetGeneration M ob = (if client_GetGeneration M s = 0 then client_GetGeneration M d else client_GetGeneration M s)"
    "client_GetLabels M ob = client_GetLabels M d ++ client_GetLabels M s"
    using merges by blast
  with Cons.IH [of ob] show ?case by (simp add: override_def)
qed (simp add: override_def)

lemma fold_labels_other: "\<forall>s \<in> set srcs. client_GetLabels M s k = None
    \<Longrightarrow> fold (\<lambda>s l. l ++ client_GetLabels M s) srcs l k = l k"
  by (induction srcs arbitrary: l) (simp_all add: map_add_def)

lemma test_Object_makes:
  assumes "\<forall>s \<in> set (base # overrides). client_GetLabels M s DiscoveryLabel = None"
  shows "\<exists>ob. test_Object M Merge now silly alnum base overrides n = Inr (ob, n + 1)
    \<and> client_GetName M ob = override [] (fst (RandomName silly alnum n)) (map (client_GetName M) (base # overrides))
    \<and> client_GetNamespace M ob = override [] Namespace_Name (map (client_GetNamespace M) (base # overrides))
    \<and> client_GetGeneration M ob = override 0 1 (map (client_GetGeneration M) (base # overrides))
    \<and> client_GetLabels M ob DiscoveryLabel = Some (fst (RandomName silly alnum n))
    \<and> client_GetCreationTimestamp M ob = now"
proof -
  let ?x = "fst (RandomName silly alnum n)"
  let ?d = "client_SetGeneration M 1 (client_SetNamespace M Namespace_Name (client_SetName M ?x (client_New M)))"
  let ?d' = "client_SetLabels M (client_GetLabels M ?d ++ [DiscoveryLabel \<mapsto> client_GetName M ?d]) ?d"
  obtain ob where ob: "merge_all Merge ?d' (base # overrides) = Inr ob"
    "client_GetName M ob = override [] (client_GetName M ?d') (map (client_GetName M) (base # overrides))"
    "client_GetNamespace M ob = override [] (client_GetNamespace M ?d') (map (client_GetNamespace M) (base # overrides))"
    "client_GetGeneration M ob = override 0 (client_GetGeneration M ?d') (map (client_GetGeneration M) (base # overrides))"
    "client_GetLabels M ob = fold (\<lambda>s l. l ++ client_GetLabels M s) (base # overrides) (client_GetLabels M ?d')"
    using merge_all_merges [of ?d' "base # overrides"] by blast
  have "test_Object M Merge now silly alnum base overrides n = Inr (client_SetCreationTimestamp M now ob, n + 1)"
    using ob(1) by (simp add: test_Object_def Let_def case_prod_unfold RandomName_def del: merge_all.simps)
  moreover have "client_GetLabels M ob DiscoveryLabel = Some ?x"
    unfolding ob(5) fold_labels_other [OF assms] by (simp add: client_laws)
  ultimately show ?thesis by (simp add: client_laws ob(2-4))
qed

end


subsection \<open>Several objects\<close>

text \<open>Calls of \<open>Object\<close> one after the other, each with its random words, its base and its overrides.\<close>

fun test_Objects :: "'o client_object \<Rightarrow> ('o \<Rightarrow> 'o \<Rightarrow> string + 'o) \<Rightarrow> go_time
    \<Rightarrow> (string \<times> string \<times> 'o \<times> 'o list) list \<Rightarrow> 64 word \<Rightarrow> ('o list \<times> 64 word) go" where
  "test_Objects M Merge now [] n = Inr ([], n)"
| "test_Objects M Merge now ((silly, alnum, base, overrides) # cs) n =
     go_bind (test_Object M Merge now silly alnum base overrides n) (\<lambda>(ob, n).
     go_bind (test_Objects M Merge now cs n) (\<lambda>(obs, n). Inr (ob # obs, n)))"

text \<open>The object is what its base and overrides say, with the defaults of \<open>Object\<close> where they say nothing.\<close>

definition made_from :: "'o client_object \<Rightarrow> go_time \<Rightarrow> string \<times> string \<times> 'o \<times> 'o list \<Rightarrow> 'o \<Rightarrow> bool" where
  "made_from M now c ob = (case c of (silly, alnum, base, overrides) \<Rightarrow>
     \<exists>x. client_GetLabels M ob DiscoveryLabel = Some x
       \<and> client_GetName M ob = override [] x (map (client_GetName M) (base # overrides))
       \<and> client_GetNamespace M ob = override [] Namespace_Name (map (client_GetNamespace M) (base # overrides))
       \<and> client_GetGeneration M ob = override 0 1 (map (client_GetGeneration M) (base # overrides))
       \<and> client_GetCreationTimestamp M ob = now)"

definition unlabelled :: "'o client_object \<Rightarrow> string \<times> string \<times> 'o \<times> 'o list \<Rightarrow> bool" where
  "unlabelled M c = (case c of (silly, alnum, base, overrides) \<Rightarrow>
     \<forall>s \<in> set (base # overrides). client_GetLabels M s DiscoveryLabel = None)"

fun names_given :: "(string \<times> string \<times> 'o \<times> 'o list) list \<Rightarrow> 64 word \<Rightarrow> string list" where
  "names_given [] n = []"
| "names_given ((silly, alnum, _, _) # cs) n = fst (RandomName silly alnum n) # names_given cs (n + 1)"

lemma sint_of_nat: "k < 2 ^ 63 \<Longrightarrow> sint (of_nat k :: 64 word) = int k"
  by (simp add: signed_of_nat signed_take_bit_int_eq_self)

lemma names_given_later:
  assumes "x \<in> set (names_given cs (of_nat m))"
  shows "\<exists>k c. m \<le> k \<and> k < m + length cs \<and> c \<in> set cs \<and> x = fst (RandomName (fst c) (fst (snd c)) (of_nat k))"
  using assms
proof (induction cs arbitrary: m)
  case (Cons c cs)
  obtain silly alnum base overrides where c: "c = (silly, alnum, base, overrides)" by (cases c) auto
  from Cons.prems have "x = fst (RandomName silly alnum (of_nat m)) \<or> x \<in> set (names_given cs (of_nat (Suc m)))"
    by (simp add: c add.commute)
  then show ?case
  proof
    assume "x = fst (RandomName silly alnum (of_nat m))"
    then show ?thesis by (intro exI [of _ m] exI [of _ c]) (simp add: c)
  next
    assume "x \<in> set (names_given cs (of_nat (Suc m)))"
    from Cons.IH [OF this] obtain k d where "Suc m \<le> k" "k < Suc m + length cs" "d \<in> set cs"
      "x = fst (RandomName (fst d) (fst (snd d)) (of_nat k))" by blast
    then show ?thesis by (intro exI [of _ k] exI [of _ d]) simp
  qed
qed simp

lemma names_given_distinct:
  assumes "\<forall>c \<in> set cs. CHR ''-'' \<notin> set (fst (snd c))" and "m + length cs < 2 ^ 63"
  shows "distinct (names_given cs (of_nat m))"
  using assms
proof (induction cs arbitrary: m)
  case (Cons c cs)
  obtain silly alnum base overrides where c: "c = (silly, alnum, base, overrides)" by (cases c) auto
  have "fst (RandomName silly alnum (of_nat m)) \<notin> set (names_given cs (of_nat (Suc m)))"
  proof
    assume "fst (RandomName silly alnum (of_nat m)) \<in> set (names_given cs (of_nat (Suc m)))"
    from names_given_later [OF this] obtain k d where k: "Suc m \<le> k" "k < Suc m + length cs" "d \<in> set cs"
      "fst (RandomName silly alnum (of_nat m)) = fst (RandomName (fst d) (fst (snd d)) (of_nat k))" by blast
    have pos: "0 < sint (of_nat i + 1 :: 64 word)" if "i \<le> k" for i
      using sint_of_nat [of "Suc i"] that k(2) Cons.prems(2) by (simp add: add.commute)
    have "(of_nat m :: 64 word) \<noteq> of_nat k"
      using sint_of_nat [of m] sint_of_nat [of k] k(1,2) Cons.prems(2) by auto
    then show False
      using RandomName_distinct [of alnum "fst (snd d)" "of_nat m" "of_nat k"] pos [of m] pos [of k] k Cons.prems(1) c
      by force
  qed
  moreover have "distinct (names_given cs (of_nat (Suc m)))" using Cons by (intro Cons.IH) simp_all
  ultimately show ?case by (simp add: c add.commute)
qed simp

context mergo begin

lemma test_Objects_make:
  assumes "\<forall>c \<in> set cs. unlabelled M c"
  shows "\<exists>obs. test_Objects M Merge now cs n = Inr (obs, n + of_nat (length cs))
    \<and> list_all2 (made_from M now) cs obs
    \<and> map (\<lambda>ob. client_GetLabels M ob DiscoveryLabel) obs = map Some (names_given cs n)"
  using assms
proof (induction cs arbitrary: n)
  case (Cons c cs)
  obtain silly alnum base overrides where c: "c = (silly, alnum, base, overrides)" by (cases c) auto
  have "\<forall>s \<in> set (base # overrides). client_GetLabels M s DiscoveryLabel = None"
    using Cons.prems by (simp add: c unlabelled_def)
  from test_Object_makes [OF this, of now silly alnum n] obtain ob where
    ob: "test_Object M Merge now silly alnum base overrides n = Inr (ob, n + 1)" "made_from M now c ob"
      "client_GetLabels M ob DiscoveryLabel = Some (fst (RandomName silly alnum n))"
    by (auto simp: made_from_def c)
  from Cons obtain obs where "test_Objects M Merge now cs (n + 1) = Inr (obs, n + 1 + of_nat (length cs))"
    "list_all2 (made_from M now) cs obs"
    "map (\<lambda>ob. client_GetLabels M ob DiscoveryLabel) obs = map Some (names_given cs (n + 1))" by fastforce
  with ob show ?case by (intro exI [of _ "ob # obs"]) (simp add: c)
qed simp

end

section \<open>CustomObject\<close>

definition zero_object :: custom_object where
  "zero_object =
     \<lparr>ObjectMeta = \<lparr>meta_Namespace = [], meta_Name = [], meta_Generation = 0, meta_CreationTimestamp = 0,
        meta_DeletionTimestamp = None, meta_Labels = Map.empty, meta_Finalizers = []\<rparr>,
      Spec_Field1 = [], Spec_Field2 = [], Status_Conditions = []\<rparr>"

definition CustomClient :: "custom_object client_object" where
  "CustomClient =
     \<lparr>client_New = zero_object,
      client_GetName = (\<lambda>ob. meta_Name (ObjectMeta ob)),
      client_SetName = (\<lambda>x ob. ob\<lparr>ObjectMeta := (ObjectMeta ob)\<lparr>meta_Name := x\<rparr>\<rparr>),
      client_GetNamespace = (\<lambda>ob. meta_Namespace (ObjectMeta ob)),
      client_SetNamespace = (\<lambda>x ob. ob\<lparr>ObjectMeta := (ObjectMeta ob)\<lparr>meta_Namespace := x\<rparr>\<rparr>),
      client_GetGeneration = (\<lambda>ob. meta_Generation (ObjectMeta ob)),
      client_SetGeneration = (\<lambda>g ob. ob\<lparr>ObjectMeta := (ObjectMeta ob)\<lparr>meta_Generation := g\<rparr>\<rparr>),
      client_GetLabels = (\<lambda>ob. meta_Labels (ObjectMeta ob)),
      client_SetLabels = (\<lambda>l ob. ob\<lparr>ObjectMeta := (ObjectMeta ob)\<lparr>meta_Labels := l\<rparr>\<rparr>),
      client_GetCreationTimestamp = (\<lambda>ob. meta_CreationTimestamp (ObjectMeta ob)),
      client_SetCreationTimestamp = (\<lambda>t ob. ob\<lparr>ObjectMeta := (ObjectMeta ob)\<lparr>meta_CreationTimestamp := t\<rparr>\<rparr>)\<rparr>"

text \<open>Merging field by field with override.\<close>

definition merge_field :: "'a \<Rightarrow> ('r \<Rightarrow> 'a) \<Rightarrow> 'r \<Rightarrow> 'r \<Rightarrow> 'a" where
  "merge_field none f d s = (if f s = none then f d else f s)"

definition merge_meta :: "object_meta \<Rightarrow> object_meta \<Rightarrow> object_meta" where
  "merge_meta d s =
     \<lparr>meta_Namespace = merge_field [] meta_Namespace d s, meta_Name = merge_field [] meta_Name d s,
      meta_Generation = merge_field 0 meta_Generation d s,
      meta_CreationTimestamp = merge_field 0 meta_CreationTimestamp d s,
      meta_DeletionTimestamp = merge_field None meta_DeletionTimestamp d s,
      meta_Labels = meta_Labels d ++ meta_Labels s, meta_Finalizers = merge_field [] meta_Finalizers d s\<rparr>"

definition merge_custom :: "custom_object \<Rightarrow> custom_object \<Rightarrow> string + custom_object" where
  "merge_custom d s = Inr
     \<lparr>ObjectMeta = merge_meta (ObjectMeta d) (ObjectMeta s),
      Spec_Field1 = merge_field [] Spec_Field1 d s, Spec_Field2 = merge_field [] Spec_Field2 d s,
      Status_Conditions = merge_field [] Status_Conditions d s\<rparr>"

interpretation custom_merge: mergo CustomClient merge_custom
  by unfold_locales
    (simp_all add: CustomClient_def merge_custom_def merge_meta_def merge_field_def zero_object_def)


section \<open>Copies\<close>

lemma Condition_DeepCopyInto_eq: "Condition_DeepCopyInto c to = c"
  by (simp add: Condition_DeepCopyInto_def)

lemma copy_loop_copies:
  assumes "a \<noteq> b" and "k \<le> length (cells h a)" and "cells h b = take k (cells h a) @ zs"
    and "length (cells h b) = length (cells h a)"
  shows "\<exists>h'. copy_loop a b [k..<length (cells h a)] h = Inr h' \<and> cells h' = (cells h)(b := cells h a)
    \<and> next_cell h' = next_cell h"
  using assms
proof (induction "length (cells h a) - k" arbitrary: h k zs)
  case 0
  then have "copy_loop a b [k..<length (cells h a)] h = Inr h" "cells h b = cells h a" by auto
  then show ?case by (metis fun_upd_triv)
next
  case (Suc n)
  then have k: "k < length (cells h a)" by simp
  define h1 where "h1 = h\<lparr>cells := (cells h)(b := (cells h b)[k := cells h a ! k])\<rparr>"
  have "copy_loop a b [k..<length (cells h a)] h = copy_loop a b [Suc k..<length (cells h1 a)] h1"
    using k Suc.prems by (subst upt_rec) (simp add: h1_def write_cell_def Condition_DeepCopyInto_eq)
  moreover have "cells h1 a = cells h a" "next_cell h1 = next_cell h" "(cells h1)(b := cells h a) = (cells h)(b := cells h a)"
    using Suc.prems(1) by (simp_all add: h1_def)
  moreover have "cells h1 b = take (Suc k) (cells h a) @ tl zs"
    using Suc.prems(3,4) k by (cases zs) (auto simp: h1_def take_Suc_conv_app_nth list_update_append)
  moreover have "length (cells h1 b) = length (cells h a)" using Suc.prems(4) by (simp add: h1_def)
  ultimately show ?case using Suc.hyps(1) [of h1 "Suc k" "tl zs"] Suc.hyps(2) Suc.prems(1) k by simp
qed

text \<open>The object as a value, and that its conditions are in the store.\<close>

definition view :: "store \<Rightarrow> ref_object \<Rightarrow> custom_object" where
  "view h ob = \<lparr>ObjectMeta = ref_ObjectMeta ob, Spec_Field1 = ref_Field1 ob, Spec_Field2 = ref_Field2 ob,
     Status_Conditions = (case ref_Conditions ob of None \<Rightarrow> [] | Some a \<Rightarrow> cells h a)\<rparr>"

definition stored :: "store \<Rightarrow> ref_object \<Rightarrow> bool" where
  "stored h ob \<longleftrightarrow> (case ref_Conditions ob of None \<Rightarrow> True | Some a \<Rightarrow> a < next_cell h)"

text \<open>Code that changes conditions of an object in place, where they are.\<close>

fun write_conditions :: "ref_object \<Rightarrow> (nat \<times> condition) list \<Rightarrow> store \<Rightarrow> store" where
  "write_conditions ob [] h = h"
| "write_conditions ob ((i, c) # ws) h =
     write_conditions ob ws (case ref_Conditions ob of None \<Rightarrow> h | Some a \<Rightarrow>
       (case write_cell a i c h of Inl _ \<Rightarrow> h | Inr h \<Rightarrow> h))"

lemma write_conditions_frame:
  "ref_Conditions ob \<noteq> Some a \<Longrightarrow> cells (write_conditions ob ws h) a = cells h a"
  by (induction ob ws h rule: write_conditions.induct) (auto simp: write_cell_def split: option.splits)

lemma view_write_other:
  assumes "ref_Conditions ob = None \<or> ref_Conditions ob \<noteq> ref_Conditions ob'"
  shows "view (write_conditions ob' ws h) ob = view h ob"
  using assms write_conditions_frame [of ob'] by (cases "ref_Conditions ob") (auto simp: view_def)

lemma deep_copy_makes:
  assumes "stored h ob" and "\<forall>m. MetaDeepCopy m = m"
  shows "\<exists>ob' h'. CustomObject_DeepCopyObject MetaDeepCopy (Some ob) h = Inr (Some ob', h')
    \<and> view h' ob' = view h ob \<and> next_cell h \<le> next_cell h' \<and> (\<forall>a < next_cell h. cells h' a = cells h a)
    \<and> (case ref_Conditions ob of None \<Rightarrow> ref_Conditions ob' = None
        | Some _ \<Rightarrow> \<exists>b. ref_Conditions ob' = Some b \<and> next_cell h \<le> b \<and> b < next_cell h')"
proof (cases "ref_Conditions ob")
  case None
  with assms(2) show ?thesis
    by (simp add: CustomObject_DeepCopyObject_def CustomObject_DeepCopy_def CustomObject_DeepCopyInto_def
        CustomStatus_DeepCopyInto_def view_def)
next
  case (Some a)
  define b where "b = next_cell h"
  define h1 where "h1 = h\<lparr>cells := (cells h)(b := replicate (length (cells h a)) zero_condition), next_cell := Suc b\<rparr>"
  have a: "a < b" using assms(1) Some by (simp add: stored_def b_def)
  then obtain h' where h': "copy_loop a b [0..<length (cells h1 a)] h1 = Inr h'" "cells h' = (cells h1)(b := cells h1 a)"
      "next_cell h' = Suc b"
    using copy_loop_copies [of a b 0 h1 "cells h1 b"] by (auto simp: h1_def)
  have len: "cells h1 a = cells h a" using a by (simp add: h1_def)
  have "CustomObject_DeepCopyObject MetaDeepCopy (Some ob) h = Inr (Some (ob\<lparr>ref_Conditions := Some b\<rparr>), h')"
    using h'(1) assms(2) Some a unfolding len
    by (simp add: less_imp_neq CustomObject_DeepCopyObject_def CustomObject_DeepCopy_def CustomObject_DeepCopyInto_def
        CustomStatus_DeepCopyInto_def alloc_def h1_def b_def)
  then show ?thesis using Some a h'(2,3) len
    by (auto simp: view_def b_def h1_def)
qed

section \<open>Properties\<close>

text \<open>
  Property C37. Objects made for tests are told apart: however the bases and overrides of the calls look, as long as none of them sets
  the discovery label, every call returns an object; its name, namespace and generation are the last ones its base
  or overrides set, else a generated name, \<open>default\<close> and 1; its creation time is now; and its discovery label is the generated
  name, which no two of the objects share, whatever random words the names are made of.
\<close>

theorem test_objects_distinct:
  assumes "mergo M Merge" and "\<forall>c \<in> set cs. unlabelled M c" and "\<forall>c \<in> set cs. CHR ''-'' \<notin> set (fst (snd c))"
    and "m + length cs < 2 ^ 63"
  shows "\<exists>obs. test_Objects M Merge now cs (of_nat m) = Inr (obs, of_nat (m + length cs))
    \<and> list_all2 (made_from M now) cs obs \<and> distinct (map (\<lambda>ob. client_GetLabels M ob DiscoveryLabel) obs)"
proof -
  obtain obs where obs: "test_Objects M Merge now cs (of_nat m) = Inr (obs, of_nat m + of_nat (length cs))"
    "list_all2 (made_from M now) cs obs"
    "map (\<lambda>ob. client_GetLabels M ob DiscoveryLabel) obs = map Some (names_given cs (of_nat m))"
    using mergo.test_Objects_make [OF assms(1,2), of now "of_nat m"] by blast
  have "distinct (map Some (names_given cs (of_nat m)))"
    using names_given_distinct [OF assms(3,4)] by (simp only: distinct_map inj_Some inj_on_subset [OF inj_Some] subset_UNIV simp_thms)
  with obs show ?thesis by (intro exI [of _ obs]) simp
qed

definition named_object :: "string \<Rightarrow> custom_object" where
  "named_object x = zero_object\<lparr>ObjectMeta := (ObjectMeta zero_object)\<lparr>meta_Name := x\<rparr>\<rparr>"

theorem test_objects_distinct_witness:
  "\<exists>a b c. test_Objects CustomClient merge_custom 5 [(''Silly'', ''x7'', zero_object, []), (''Silly'', ''x7'', zero_object, []),
       (''Funny'', ''q'', named_object ''base'', [named_object ''given''])] 0 = Inr ([a, b, c], 3)
     \<and> meta_Name (ObjectMeta c) = ''given'' \<and> meta_Name (ObjectMeta a) \<noteq> meta_Name (ObjectMeta b)"
proof -
  let ?cs = "[(''Silly'', ''x7'', zero_object, []), (''Silly'', ''x7'', zero_object, []),
       (''Funny'', ''q'', named_object ''base'', [named_object ''given''])]"
  have "\<forall>c \<in> set ?cs. unlabelled CustomClient c"
    by (simp add: unlabelled_def CustomClient_def zero_object_def named_object_def)
  moreover have "\<forall>c \<in> set ?cs. CHR ''-'' \<notin> set (fst (snd c))" by simp
  ultimately obtain obs where obs: "test_Objects CustomClient merge_custom 5 ?cs 0 = Inr (obs, 3)"
      "list_all2 (made_from CustomClient 5) ?cs obs"
      "distinct (map (\<lambda>ob. client_GetLabels CustomClient ob DiscoveryLabel) obs)"
    using test_objects_distinct [OF custom_merge.mergo_axioms, of ?cs 0 5] by auto
  then obtain a b c where abc: "obs = [a, b, c]" by (auto simp: list_all2_Cons1)
  have "made_from CustomClient 5 (''Silly'', ''x7'', zero_object, []) a"
    "made_from CustomClient 5 (''Silly'', ''x7'', zero_object, []) b"
    "made_from CustomClient 5 (''Funny'', ''q'', named_object ''base'', [named_object ''given'']) c"
    using obs(2) by (simp_all add: abc)
  moreover have "client_GetLabels CustomClient a DiscoveryLabel \<noteq> client_GetLabels CustomClient b DiscoveryLabel"
    using obs(3) by (simp add: abc)
  ultimately have "meta_Name (ObjectMeta c) = ''given''" "meta_Name (ObjectMeta a) \<noteq> meta_Name (ObjectMeta b)"
    by (auto simp: made_from_def override_def CustomClient_def named_object_def zero_object_def)
  with obs(1) abc show ?thesis by blast
qed

text \<open>
  Property C38. A deep copy of an object is a second object: the copy always succeeds, reads the same, has no conditions slice exactly if
  the original has none, and leaves every object of the store as it was; conditions written in place into the copy
  never show in the original or in any object made before, nor do writes into one of these show in the copy.
\<close>

theorem deep_copy_isolated:
  assumes "stored h ob" and "stored h other" and "\<forall>m. MetaDeepCopy m = m"
  shows "\<exists>ob' h'. CustomObject_DeepCopyObject MetaDeepCopy (Some ob) h = Inr (Some ob', h')
    \<and> view h' ob' = view h ob \<and> view h' other = view h other
    \<and> (ref_Conditions ob' = None \<longleftrightarrow> ref_Conditions ob = None) \<and> stored h' ob' \<and> stored h' other
    \<and> (\<forall>ws. view (write_conditions ob' ws h') other = view h other)
    \<and> (\<forall>ws. view (write_conditions other ws h') ob' = view h ob)"
proof -
  obtain ob' h' where c: "CustomObject_DeepCopyObject MetaDeepCopy (Some ob) h = Inr (Some ob', h')"
    "view h' ob' = view h ob" "next_cell h \<le> next_cell h'" "\<forall>a < next_cell h. cells h' a = cells h a"
    "case ref_Conditions ob of None \<Rightarrow> ref_Conditions ob' = None
        | Some _ \<Rightarrow> \<exists>b. ref_Conditions ob' = Some b \<and> next_cell h \<le> b \<and> b < next_cell h'"
    using deep_copy_makes [OF assms(1,3)] by blast
  have apart: "ref_Conditions other = None \<or> ref_Conditions ob' = None \<or> ref_Conditions other \<noteq> ref_Conditions ob'"
    using assms(2) c(5) by (auto simp: stored_def split: option.splits)
  have "view h' other = view h other" using assms(2) c(4) by (auto simp: stored_def view_def split: option.splits)
  moreover have "view (write_conditions ob' ws h') other = view h' other" for ws
    using apart by (intro view_write_other) auto
  moreover have "view (write_conditions other ws h') ob' = view h' ob'" for ws
    using apart by (intro view_write_other) auto
  moreover have "stored h' ob'" "stored h' other" "ref_Conditions ob' = None \<longleftrightarrow> ref_Conditions ob = None"
    using assms(2) c(3,5) by (auto simp: stored_def split: option.splits)
  ultimately show ?thesis using c(1,2) by metis
qed

definition demo_store :: store where
  "demo_store = \<lparr>cells = (\<lambda>_. [])(0 := [zero_condition\<lparr>Type := ''Foo''\<rparr>]), next_cell = 1\<rparr>"

definition demo_ref :: ref_object where
  "demo_ref = \<lparr>ref_ObjectMeta = ObjectMeta zero_object, ref_Field1 = ''a'', ref_Field2 = [], ref_Conditions = Some 0\<rparr>"

theorem deep_copy_isolated_witness:
  "\<exists>ob' h'. CustomObject_DeepCopyObject (\<lambda>m. m) (Some demo_ref) demo_store = Inr (Some ob', h')
     \<and> Status_Conditions (view h' ob') = [zero_condition\<lparr>Type := ''Foo''\<rparr>]
     \<and> Status_Conditions (view (write_conditions ob' [(0, zero_condition)] h') demo_ref) = [zero_condition\<lparr>Type := ''Foo''\<rparr>]"
proof -
  have s: "stored demo_store demo_ref" by (simp add: stored_def demo_store_def demo_ref_def)
  have "Status_Conditions (view demo_store demo_ref) = [zero_condition\<lparr>Type := ''Foo''\<rparr>]"
    by (simp add: view_def demo_store_def demo_ref_def)
  moreover obtain ob' h' where "CustomObject_DeepCopyObject (\<lambda>m. m) (Some demo_ref) demo_store = Inr (Some ob', h')"
    "view h' ob' = view demo_store demo_ref"
    "\<And>ws. view (write_conditions ob' ws h') demo_ref = view demo_store demo_ref"
    using deep_copy_isolated [OF s s, of "\<lambda>m. m"] by auto
  ultimately show ?thesis by (intro exI [of _ ob'] exI [of _ h']) (simp del: write_conditions.simps)
qed

text \<open>The copy \<open>*out = *in\<close> the deep copy begins with shares the conditions.\<close>

lemma shallow_copy_shares:
  "view (write_conditions demo_ref [(0, zero_condition)] demo_store) (demo_ref\<lparr>ref_Field1 := ''b''\<rparr>)
     \<noteq> view demo_store (demo_ref\<lparr>ref_Field1 := ''b''\<rparr>)"
  by (simp add: view_def demo_ref_def demo_store_def write_cell_def zero_condition_def)

end
