(* ===== verification/Expectations.thy ===== *)
theory Expectations
  imports Backoff ClientMetrics "HOL-Library.AList"
begin

section \<open>Expectations of tests\<close>

text \<open>
  \<open>test/expectations/expectations.go\<close>: what a test does to an API server and expects of it. An expectation that does not hold
  fails the test, which is the panic \<open>Fatal\<close>. The API server is a parameter: a record of the calls of its client on a
  state \<open>'w\<close>, among them \<open>api_wait\<close>, what happens between two polls of \<open>Eventually\<close>. An object is the record of what the expectations read and
  write of it; the rest is its \<open>ko_spec\<close>, and \<open>ko_status\<close> is \<open>None\<close> if its type has no field \<open>Status\<close>.
\<close>

type_synonym key = "string \<times> string"

record ('p, 'st) kobject =
  ko_key :: key
  ko_ResourceVersion :: nat
  ko_DeletionTimestamp :: "go_time option"
  ko_Finalizers :: "string list"
  ko_is_Namespace :: bool
  ko_spec :: 'p
  ko_status :: "'st option"

datatype api_error = NotFoundError string | OtherError string

fun error_text :: "api_error \<Rightarrow> string" where
  "error_text (NotFoundError m) = m"
| "error_text (OtherError m) = m"

fun IsNotFound :: "api_error \<Rightarrow> bool" where
  "IsNotFound (NotFoundError _) = True"
| "IsNotFound (OtherError _) = False"

definition IgnoreNotFound :: "api_error option \<Rightarrow> api_error option" where
  "IgnoreNotFound e = (case e of Some e \<Rightarrow> if IsNotFound e then None else Some e | None \<Rightarrow> None)"

record ('p, 'st, 'w) api_client =
  api_Get :: "key \<Rightarrow> 'w \<Rightarrow> api_error + ('p, 'st) kobject"
  api_Create :: "('p, 'st) kobject \<Rightarrow> 'w \<Rightarrow> (api_error + ('p, 'st) kobject) \<times> 'w"
  api_Update :: "('p, 'st) kobject \<Rightarrow> 'w \<Rightarrow> (api_error + ('p, 'st) kobject) \<times> 'w"
  api_UpdateStatus :: "('p, 'st) kobject \<Rightarrow> 'w \<Rightarrow> (api_error + ('p, 'st) kobject) \<times> 'w"
  api_Patch :: "('p, 'st) kobject \<Rightarrow> ('p, 'st) kobject \<Rightarrow> 'w \<Rightarrow> api_error option \<times> 'w"
  api_Delete :: "key \<Rightarrow> 'w \<Rightarrow> api_error option \<times> 'w"
  api_List :: "'w \<Rightarrow> api_error + ('p, 'st) kobject list"
  api_ServiceAccount :: "string \<Rightarrow> 'w \<Rightarrow> api_error option"
  api_AddFinalizer :: "('p, 'st) kobject \<Rightarrow> string \<Rightarrow> ('p, 'st) kobject"
  api_wait :: "'w \<Rightarrow> 'w"

definition fail :: "api_error \<Rightarrow> 'a go" where "fail e = Inl (Fatal (error_text e))"

text \<open>
  \<open>Eventually\<close>: the function is tried once, and then as often as the polling interval fits into the timeout, until its
  expectations hold. A panic in it ends the test.
\<close>

fun Eventually :: "nat \<Rightarrow> ('s \<Rightarrow> (bool \<times> 's) go) \<Rightarrow> ('s \<Rightarrow> 's) \<Rightarrow> 's \<Rightarrow> 's go" where
  "Eventually 0 attempt wait s =
     go_bind (attempt s) (\<lambda>(ok, s). if ok then Inr s else Inl (Fatal ''Timed out''))"
| "Eventually (Suc n) attempt wait s =
     go_bind (attempt s) (\<lambda>(ok, s). if ok then Inr s else Eventually n attempt wait (wait s))"

subsection \<open>Reconcilers\<close>

definition ExpectReconciled :: "(request \<Rightarrow> 's \<Rightarrow> ('r \<times> api_error option) \<times> 's) \<Rightarrow> request \<Rightarrow> 's \<Rightarrow> ('r \<times> 's) go" where
  "ExpectReconciled rec req s = (case rec req s of ((r, err), s) \<Rightarrow> (case err of Some e \<Rightarrow> fail e | None \<Rightarrow> Inr (r, s)))"

text \<open>\<open>AsObjectReconciler\<close> stands for \<open>reconcile.AsReconciler\<close>, which gets the object a reconciler is called with.\<close>

definition ExpectObjectReconciled ::
  "('c \<Rightarrow> request \<Rightarrow> 's \<Rightarrow> ('r \<times> api_error option) \<times> 's) \<Rightarrow> 'c \<Rightarrow> request \<Rightarrow> 's \<Rightarrow> ('r \<times> 's) go" where
  "ExpectObjectReconciled AsObjectReconciler rec req s = ExpectReconciled (AsObjectReconciler rec) req s"

definition ExpectObjectReconcileFailed ::
  "('c \<Rightarrow> request \<Rightarrow> 's \<Rightarrow> ('r \<times> api_error option) \<times> 's) \<Rightarrow> 'c \<Rightarrow> request \<Rightarrow> 's \<Rightarrow> (api_error \<times> 's) go" where
  "ExpectObjectReconcileFailed AsObjectReconciler rec req s =
     (case AsObjectReconciler rec req s of ((r, err), s) \<Rightarrow>
        (case err of Some e \<Rightarrow> Inr (e, s) | None \<Rightarrow> Inl (Fatal ''expected an error'')))"

definition ExpectSingletonReconciled :: "(request, 'l) rate_limiter_ops \<Rightarrow> ('s \<Rightarrow> (result \<times> api_error option) \<times> 's)
    \<Rightarrow> 's \<times> 'l \<Rightarrow> (runtime_result \<times> 's \<times> 'l) go" where
  "ExpectSingletonReconciled L rec sl =
     (case singleton_AsReconciler L rec \<lparr>req_Namespace = [], req_Name = []\<rparr> sl of ((r, err), sl) \<Rightarrow>
        (case err of Some e \<Rightarrow> fail e | None \<Rightarrow> Inr (r, sl)))"

definition ExpectSingletonReconcileFailed :: "(request, 'l) rate_limiter_ops \<Rightarrow> ('s \<Rightarrow> (result \<times> api_error option) \<times> 's)
    \<Rightarrow> 's \<times> 'l \<Rightarrow> (api_error \<times> 's \<times> 'l) go" where
  "ExpectSingletonReconcileFailed L rec sl =
     (case singleton_AsReconciler L rec \<lparr>req_Namespace = [], req_Name = []\<rparr> sl of ((r, err), sl) \<Rightarrow>
        (case err of Some e \<Rightarrow> Inr (e, sl) | None \<Rightarrow> Inl (Fatal ''expected an error'')))"

text \<open>
  \<open>Expect(x)\<close> alone makes an assertion, which is checked only when \<open>To\<close> or \<open>ToNot\<close> is called on it. The next two functions do not.
\<close>

datatype 'a assertion = Expect 'a

definition ExpectRequeued :: "reconcile_result \<Rightarrow> unit go" where
  "ExpectRequeued result =
     (let assertion = Expect (result_Requeue result \<or> result_RequeueAfter result \<noteq> 0) in Inr ())"

definition ExpectNotRequeued :: "reconcile_result \<Rightarrow> unit go" where
  "ExpectNotRequeued result =
     (let assertion = Expect (\<not> result_Requeue result \<and> result_RequeueAfter result = 0) in Inr ())"

subsection \<open>Objects\<close>

definition ExpectObject :: "('p, 'st, 'w) api_client \<Rightarrow> ('p, 'st) kobject \<Rightarrow> 'w \<Rightarrow> ('p, 'st) kobject go" where
  "ExpectObject C ob w = (case api_Get C (ko_key ob) w of Inl e \<Rightarrow> fail e | Inr ob \<Rightarrow> Inr ob)"

fun ExpectNotFound :: "('p, 'st, 'w) api_client \<Rightarrow> ('p, 'st) kobject list \<Rightarrow> 'w \<Rightarrow> 'w go" where
  "ExpectNotFound C [] w = Inr w"
| "ExpectNotFound C (ob # obs) w =
     go_bind (Eventually 100
        (\<lambda>w. Inr (case api_Get C (ko_key ob) w of Inl e \<Rightarrow> IsNotFound e | Inr _ \<Rightarrow> False, w)) (api_wait C) w)
       (ExpectNotFound C obs)"

definition isStatusSet :: "'st \<Rightarrow> ('p, 'st) kobject \<Rightarrow> bool" where
  "isStatusSet zero ob = (case ko_status ob of None \<Rightarrow> False | Some s \<Rightarrow> s \<noteq> zero)"

definition isStatusEqual :: "('p, 'st) kobject \<Rightarrow> ('p, 'st) kobject \<Rightarrow> bool" where
  "isStatusEqual a b \<longleftrightarrow> ko_status a = ko_status b"

text \<open>
  The two polled functions of \<open>ExpectApplied\<close>. \<open>Create\<close>, \<open>Update\<close> and \<open>Get\<close> overwrite the object they are given with what the
  server returns.
\<close>

definition apply_attempt :: "('p, 'st, 'w) api_client \<Rightarrow> ('p, 'st) kobject \<times> ('p, 'st) kobject \<times> 'w
    \<Rightarrow> (bool \<times> ('p, 'st) kobject \<times> ('p, 'st) kobject \<times> 'w) go" where
  "apply_attempt C = (\<lambda>(ob, current, w). Inr
     (case api_Get C (ko_key current) w of
        Inl e \<Rightarrow>
          if IsNotFound e
          then (case api_Create C ob w of (Inl e, w) \<Rightarrow> (False, ob, current, w) | (Inr ob, w) \<Rightarrow> (True, ob, current, w))
          else (False, ob, current, w)
      | Inr current \<Rightarrow>
          let ob = ob\<lparr>ko_ResourceVersion := ko_ResourceVersion current\<rparr>
          in (case api_Update C ob w of (Inl e, w) \<Rightarrow> (False, ob, current, w) | (Inr ob, w) \<Rightarrow> (True, ob, current, w))))"

definition status_error_ok :: "api_error \<Rightarrow> bool" where
  "status_error_ok e \<longleftrightarrow> strings_Contains (error_text e) ''not found''
     \<or> strings_Contains (error_text e) ''the server could not find the requested resource''"

definition status_attempt :: "('p, 'st, 'w) api_client \<Rightarrow> 'st \<Rightarrow> ('p, 'st) kobject \<times> ('p, 'st) kobject \<times> 'w
    \<Rightarrow> (bool \<times> ('p, 'st) kobject \<times> ('p, 'st) kobject \<times> 'w) go" where
  "status_attempt C zero = (\<lambda>(statusCopy, current, w). Inr
     (case api_Get C (ko_key current) w of
        Inl e \<Rightarrow> (False, statusCopy, current, w)
      | Inr current \<Rightarrow>
          if isStatusSet zero statusCopy \<and> \<not> isStatusEqual current statusCopy
          then let statusCopy = statusCopy\<lparr>ko_ResourceVersion := ko_ResourceVersion current\<rparr>
               in (case api_UpdateStatus C statusCopy w of
                     (Inl e, w) \<Rightarrow> (status_error_ok e, statusCopy, current, w)
                   | (Inr statusCopy, w) \<Rightarrow> (True, statusCopy, current, w))
          else (True, statusCopy, current, w)))"

text \<open>What a test defers to its end: the objects whose finalizers are to be patched out.\<close>

type_synonym ('p, 'st) deferred = "('p, 'st) kobject list"

definition deletion_timestamp_set :: "('p, 'st, 'w) api_client \<Rightarrow> ('p, 'st) kobject \<Rightarrow> ('p, 'st) deferred \<times> 'w
    \<Rightarrow> (('p, 'st) kobject \<times> ('p, 'st) deferred \<times> 'w) go" where
  "deletion_timestamp_set C ob = (\<lambda>(d, w).
     (case api_Get C (ko_key ob) w of
        Inl e \<Rightarrow> fail e
      | Inr ob \<Rightarrow>
          if ptr_IsZero (ko_DeletionTimestamp ob)
          then (case api_Update C (api_AddFinalizer C ob ''testing/finalizer'') w of
                  (Inl e, w) \<Rightarrow> fail e
                | (Inr ob, w) \<Rightarrow>
                    (case api_Delete C (ko_key ob) w of (Some e, w) \<Rightarrow> fail e | (None, w) \<Rightarrow> Inr (ob, d @ [ob], w)))
          else Inr (ob, d, w)))"

fun ExpectDeletionTimestampSet :: "('p, 'st, 'w) api_client \<Rightarrow> ('p, 'st) kobject list \<Rightarrow> ('p, 'st) deferred \<times> 'w
    \<Rightarrow> (('p, 'st) kobject list \<times> ('p, 'st) deferred \<times> 'w) go" where
  "ExpectDeletionTimestampSet C [] s = Inr ([], s)"
| "ExpectDeletionTimestampSet C (ob # obs) s =
     go_bind (deletion_timestamp_set C ob s) (\<lambda>(ob, s).
     go_bind (ExpectDeletionTimestampSet C obs s) (\<lambda>(obs, s). Inr (ob # obs, s)))"

definition deferred_cleanup :: "('p, 'st, 'w) api_client \<Rightarrow> ('p, 'st) kobject \<Rightarrow> 'w \<Rightarrow> 'w go" where
  "deferred_cleanup C ob w =
     (case api_Patch C ob (ob\<lparr>ko_Finalizers := []\<rparr>) w of (err, w) \<Rightarrow>
        (case IgnoreNotFound err of Some e \<Rightarrow> fail e | None \<Rightarrow> Inr w))"

definition apply_object :: "('p, 'st, 'w) api_client \<Rightarrow> 'st \<Rightarrow> ('p, 'st) kobject \<Rightarrow> ('p, 'st) deferred \<times> 'w
    \<Rightarrow> (('p, 'st) kobject \<times> ('p, 'st) deferred \<times> 'w) go" where
  "apply_object C zero ob = (\<lambda>(d, w).
     let deletionTimestampSet = \<not> ptr_IsZero (ko_DeletionTimestamp ob);
         current = ob; statusCopy = ob;
         wait = (\<lambda>(a, b, w). (a, b, api_wait C w))
     in go_bind (Eventually 5 (apply_attempt C) wait (ob, current, w)) (\<lambda>(ob, current, w).
        go_bind (Eventually 5 (status_attempt C zero) wait (statusCopy, current, w)) (\<lambda>(_, _, w).
        go_bind (if ko_is_Namespace ob
                 then Eventually 60 (\<lambda>w. Inr (api_ServiceAccount C (snd (ko_key ob)) w = None, w)) (api_wait C) w
                 else Inr w) (\<lambda>w.
        go_bind (ExpectObject C ob w) (\<lambda>ob.
          if deletionTimestampSet then deletion_timestamp_set C ob (d, w) else Inr (ob, d, w))))))"

fun ExpectApplied :: "('p, 'st, 'w) api_client \<Rightarrow> 'st \<Rightarrow> ('p, 'st) kobject list \<Rightarrow> ('p, 'st) deferred \<times> 'w
    \<Rightarrow> (('p, 'st) kobject list \<times> ('p, 'st) deferred \<times> 'w) go" where
  "ExpectApplied C zero [] s = Inr ([], s)"
| "ExpectApplied C zero (ob # obs) s =
     go_bind (apply_object C zero ob s) (\<lambda>(ob, s).
     go_bind (ExpectApplied C zero obs s) (\<lambda>(obs, s). Inr (ob # obs, s)))"

fun ExpectStatusUpdated :: "('p, 'st, 'w) api_client \<Rightarrow> ('p, 'st) kobject list \<Rightarrow> 'w \<Rightarrow> (('p, 'st) kobject list \<times> 'w) go" where
  "ExpectStatusUpdated C [] w = Inr ([], w)"
| "ExpectStatusUpdated C (ob # obs) w =
     (case api_UpdateStatus C ob w of
        (Inl e, w) \<Rightarrow> fail e
      | (Inr _, w) \<Rightarrow> go_bind (ExpectObject C ob w) (\<lambda>ob.
          go_bind (ExpectStatusUpdated C obs w) (\<lambda>(obs, w). Inr (ob # obs, w))))"

text \<open>The second call of \<open>ExpectDeleted\<close> gets the object, and is content with finding it.\<close>

fun ExpectDeleted :: "('p, 'st, 'w) api_client \<Rightarrow> ('p, 'st) kobject list \<Rightarrow> 'w \<Rightarrow> 'w go" where
  "ExpectDeleted C [] w = Inr w"
| "ExpectDeleted C (ob # obs) w =
     (case api_Delete C (ko_key ob) w of (err, w) \<Rightarrow>
        (case IgnoreNotFound err of
           Some e \<Rightarrow> fail e
         | None \<Rightarrow>
             (case api_Get C (ko_key ob) w of
                Inl e \<Rightarrow> if IsNotFound e then ExpectDeleted C obs w else fail e
              | Inr _ \<Rightarrow> ExpectDeleted C obs w)))"


subsection \<open>Status conditions\<close>

definition condition_matches :: "condition option \<Rightarrow> condition \<Rightarrow> bool" where
  "condition_matches objCondition cond = (case objCondition of
     None \<Rightarrow> False
   | Some c \<Rightarrow> (Status cond = [] \<or> Status c = Status cond) \<and> (Message cond = [] \<or> Message c = Message cond)
       \<and> (Reason cond = [] \<or> Reason c = Reason cond))"

text \<open>\<open>get\<close> is \<open>c.Get\<close> for the object, \<open>clk\<close> the clock its \<open>StatusConditions\<close> reads; the interval is a twentieth of the timeout.\<close>

definition conditions_attempt :: "('w \<Rightarrow> api_error + 'o) \<Rightarrow> ('o, 'a) status_object \<Rightarrow> clock \<Rightarrow> condition list
    \<Rightarrow> 'w \<times> nat \<Rightarrow> (bool \<times> 'w \<times> nat) go" where
  "conditions_attempt get S clk conditions = (\<lambda>(w, n).
     (case get w of
        Inl e \<Rightarrow> Inr (False, w, n)
      | Inr ob \<Rightarrow> go_bind (StatusConditions S clk ob n) (\<lambda>(_, objStatus, n).
          Inr (list_all (\<lambda>cond. condition_matches (cs_Get (Conditions_ops S) objStatus (Type cond)) cond) conditions, w, n))))"

definition ExpectStatusConditions :: "('w \<Rightarrow> api_error + 'o) \<Rightarrow> ('w \<Rightarrow> 'w) \<Rightarrow> ('o, 'a) status_object \<Rightarrow> clock \<Rightarrow> condition list
    \<Rightarrow> 'w \<times> nat \<Rightarrow> ('w \<times> nat) go" where
  "ExpectStatusConditions get wait S clk conditions s =
     Eventually 20 (conditions_attempt get S clk conditions) (\<lambda>(w, n). (wait w, n)) s"

subsection \<open>Cleaning up\<close>

text \<open>
  One list of objects; the lists are cleaned up side by side, each of objects of its own kind. The result of a loop body is
  whether its expectations hold.
\<close>

definition cleanup_item :: "('p, 'st, 'w) api_client \<Rightarrow> bool \<Rightarrow> ('p, 'st) kobject \<Rightarrow> 'w \<Rightarrow> bool \<times> 'w" where
  "cleanup_item C force item w =
     (if force then
        (case api_Patch C item (item\<lparr>ko_Finalizers := []\<rparr>) w of
           (Some e, w) \<Rightarrow> (False, w)
         | (None, w) \<Rightarrow> (case api_Delete C (ko_key item) w of (err, w) \<Rightarrow> (IgnoreNotFound err = None, w)))
      else if ptr_IsZero (ko_DeletionTimestamp item) then
        (case api_Delete C (ko_key item) w of (err, w) \<Rightarrow> (IgnoreNotFound err = None, w))
      else (True, w))"

fun cleanup_items :: "('p, 'st, 'w) api_client \<Rightarrow> bool \<Rightarrow> ('p, 'st) kobject list \<Rightarrow> 'w \<Rightarrow> bool \<times> 'w" where
  "cleanup_items C force [] w = (True, w)"
| "cleanup_items C force (item # items) w =
     (case cleanup_item C force item w of (ok, w) \<Rightarrow> if ok then cleanup_items C force items w else (False, w))"

definition cleanup_attempt :: "('p, 'st, 'w) api_client \<Rightarrow> bool \<Rightarrow> 'w \<Rightarrow> (bool \<times> 'w) go" where
  "cleanup_attempt C force w = Inr
     (case api_List C w of
        Inl e \<Rightarrow> (False, w)
      | Inr items \<Rightarrow>
          (case cleanup_items C force items w of (ok, w) \<Rightarrow>
             if ok then (api_List C w = Inr [], w) else (False, w)))"

definition expectCleanedUp :: "('p, 'st, 'w) api_client \<Rightarrow> bool \<Rightarrow> 'w \<Rightarrow> 'w go" where
  "expectCleanedUp C force w = Eventually 100 (cleanup_attempt C force) (api_wait C) w"

definition ExpectCleanedUp :: "('p, 'st, 'w) api_client \<Rightarrow> 'w \<Rightarrow> 'w go" where
  "ExpectCleanedUp C = expectCleanedUp C False"

definition ExpectForceCleanedUp :: "('p, 'st, 'w) api_client \<Rightarrow> 'w \<Rightarrow> 'w go" where
  "ExpectForceCleanedUp C = expectCleanedUp C True"

subsection \<open>Metrics\<close>

record 'v prometheus_metric =
  metric_Label :: "(string \<times> string) list"
  metric_value :: 'v

record 'v metric_family =
  family_Name :: string
  family_Metric :: "'v prometheus_metric list"

text \<open>The inner loop takes every label of the metric that is asked for out of a copy of the labels.\<close>

definition unmatched :: "labels \<Rightarrow> (string \<times> string) list \<Rightarrow> labels" where
  "unmatched temp pairs = fold (\<lambda>(name, v) temp.
     if map_of temp name = Some v then filter (\<lambda>kv. fst kv \<noteq> name) temp else temp) pairs temp"

text \<open>\<open>gathered\<close> is what \<open>metrics.Registry.Gather\<close> returns, and nil is \<open>None\<close>.\<close>

definition GetMetric :: "string + 'v metric_family list \<Rightarrow> string \<Rightarrow> labels list \<Rightarrow> 'v prometheus_metric option go" where
  "GetMetric gathered name ls =
     (case gathered of
        Inl e \<Rightarrow> Inl (MustFailed e)
      | Inr families \<Rightarrow> Inr
          (case find (\<lambda>f. family_Name f = name) families of
             None \<Rightarrow> None
           | Some f \<Rightarrow> find (\<lambda>m. length (unmatched (lo_Assign ls) (metric_Label m)) = 0) (family_Metric f)))"

section \<open>Lemmas\<close>

lemma unmatched_set:
  assumes "distinct (map fst temp)"
  shows "set (unmatched temp pairs) = set temp - set pairs"
  using assms
proof (induction pairs arbitrary: temp)
  case Nil
  then show ?case by (simp add: unmatched_def)
next
  case (Cons p pairs)
  obtain name v where p: "p = (name, v)" by (cases p)
  define temp' where "temp' = (if map_of temp name = Some v then filter (\<lambda>kv. fst kv \<noteq> name) temp else temp)"
  have "distinct (map fst temp')" using Cons.prems by (simp add: temp'_def distinct_map_filter)
  moreover have "set temp' = set temp - {(name, v)}"
    using Cons.prems by (auto simp: temp'_def map_of_eq_Some_iff dest: eq_key_imp_eq_value)
  moreover have "unmatched temp (p # pairs) = unmatched temp' pairs" by (simp add: unmatched_def p temp'_def)
  ultimately show ?case using Cons.IH [of temp'] by (auto simp: p)
qed

lemma labels_ok_distinct: "labels_ok l \<Longrightarrow> distinct (map fst l)"
  by (simp add: labels_ok_def strict_sorted_iff)

lemma Eventually_first: "attempt s = Inr (True, s') \<Longrightarrow> Eventually n attempt wait s = Inr s'"
  by (cases n) simp_all

text \<open>Polling a state that only time changes: one of the polls has to succeed.\<close>

lemma Eventually_polls:
  "(\<exists>i \<le> n. Q ((wait ^^ i) w)) \<Longrightarrow> \<exists>i \<le> n. Eventually n (\<lambda>w. Inr (Q w, w)) wait w = Inr ((wait ^^ i) w)"
proof (induction n arbitrary: w)
  case (Suc n)
  show ?case
  proof (cases "Q w")
    case True
    then show ?thesis by (intro exI [of _ 0]) simp
  next
    case False
    from Suc.prems obtain i where "i \<le> Suc n" "Q ((wait ^^ i) w)" by blast
    with False obtain j where "j \<le> n" "Q ((wait ^^ j) (wait w))"
      by (cases i) (auto simp: funpow_swap1)
    from Suc.IH [of "wait w"] this obtain k where "k \<le> n"
      "Eventually n (\<lambda>w. Inr (Q w, w)) wait (wait w) = Inr ((wait ^^ k) (wait w))" by blast
    with False show ?thesis by (intro exI [of _ "Suc k"]) (simp add: funpow_swap1)
  qed
qed auto

section \<open>The contract of the API server\<close>

text \<open>
  What a Kubernetes API server is documented to do while nobody else writes: \<open>objects\<close> is its content, \<open>sub\<close> whether the types have the
  status as a subresource, which \<open>Create\<close> and \<open>Update\<close> then ignore. A write must carry the resource version that is stored, and changes it; an
  object with finalizers is not removed but gets a deletion timestamp, and is removed with its last finalizer. A namespace gets its service
  account within a minute.
\<close>

definition created :: "bool \<Rightarrow> 'st \<Rightarrow> nat \<Rightarrow> ('p, 'st) kobject \<Rightarrow> ('p, 'st) kobject" where
  "created sub zero v ob = ob\<lparr>ko_ResourceVersion := v, ko_DeletionTimestamp := None,
     ko_status := (if sub then map_option (\<lambda>_. zero) (ko_status ob) else ko_status ob)\<rparr>"

definition updated :: "bool \<Rightarrow> nat \<Rightarrow> ('p, 'st) kobject \<Rightarrow> ('p, 'st) kobject \<Rightarrow> ('p, 'st) kobject" where
  "updated sub v old ob = ob\<lparr>ko_ResourceVersion := v, ko_DeletionTimestamp := None,
     ko_status := (if sub then ko_status old else ko_status ob)\<rparr>"

locale kubernetes =
  fixes C :: "('p, 'st, 'w) api_client" and objects :: "'w \<Rightarrow> key \<Rightarrow> ('p, 'st) kobject option"
    and sub :: bool and zero :: 'st
  assumes keyed: "objects w k = Some ob \<Longrightarrow> ko_key ob = k"
    and get_found: "objects w k = Some ob \<Longrightarrow> api_Get C k w = Inr ob"
    and get_missing: "objects w k = None \<Longrightarrow> \<exists>m. api_Get C k w = Inl (NotFoundError m)"
    and create: "objects w (ko_key ob) = None \<Longrightarrow> ko_ResourceVersion ob = 0
      \<Longrightarrow> \<exists>v w'. api_Create C ob w = (Inr (created sub zero v ob), w')
        \<and> objects w' = (objects w)(ko_key ob \<mapsto> created sub zero v ob)"
    and update: "objects w (ko_key ob) = Some old \<Longrightarrow> ko_ResourceVersion ob = ko_ResourceVersion old
      \<Longrightarrow> ko_DeletionTimestamp old = None
      \<Longrightarrow> \<exists>v w'. api_Update C ob w = (Inr (updated sub v old ob), w')
        \<and> objects w' = (objects w)(ko_key ob \<mapsto> updated sub v old ob)"
    and update_status: "sub \<Longrightarrow> objects w (ko_key ob) = Some old \<Longrightarrow> ko_ResourceVersion ob = ko_ResourceVersion old
      \<Longrightarrow> \<exists>v w' new. new = old\<lparr>ko_ResourceVersion := v, ko_status := ko_status ob\<rparr>
        \<and> api_UpdateStatus C ob w = (Inr new, w') \<and> objects w' = (objects w)(ko_key ob \<mapsto> new)"
    and update_no_status: "\<not> sub \<Longrightarrow> \<exists>e. api_UpdateStatus C ob w = (Inl e, w) \<and> status_error_ok e"
    and delete_held: "objects w k = Some old \<Longrightarrow> ko_Finalizers old \<noteq> [] \<Longrightarrow> ko_DeletionTimestamp old = None
      \<Longrightarrow> \<exists>v t w'. t \<noteq> 0 \<and> api_Delete C k w = (None, w')
        \<and> objects w' = (objects w)(k \<mapsto> old\<lparr>ko_ResourceVersion := v, ko_DeletionTimestamp := Some t\<rparr>)"
    and delete_again: "objects w k = Some old \<Longrightarrow> ko_Finalizers old \<noteq> [] \<Longrightarrow> ko_DeletionTimestamp old \<noteq> None
      \<Longrightarrow> \<exists>w'. api_Delete C k w = (None, w') \<and> objects w' = objects w"
    and delete_free: "objects w k = Some old \<Longrightarrow> ko_Finalizers old = []
      \<Longrightarrow> \<exists>w'. api_Delete C k w = (None, w') \<and> objects w' = (objects w)(k := None)"
    and delete_missing: "objects w k = None \<Longrightarrow> \<exists>m. api_Delete C k w = (Some (NotFoundError m), w)"
    and patch_finalizers: "objects w (ko_key ob) = Some old \<Longrightarrow> ko_Finalizers ob \<noteq> []
      \<Longrightarrow> \<exists>v w'. api_Patch C ob (ob\<lparr>ko_Finalizers := []\<rparr>) w = (None, w')
        \<and> objects w' = (objects w)(ko_key ob := if ko_DeletionTimestamp old = None
            then Some (old\<lparr>ko_ResourceVersion := v, ko_Finalizers := []\<rparr>) else None)"
    and patch_nothing: "objects w (ko_key ob) = Some old
      \<Longrightarrow> \<exists>w'. api_Patch C ob ob w = (None, w') \<and> objects w' = objects w"
    and listing: "\<exists>xs. api_List C w = Inr xs \<and> distinct (map ko_key xs) \<and> set xs = ran (objects w)"
    and service_account: "\<exists>i \<le> 60. api_ServiceAccount C ns ((api_wait C ^^ i) w) = None"
    and wait: "objects (api_wait C w) = objects w"
    and add_finalizer: "api_AddFinalizer C ob f
      = ob\<lparr>ko_Finalizers := (if f \<in> set (ko_Finalizers ob) then ko_Finalizers ob else ko_Finalizers ob @ [f])\<rparr>"
begin

lemma waits: "objects ((api_wait C ^^ i) w) = objects w"
  by (induction i) (simp_all add: wait)

end


text \<open>An object that may be applied: a new one without a resource version, or one whose stored version is not being deleted.\<close>

definition applicable :: "(key \<Rightarrow> ('p, 'st) kobject option) \<Rightarrow> ('p, 'st) kobject \<Rightarrow> bool" where
  "applicable objs ob = (case objs (ko_key ob) of
     None \<Rightarrow> ko_ResourceVersion ob = 0
   | Some old \<Rightarrow> ko_DeletionTimestamp old = None)"

text \<open>What applying an object leaves in the server.\<close>

definition applied :: "'st \<Rightarrow> ('p, 'st) kobject \<Rightarrow> ('p, 'st) kobject \<Rightarrow> bool" where
  "applied zero ob st \<longleftrightarrow> ko_key st = ko_key ob \<and> ko_is_Namespace st = ko_is_Namespace ob \<and> ko_spec st = ko_spec ob
     \<and> (isStatusSet zero ob \<longrightarrow> ko_status st = ko_status ob)
     \<and> (ptr_IsZero (ko_DeletionTimestamp st) \<longleftrightarrow> ptr_IsZero (ko_DeletionTimestamp ob))
     \<and> ko_Finalizers st = (if ptr_IsZero (ko_DeletionTimestamp ob) \<or> ''testing/finalizer'' \<in> set (ko_Finalizers ob)
         then ko_Finalizers ob else ko_Finalizers ob @ [''testing/finalizer''])"

context kubernetes begin

lemma apply_attempt_applies:
  assumes "applicable (objects w) ob"
  shows "\<exists>st cur w'. apply_attempt C (ob, ob, w) = Inr (True, st, cur, w') \<and> objects w' = (objects w)(ko_key ob \<mapsto> st)
    \<and> ko_key cur = ko_key ob \<and> ko_key st = ko_key ob \<and> ko_is_Namespace st = ko_is_Namespace ob \<and> ko_spec st = ko_spec ob
    \<and> ko_Finalizers st = ko_Finalizers ob \<and> ko_DeletionTimestamp st = None \<and> (\<not> sub \<longrightarrow> ko_status st = ko_status ob)"
proof (cases "objects w (ko_key ob)")
  case None
  with assms have "ko_ResourceVersion ob = 0" by (simp add: applicable_def)
  from create [OF None this] get_missing [OF None] show ?thesis
    by (auto simp: apply_attempt_def created_def)
next
  case (Some old)
  with assms have "ko_DeletionTimestamp old = None" by (simp add: applicable_def)
  with update [of w "ob\<lparr>ko_ResourceVersion := ko_ResourceVersion old\<rparr>" old] get_found [OF Some] keyed [OF Some] Some
  show ?thesis by (auto simp: apply_attempt_def updated_def Let_def)
qed

lemma status_attempt_applies:
  assumes "objects w (ko_key ob) = Some st" and "ko_key cur = ko_key ob" and "\<not> sub \<Longrightarrow> ko_status st = ko_status ob"
  shows "\<exists>st' sc cur' w'. status_attempt C zero (ob, cur, w) = Inr (True, sc, cur', w')
    \<and> objects w' = (objects w)(ko_key ob \<mapsto> st') \<and> (\<exists>v s. st' = st\<lparr>ko_ResourceVersion := v, ko_status := s\<rparr>)
    \<and> (isStatusSet zero ob \<longrightarrow> ko_status st' = ko_status ob)"
proof (cases "isStatusSet zero ob \<and> ko_status st \<noteq> ko_status ob")
  case False
  have "st = st\<lparr>ko_ResourceVersion := ko_ResourceVersion st, ko_status := ko_status st\<rparr>" by simp
  moreover have "objects w = (objects w)(ko_key ob \<mapsto> st)" using assms(1) by auto
  moreover have "status_attempt C zero (ob, cur, w) = Inr (True, ob, st, w)"
    using False assms get_found [OF assms(1)] by (auto simp: status_attempt_def isStatusEqual_def)
  ultimately show ?thesis using False by blast
next
  case True
  with assms(3) have sub by auto
  from update_status [OF this, of w "ob\<lparr>ko_ResourceVersion := ko_ResourceVersion st\<rparr>" st] assms(1)
  obtain v w' where u: "api_UpdateStatus C (ob\<lparr>ko_ResourceVersion := ko_ResourceVersion st\<rparr>) w
      = (Inr (st\<lparr>ko_ResourceVersion := v, ko_status := ko_status ob\<rparr>), w')"
    "objects w' = (objects w)(ko_key ob \<mapsto> st\<lparr>ko_ResourceVersion := v, ko_status := ko_status ob\<rparr>)" by auto
  have "status_attempt C zero (ob, cur, w) = Inr (True, st\<lparr>ko_ResourceVersion := v, ko_status := ko_status ob\<rparr>, st, w')"
    using True assms get_found [OF assms(1)] u(1) by (simp add: status_attempt_def isStatusEqual_def Let_def)
  with u(2) show ?thesis
    by (intro exI [of _ "st\<lparr>ko_ResourceVersion := v, ko_status := ko_status ob\<rparr>"] exI) auto
qed

lemma deletion_timestamp_set_sets:
  assumes "objects w (ko_key ob) = Some st" and "ko_DeletionTimestamp st = None"
  shows "\<exists>ob' st' w'. deletion_timestamp_set C ob (d, w) = Inr (ob', d @ [ob'], w')
    \<and> objects w' = (objects w)(ko_key ob \<mapsto> st') \<and> ko_key ob' = ko_key ob \<and> ko_Finalizers ob' = ko_Finalizers st'
    \<and> (\<exists>v t. t \<noteq> 0 \<and> st' = st\<lparr>ko_ResourceVersion := v, ko_DeletionTimestamp := Some t, ko_Finalizers :=
        (if ''testing/finalizer'' \<in> set (ko_Finalizers st) then ko_Finalizers st
         else ko_Finalizers st @ [''testing/finalizer''])\<rparr>)"
proof -
  let ?f = "if ''testing/finalizer'' \<in> set (ko_Finalizers st) then ko_Finalizers st
    else ko_Finalizers st @ [''testing/finalizer'']"
  have k: "ko_key st = ko_key ob" using keyed [OF assms(1)] .
  from update [of w "st\<lparr>ko_Finalizers := ?f\<rparr>" st] assms k obtain v w1 where
    u: "api_Update C (st\<lparr>ko_Finalizers := ?f\<rparr>) w = (Inr (updated sub v st (st\<lparr>ko_Finalizers := ?f\<rparr>)), w1)"
    "objects w1 = (objects w)(ko_key ob \<mapsto> updated sub v st (st\<lparr>ko_Finalizers := ?f\<rparr>))" by auto
  define st1 where "st1 = updated sub v st (st\<lparr>ko_Finalizers := ?f\<rparr>)"
  have st1: "st1 = st\<lparr>ko_ResourceVersion := v, ko_Finalizers := ?f\<rparr>"
    using assms(2) by (simp add: st1_def updated_def)
  have "ko_Finalizers st1 \<noteq> []" "ko_DeletionTimestamp st1 = None" using assms(2) by (auto simp: st1)
  with delete_held [of w1 "ko_key ob" st1] u(2) obtain v' t w2 where
    e: "t \<noteq> 0" "api_Delete C (ko_key ob) w1 = (None, w2)"
    "objects w2 = (objects w1)(ko_key ob \<mapsto> st1\<lparr>ko_ResourceVersion := v', ko_DeletionTimestamp := Some t\<rparr>)"
    by (auto simp: st1_def)
  have "deletion_timestamp_set C ob (d, w) = Inr (st1, d @ [st1], w2)"
    using get_found [OF assms(1)] assms(2) u(1) e(2) k
    by (simp add: deletion_timestamp_set_def add_finalizer ptr_IsZero_def st1_def [symmetric]) (simp add: st1)
  moreover have "objects w2 = (objects w)(ko_key ob \<mapsto> st1\<lparr>ko_ResourceVersion := v', ko_DeletionTimestamp := Some t\<rparr>)"
    using e(3) u(2) by (simp add: st1_def [symmetric])
  moreover have "st1\<lparr>ko_ResourceVersion := v', ko_DeletionTimestamp := Some t\<rparr>
      = st\<lparr>ko_ResourceVersion := v', ko_DeletionTimestamp := Some t, ko_Finalizers := ?f\<rparr>" by (simp add: st1)
  moreover have "ko_key st1 = ko_key ob" "ko_Finalizers st1 = ?f" using k by (simp_all add: st1)
  ultimately show ?thesis using e(1)
    by - (rule exI [of _ st1], rule exI [of _ "st1\<lparr>ko_ResourceVersion := v', ko_DeletionTimestamp := Some t\<rparr>"],
      rule exI [of _ w2], auto)
qed

text \<open>Up to the deletion, \<open>ExpectApplied\<close> leaves the object with its spec and status in the server, and reads it back.\<close>

lemma apply_object_stores:
  assumes "applicable (objects w) ob"
  shows "\<exists>st w'. objects w' = (objects w)(ko_key ob \<mapsto> st) \<and> ko_key st = ko_key ob \<and> ko_is_Namespace st = ko_is_Namespace ob
    \<and> ko_spec st = ko_spec ob \<and> ko_Finalizers st = ko_Finalizers ob \<and> ko_DeletionTimestamp st = None
    \<and> (isStatusSet zero ob \<longrightarrow> ko_status st = ko_status ob)
    \<and> apply_object C zero ob (d, w)
      = (if \<not> ptr_IsZero (ko_DeletionTimestamp ob) then deletion_timestamp_set C st (d, w') else Inr (st, d, w'))"
proof -
  let ?wait = "\<lambda>(a, b, w). (a, b, api_wait C w)"
  obtain st1 cur w1 where 1: "apply_attempt C (ob, ob, w) = Inr (True, st1, cur, w1)"
    "objects w1 = (objects w)(ko_key ob \<mapsto> st1)" "ko_key cur = ko_key ob" "ko_key st1 = ko_key ob"
    "ko_is_Namespace st1 = ko_is_Namespace ob" "ko_spec st1 = ko_spec ob" "ko_Finalizers st1 = ko_Finalizers ob"
    "ko_DeletionTimestamp st1 = None" "\<not> sub \<longrightarrow> ko_status st1 = ko_status ob"
    using apply_attempt_applies [OF assms] by blast
  have "objects w1 (ko_key ob) = Some st1" by (simp add: 1(2))
  from status_attempt_applies [OF this 1(3)] 1(9) obtain st2 sc cur' w2 v s where
    2: "status_attempt C zero (ob, cur, w1) = Inr (True, sc, cur', w2)" "objects w2 = (objects w1)(ko_key ob \<mapsto> st2)"
      "st2 = st1\<lparr>ko_ResourceVersion := v, ko_status := s\<rparr>" "isStatusSet zero ob \<longrightarrow> ko_status st2 = ko_status ob" by blast
  obtain w3 where 3: "(if ko_is_Namespace ob
      then Eventually 60 (\<lambda>w. Inr (api_ServiceAccount C (snd (ko_key ob)) w = None, w)) (api_wait C) w2 else Inr w2) = Inr w3"
    "objects w3 = objects w2"
    using Eventually_polls [of 60 "\<lambda>w. api_ServiceAccount C (snd (ko_key ob)) w = None" "api_wait C" w2]
      service_account waits by (cases "ko_is_Namespace ob") auto
  have o3: "objects w3 = (objects w)(ko_key ob \<mapsto> st2)" using 1(2) 2(2) 3(2) by simp
  then have found: "objects w3 (ko_key ob) = Some st2" by simp
  have run: "apply_object C zero ob (d, w)
      = (if \<not> ptr_IsZero (ko_DeletionTimestamp ob) then deletion_timestamp_set C st2 (d, w3) else Inr (st2, d, w3))"
    using Eventually_first [of "apply_attempt C", OF 1(1), of 5 ?wait]
      Eventually_first [of "status_attempt C zero", OF 2(1), of 5 ?wait] 3(1) 1(4,5) get_found [OF found] 2(3)
    by (cases "ko_is_Namespace ob") (simp_all add: apply_object_def Let_def ExpectObject_def)
  show ?thesis
    by (rule exI [of _ st2], rule exI [of _ w3], intro conjI run o3 2(4)) (simp_all add: 1(4-8) 2(3))
qed

lemma apply_object_applies:
  assumes "applicable (objects w) ob"
  shows "\<exists>ob' d' w' st. apply_object C zero ob (d, w) = Inr (ob', d', w')
    \<and> objects w' = (objects w)(ko_key ob \<mapsto> st) \<and> applied zero ob st
    \<and> (ptr_IsZero (ko_DeletionTimestamp ob) \<longrightarrow> d' = d \<and> ob' = st)
    \<and> (\<not> ptr_IsZero (ko_DeletionTimestamp ob) \<longrightarrow> d' = d @ [ob'] \<and> ko_key ob' = ko_key ob \<and> ko_Finalizers ob' = ko_Finalizers st)"
proof -
  from apply_object_stores [OF assms, of d] obtain st w1 where
    1: "objects w1 = (objects w)(ko_key ob \<mapsto> st)" "ko_key st = ko_key ob" "ko_is_Namespace st = ko_is_Namespace ob"
      "ko_spec st = ko_spec ob" "ko_Finalizers st = ko_Finalizers ob" "ko_DeletionTimestamp st = None"
      "isStatusSet zero ob \<longrightarrow> ko_status st = ko_status ob"
    and run: "apply_object C zero ob (d, w)
      = (if \<not> ptr_IsZero (ko_DeletionTimestamp ob) then deletion_timestamp_set C st (d, w1) else Inr (st, d, w1))" by blast
  show ?thesis
  proof (cases "ptr_IsZero (ko_DeletionTimestamp ob)")
    case True
    with 1 have "applied zero ob st" by (simp add: applied_def ptr_IsZero_def)
    with True run 1(1) show ?thesis by auto
  next
    case False
    from 1(1,2) have found: "objects w1 (ko_key st) = Some st" by simp
    from deletion_timestamp_set_sets [OF found 1(6), of d] obtain ob' st' w2 v t where
      2: "deletion_timestamp_set C st (d, w1) = Inr (ob', d @ [ob'], w2)" "objects w2 = (objects w1)(ko_key st \<mapsto> st')"
        "ko_key ob' = ko_key st" "ko_Finalizers ob' = ko_Finalizers st'" "t \<noteq> 0"
        "st' = st\<lparr>ko_ResourceVersion := v, ko_DeletionTimestamp := Some t, ko_Finalizers :=
          (if ''testing/finalizer'' \<in> set (ko_Finalizers st) then ko_Finalizers st
           else ko_Finalizers st @ [''testing/finalizer''])\<rparr>" by blast
    have "applied zero ob st'"
      using False 1(2-5,7) 2(5,6) by (simp add: applied_def ptr_IsZero_def time_IsZero_def)
    moreover have "objects w2 = (objects w)(ko_key ob \<mapsto> st')" using 2(2) 1(1,2) by simp
    ultimately show ?thesis using False run 2(1,3,4) 1(2)
      by - (rule exI [of _ ob'], rule exI [of _ "d @ [ob']"], rule exI [of _ w2], rule exI [of _ st'], simp)
  qed
qed

lemma ExpectApplied_applies:
  assumes "distinct (map ko_key obs)" and "\<forall>ob \<in> set obs. applicable (objects w) ob"
  shows "\<exists>obs' d' w'. ExpectApplied C zero obs (d, w) = Inr (obs', d', w')
    \<and> (\<forall>ob \<in> set obs. \<exists>st. objects w' (ko_key ob) = Some st \<and> applied zero ob st)
    \<and> (\<forall>k. k \<notin> ko_key ` set obs \<longrightarrow> objects w' k = objects w k)"
  using assms
proof (induction obs arbitrary: d w)
  case (Cons ob obs)
  from apply_object_applies [of w ob d] Cons.prems obtain ob' d1 w1 st where
    1: "apply_object C zero ob (d, w) = Inr (ob', d1, w1)" "objects w1 = (objects w)(ko_key ob \<mapsto> st)" "applied zero ob st"
    by auto
  have "\<forall>x \<in> set obs. applicable (objects w1) x" using Cons.prems by (auto simp: 1(2) applicable_def image_iff)
  from Cons.IH [OF _ this, of d1] Cons.prems(1) obtain obs' d' w' where
    2: "ExpectApplied C zero obs (d1, w1) = Inr (obs', d', w')"
      "\<forall>ob \<in> set obs. \<exists>st. objects w' (ko_key ob) = Some st \<and> applied zero ob st"
      "\<forall>k. k \<notin> ko_key ` set obs \<longrightarrow> objects w' k = objects w1 k" by auto
  have "objects w' (ko_key ob) = Some st"
    using 2(3) [rule_format, of "ko_key ob"] Cons.prems(1) by (simp add: 1(2))
  moreover have "\<forall>k. k \<notin> ko_key ` set (ob # obs) \<longrightarrow> objects w' k = objects w k" using 2(3) by (simp add: 1(2))
  ultimately show ?case using 1(1,3) 2(1,2) by auto
qed simp

end


subsection \<open>Cleaning up\<close>

lemma Eventually_never:
  assumes "\<And>s. I s \<Longrightarrow> \<exists>s'. attempt s = Inr (False, s') \<and> I (wait s')" and "I s"
  shows "\<nexists>s'. Eventually n attempt wait s = Inr s'"
  using assms(2)
proof (induction n arbitrary: s)
  case 0
  with assms(1) show ?case by fastforce
next
  case (Suc n)
  with assms(1) [of s] show ?case by auto
qed

text \<open>An object that is being deleted is there because of its finalizers.\<close>

definition well_held :: "('p, 'st) kobject \<Rightarrow> bool" where
  "well_held ob \<longleftrightarrow> ko_DeletionTimestamp ob = None \<or> (\<not> ptr_IsZero (ko_DeletionTimestamp ob) \<and> ko_Finalizers ob \<noteq> [])"

context kubernetes begin

lemma deferred_cleanup_releases:
  assumes "objects w (ko_key ob) = Some st" and "ko_DeletionTimestamp st \<noteq> None" and "ko_Finalizers ob \<noteq> []"
  shows "\<exists>w'. deferred_cleanup C ob w = Inr w' \<and> objects w' = (objects w)(ko_key ob := None)"
  using patch_finalizers [OF assms(1,3)] assms(2) by (auto simp: deferred_cleanup_def IgnoreNotFound_def)

lemma cleanup_item_force:
  assumes "objects w (ko_key item) = Some item"
  shows "\<exists>w'. cleanup_item C True item w = (True, w') \<and> objects w' = (objects w)(ko_key item := None)"
proof (cases "ko_Finalizers item = []")
  case True
  then have "item\<lparr>ko_Finalizers := []\<rparr> = item" by simp
  with patch_nothing [OF assms] obtain w1 where
    "api_Patch C item (item\<lparr>ko_Finalizers := []\<rparr>) w = (None, w1)" "objects w1 = objects w" by auto
  with delete_free [of w1 "ko_key item" item] assms True show ?thesis
    by (auto simp: cleanup_item_def IgnoreNotFound_def)
next
  case False
  obtain v w1 where p: "api_Patch C item (item\<lparr>ko_Finalizers := []\<rparr>) w = (None, w1)"
    "objects w1 = (objects w)(ko_key item := if ko_DeletionTimestamp item = None
        then Some (item\<lparr>ko_ResourceVersion := v, ko_Finalizers := []\<rparr>) else None)"
    using patch_finalizers [OF assms False] by blast
  show ?thesis
  proof (cases "ko_DeletionTimestamp item")
    case None
    with p(2) have "objects w1 (ko_key item) = Some (item\<lparr>ko_ResourceVersion := v, ko_Finalizers := []\<rparr>)" by simp
    from delete_free [OF this] p None show ?thesis by (auto simp: cleanup_item_def IgnoreNotFound_def)
  next
    case (Some t)
    with p(2) have "objects w1 (ko_key item) = None" by simp
    from delete_missing [OF this] p Some show ?thesis by (auto simp: cleanup_item_def IgnoreNotFound_def)
  qed
qed

lemma cleanup_items_force:
  assumes "distinct (map ko_key items)" and "\<forall>item \<in> set items. objects w (ko_key item) = Some item"
  shows "\<exists>w'. cleanup_items C True items w = (True, w')
    \<and> objects w' = (\<lambda>k. if k \<in> ko_key ` set items then None else objects w k)"
  using assms
proof (induction items arbitrary: w)
  case (Cons item items)
  then obtain w1 where 1: "cleanup_item C True item w = (True, w1)" "objects w1 = (objects w)(ko_key item := None)"
    using cleanup_item_force [of w item] by auto
  have "\<forall>x \<in> set items. objects w1 (ko_key x) = Some x" using Cons.prems by (auto simp: 1(2) image_iff)
  from Cons.IH [OF _ this] Cons.prems(1) obtain w' where
    2: "cleanup_items C True items w1 = (True, w')"
    "objects w' = (\<lambda>k. if k \<in> ko_key ` set items then None else objects w1 k)" by auto
  have "objects w' = (\<lambda>k. if k \<in> ko_key ` set (item # items) then None else objects w k)"
    by (rule ext) (simp add: 2(2) 1(2))
  with 1(1) 2(1) show ?case by simp
qed simp

lemma listed:
  "\<exists>xs. api_List C w = Inr xs \<and> distinct (map ko_key xs) \<and> set xs = ran (objects w)
    \<and> (\<forall>x \<in> set xs. objects w (ko_key x) = Some x) \<and> ko_key ` set xs = dom (objects w)"
proof -
  obtain xs where xs: "api_List C w = Inr xs" "distinct (map ko_key xs)" "set xs = ran (objects w)"
    using listing by blast
  have "objects w (ko_key x) = Some x" if "x \<in> set xs" for x
  proof -
    from that xs(3) obtain k where "objects w k = Some x" by (auto simp: ran_def)
    with keyed show ?thesis by metis
  qed
  moreover from this have "ko_key ` set xs = dom (objects w)"
    using keyed by (fastforce simp: xs(3) ran_def dom_def image_iff)
  ultimately show ?thesis using xs by blast
qed

lemma list_empty: "api_List C w = Inr [] \<longleftrightarrow> objects w = Map.empty"
  using listed [of w] by (metis dom_eq_empty_conv image_is_empty set_empty sum.inject(2))

lemma force_cleans: "\<exists>w'. ExpectForceCleanedUp C w = Inr w' \<and> objects w' = Map.empty"
proof -
  obtain xs where xs: "api_List C w = Inr xs" "distinct (map ko_key xs)" "\<forall>x \<in> set xs. objects w (ko_key x) = Some x"
    "ko_key ` set xs = dom (objects w)" using listed by blast
  from cleanup_items_force [OF xs(2,3)] obtain w' where
    w: "cleanup_items C True xs w = (True, w')" "objects w' = (\<lambda>k. if k \<in> dom (objects w) then None else objects w k)"
    unfolding xs(4) by blast
  from w(2) have w': "objects w' = Map.empty" by (auto simp: fun_eq_iff dom_def)
  with w(1) have "cleanup_attempt C True w = Inr (True, w')" by (simp add: cleanup_attempt_def xs(1) list_empty)
  from Eventually_first [of "cleanup_attempt C True", OF this] w' show ?thesis
    by (auto simp: ExpectForceCleanedUp_def expectCleanedUp_def)
qed

lemma cleanup_item_waits:
  assumes "objects w (ko_key item) = Some item" and "well_held item"
  shows "\<exists>w'. cleanup_item C False item w = (True, w') \<and> (\<forall>k. k \<noteq> ko_key item \<longrightarrow> objects w' k = objects w k)
    \<and> (if ko_Finalizers item = [] then objects w' (ko_key item) = None
       else \<exists>ob. objects w' (ko_key item) = Some ob \<and> ko_Finalizers ob = ko_Finalizers item \<and> well_held ob)"
proof (cases "ko_DeletionTimestamp item")
  case None
  then have d: "cleanup_item C False item w
      = (case api_Delete C (ko_key item) w of (err, w) \<Rightarrow> (IgnoreNotFound err = None, w))"
    by (simp add: cleanup_item_def ptr_IsZero_def)
  show ?thesis
  proof (cases "ko_Finalizers item = []")
    case True
    from delete_free [OF assms(1) this] True d show ?thesis by (auto simp: IgnoreNotFound_def)
  next
    case False
    from delete_held [OF assms(1) this None] False d show ?thesis
      by (auto simp: IgnoreNotFound_def well_held_def ptr_IsZero_def time_IsZero_def)
  qed
next
  case (Some t)
  with assms(2) have "\<not> ptr_IsZero (ko_DeletionTimestamp item)" "ko_Finalizers item \<noteq> []" by (auto simp: well_held_def)
  with assms show ?thesis by (simp add: cleanup_item_def)
qed

lemma cleanup_items_wait:
  assumes "distinct (map ko_key items)" and "\<forall>item \<in> set items. objects w (ko_key item) = Some item \<and> well_held item"
  shows "\<exists>w'. cleanup_items C False items w = (True, w') \<and> (\<forall>k. k \<notin> ko_key ` set items \<longrightarrow> objects w' k = objects w k)
    \<and> (\<forall>item \<in> set items. if ko_Finalizers item = [] then objects w' (ko_key item) = None
       else \<exists>ob. objects w' (ko_key item) = Some ob \<and> ko_Finalizers ob = ko_Finalizers item \<and> well_held ob)"
  using assms
proof (induction items arbitrary: w)
  case (Cons item items)
  then obtain w1 where 1: "cleanup_item C False item w = (True, w1)"
    "\<forall>k. k \<noteq> ko_key item \<longrightarrow> objects w1 k = objects w k"
    "if ko_Finalizers item = [] then objects w1 (ko_key item) = None
       else \<exists>ob. objects w1 (ko_key item) = Some ob \<and> ko_Finalizers ob = ko_Finalizers item \<and> well_held ob"
    using cleanup_item_waits [of w item] by auto
  have "\<forall>x \<in> set items. objects w1 (ko_key x) = Some x \<and> well_held x" using Cons.prems 1(2) by (metis distinct.simps(2)
      image_eqI list.set_intros(2) list.set_map list.simps(9))
  from Cons.IH [OF _ this] Cons.prems(1) obtain w' where 2: "cleanup_items C False items w1 = (True, w')"
    "\<forall>k. k \<notin> ko_key ` set items \<longrightarrow> objects w' k = objects w1 k"
    "\<forall>item \<in> set items. if ko_Finalizers item = [] then objects w' (ko_key item) = None
       else \<exists>ob. objects w' (ko_key item) = Some ob \<and> ko_Finalizers ob = ko_Finalizers item \<and> well_held ob" by auto
  have "objects w' (ko_key item) = objects w1 (ko_key item)"
    using 2(2) [rule_format, of "ko_key item"] Cons.prems(1) by simp
  with 1 2 show ?case by simp
qed simp

definition held :: "'w \<Rightarrow> bool" where
  "held w \<longleftrightarrow> (\<forall>ob \<in> ran (objects w). well_held ob) \<and> (\<exists>ob \<in> ran (objects w). ko_Finalizers ob \<noteq> [])"

lemma cleanup_attempt_waits:
  assumes "\<forall>ob \<in> ran (objects w). well_held ob"
  shows "\<exists>w'. cleanup_attempt C False w = Inr (objects w' = Map.empty, w')
    \<and> (held w \<longrightarrow> held w') \<and> (\<not> held w \<longrightarrow> objects w' = Map.empty)"
proof -
  obtain xs where xs: "api_List C w = Inr xs" "distinct (map ko_key xs)" "set xs = ran (objects w)"
    "\<forall>x \<in> set xs. objects w (ko_key x) = Some x" "ko_key ` set xs = dom (objects w)" using listed by blast
  from cleanup_items_wait [OF xs(2), of w] xs(3,4) assms obtain w' where
    w': "cleanup_items C False xs w = (True, w')" "\<forall>k. k \<notin> dom (objects w) \<longrightarrow> objects w' k = objects w k"
    "\<forall>x \<in> set xs. if ko_Finalizers x = [] then objects w' (ko_key x) = None
       else \<exists>ob. objects w' (ko_key x) = Some ob \<and> ko_Finalizers ob = ko_Finalizers x \<and> well_held ob"
    unfolding xs(5) by auto
  have new: "\<exists>x \<in> set xs. k = ko_key x \<and> ko_Finalizers x \<noteq> [] \<and> well_held ob"
    if "objects w' k = Some ob" for k ob
  proof -
    from that w'(2) have "k \<in> dom (objects w)" by (metis domI)
    then obtain x where "x \<in> set xs" "k = ko_key x" using xs(5) by blast
    with w'(3) that show ?thesis by (metis option.distinct(1) option.inject)
  qed
  have "cleanup_attempt C False w = Inr (objects w' = Map.empty, w')"
    by (simp add: cleanup_attempt_def xs(1) w'(1) list_empty)
  moreover have "held w'" if "held w"
  proof -
    from that xs(3) obtain x where "x \<in> set xs" "ko_Finalizers x \<noteq> []" by (auto simp: held_def)
    with w'(3) obtain ob where "objects w' (ko_key x) = Some ob" "ko_Finalizers ob \<noteq> []" by metis
    moreover have "\<forall>ob \<in> ran (objects w'). well_held ob" using new unfolding ran_def by blast
    ultimately show ?thesis unfolding held_def ran_def by blast
  qed
  moreover have "objects w' = Map.empty" if "\<not> held w"
  proof
    fix k
    from that assms xs(3) have "\<forall>x \<in> set xs. ko_Finalizers x = []" by (auto simp: held_def)
    with new show "objects w' k = None" by (metis not_None_eq)
  qed
  ultimately show ?thesis by blast
qed

lemma cleaned_up_iff:
  assumes "\<forall>ob \<in> ran (objects w). well_held ob"
  shows "(\<exists>w'. ExpectCleanedUp C w = Inr w') \<longleftrightarrow> (\<forall>ob \<in> ran (objects w). ko_Finalizers ob = [])"
    and "\<forall>ob \<in> ran (objects w). ko_Finalizers ob = [] \<Longrightarrow> \<exists>w'. ExpectCleanedUp C w = Inr w' \<and> objects w' = Map.empty"
proof -
  have never: "\<nexists>w'. ExpectCleanedUp C w = Inr w'" if "held w"
    unfolding ExpectCleanedUp_def expectCleanedUp_def
  proof (rule Eventually_never [where I = held])
    fix s assume s: "held s"
    then have "\<forall>ob \<in> ran (objects s). well_held ob" by (simp add: held_def)
    from cleanup_attempt_waits [OF this] s obtain w' where
      "cleanup_attempt C False s = Inr (objects w' = Map.empty, w')" "held w'" by blast
    then show "\<exists>s'. cleanup_attempt C False s = Inr (False, s') \<and> held (api_wait C s')"
      by (intro exI [of _ w']) (auto simp: held_def wait)
  qed (rule that)
  have once: "\<exists>w'. ExpectCleanedUp C w = Inr w' \<and> objects w' = Map.empty" if "\<not> held w"
  proof -
    from cleanup_attempt_waits [OF assms] that obtain w' where
      w': "cleanup_attempt C False w = Inr (True, w')" "objects w' = Map.empty" by auto
    from Eventually_first [of "cleanup_attempt C False", OF w'(1)] w'(2) show ?thesis by (auto simp: ExpectCleanedUp_def expectCleanedUp_def)
  qed
  show "(\<exists>w'. ExpectCleanedUp C w = Inr w') \<longleftrightarrow> (\<forall>ob \<in> ran (objects w). ko_Finalizers ob = [])"
    using never once assms unfolding held_def by blast
  show "\<forall>ob \<in> ran (objects w). ko_Finalizers ob = [] \<Longrightarrow> \<exists>w'. ExpectCleanedUp C w = Inr w' \<and> objects w' = Map.empty"
    using once unfolding held_def by blast
qed

end


section \<open>A server as documented\<close>

text \<open>The objects under their keys, and the last resource version; whoever deletes an object does so at the instant 1.\<close>

record ('p, 'st) server =
  server_objects :: "(key \<times> ('p, 'st) kobject) list"
  server_version :: nat

definition server_lookup :: "('p, 'st) server \<Rightarrow> key \<Rightarrow> ('p, 'st) kobject option" where
  "server_lookup w k = map_option (\<lambda>ob. ob\<lparr>ko_key := k\<rparr>) (map_of (server_objects w) k)"

definition server_put :: "('p, 'st) kobject \<Rightarrow> ('p, 'st) server \<Rightarrow> ('p, 'st) server" where
  "server_put ob w = \<lparr>server_objects = AList.update (ko_key ob) ob (server_objects w), server_version = Suc (server_version w)\<rparr>"

definition server_remove :: "key \<Rightarrow> ('p, 'st) server \<Rightarrow> ('p, 'st) server" where
  "server_remove k w = w\<lparr>server_objects := AList.delete k (server_objects w)\<rparr>"

lemma server_lookup_put [simp]: "server_lookup (server_put ob w) = (server_lookup w)(ko_key ob \<mapsto> ob)"
  by (auto simp: server_lookup_def server_put_def AList.update_conv' fun_eq_iff)

lemma server_lookup_remove [simp]: "server_lookup (server_remove k w) = (server_lookup w)(k := None)"
  by (auto simp: server_lookup_def server_remove_def AList.delete_conv' fun_eq_iff)

lemma server_lookup_key: "server_lookup w k = Some ob \<Longrightarrow> ko_key ob = k"
  by (auto simp: server_lookup_def)

definition not_found :: api_error where "not_found = NotFoundError ''not found''"

definition server_write :: "('p, 'st) server \<Rightarrow> ('p, 'st) kobject \<Rightarrow> (api_error + ('p, 'st) kobject) \<times> ('p, 'st) server" where
  "server_write w ob = (Inr ob, server_put ob w)"

abbreviation next_version :: "('p, 'st) server \<Rightarrow> nat" where
  "next_version w \<equiv> Suc (server_version w)"

definition reference_client :: "bool \<Rightarrow> 'st \<Rightarrow> ('p, 'st, ('p, 'st) server) api_client" where
  "reference_client sub zero =
     \<lparr>api_Get = (\<lambda>k w. case server_lookup w k of None \<Rightarrow> Inl not_found | Some ob \<Rightarrow> Inr ob),
      api_Create = (\<lambda>ob w. if server_lookup w (ko_key ob) \<noteq> None \<or> ko_ResourceVersion ob \<noteq> 0
        then (Inl (OtherError ''invalid''), w) else server_write w (created sub zero (next_version w) ob)),
      api_Update = (\<lambda>ob w. case server_lookup w (ko_key ob) of
          None \<Rightarrow> (Inl not_found, w)
        | Some old \<Rightarrow> if ko_ResourceVersion ob \<noteq> ko_ResourceVersion old \<or> ko_DeletionTimestamp old \<noteq> None
            then (Inl (OtherError ''conflict''), w) else server_write w (updated sub (next_version w) old ob)),
      api_UpdateStatus = (\<lambda>ob w. if sub
        then (case server_lookup w (ko_key ob) of
            None \<Rightarrow> (Inl not_found, w)
          | Some old \<Rightarrow> if ko_ResourceVersion ob \<noteq> ko_ResourceVersion old
              then (Inl (OtherError ''conflict''), w) else server_write w (old\<lparr>ko_ResourceVersion := next_version w, ko_status := ko_status ob\<rparr>))
        else (Inl not_found, w)),
      api_Patch = (\<lambda>old new w. case server_lookup w (ko_key old) of
          None \<Rightarrow> (Some not_found, w)
        | Some ob \<Rightarrow> if ko_Finalizers old = ko_Finalizers new then (None, w)
            else if ko_Finalizers new = [] \<and> ko_DeletionTimestamp ob \<noteq> None then (None, server_remove (ko_key old) w)
            else (None, snd (server_write w (ob\<lparr>ko_ResourceVersion := next_version w, ko_Finalizers := ko_Finalizers new\<rparr>)))),
      api_Delete = (\<lambda>k w. case server_lookup w k of
          None \<Rightarrow> (Some not_found, w)
        | Some ob \<Rightarrow> if ko_Finalizers ob = [] then (None, server_remove k w)
            else if ko_DeletionTimestamp ob \<noteq> None then (None, w)
            else (None, snd (server_write w (ob\<lparr>ko_ResourceVersion := next_version w, ko_DeletionTimestamp := Some 1\<rparr>)))),
      api_List = (\<lambda>w. Inr (map (\<lambda>(k, ob). ob\<lparr>ko_key := k\<rparr>) (AList.clearjunk (server_objects w)))),
      api_ServiceAccount = (\<lambda>ns w. None),
      api_AddFinalizer = (\<lambda>ob f. ob\<lparr>ko_Finalizers :=
        (if f \<in> set (ko_Finalizers ob) then ko_Finalizers ob else ko_Finalizers ob @ [f])\<rparr>),
      api_wait = (\<lambda>w. w)\<rparr>"

lemma server_listing:
  "distinct (map ko_key (map (\<lambda>(k, ob). ob\<lparr>ko_key := k\<rparr>) (AList.clearjunk l)))"
  "set (map (\<lambda>(k, ob). ob\<lparr>ko_key := k\<rparr>) (AList.clearjunk l)) = ran (\<lambda>k. map_option (\<lambda>ob. ob\<lparr>ko_key := k\<rparr>) (map_of l k))"
proof -
  have "map ko_key (map (\<lambda>(k, ob). ob\<lparr>ko_key := k\<rparr>) (AList.clearjunk l)) = map fst (AList.clearjunk l)"
    by (simp add: case_prod_unfold)
  then show "distinct (map ko_key (map (\<lambda>(k, ob). ob\<lparr>ko_key := k\<rparr>) (AList.clearjunk l)))"
    using distinct_clearjunk [of l] by metis
  have "(k, ob) \<in> set (AList.clearjunk l) \<longleftrightarrow> map_of l k = Some ob" for k ob
    by (metis distinct_clearjunk map_of_clearjunk map_of_eq_Some_iff)
  then show "set (map (\<lambda>(k, ob). ob\<lparr>ko_key := k\<rparr>) (AList.clearjunk l))
      = ran (\<lambda>k. map_option (\<lambda>ob. ob\<lparr>ko_key := k\<rparr>) (map_of l k))"
    by (force simp: ran_def image_iff)
qed

interpretation reference_server: kubernetes
  "reference_client sub zero :: ('p, 'st, ('p, 'st) server) api_client" server_lookup sub "zero :: 'st"
proof
  fix w :: "('p, 'st) server" and ob old :: "('p, 'st) kobject" and k
  let ?C = "reference_client sub zero :: ('p, 'st, ('p, 'st) server) api_client"
  note defs = reference_client_def server_write_def
  show "\<exists>xs. api_List ?C w = Inr xs \<and> distinct (map ko_key xs) \<and> set xs = ran (server_lookup w)"
    using server_listing [of "server_objects w"] by (simp add: reference_client_def server_lookup_def [abs_def])
  show "\<exists>v w'. api_Create ?C ob w = (Inr (created sub zero v ob), w')
      \<and> server_lookup w' = (server_lookup w)(ko_key ob \<mapsto> created sub zero v ob)"
    if "server_lookup w (ko_key ob) = None" "ko_ResourceVersion ob = 0"
    using that by (intro exI [of _ "next_version w"]) (simp add: defs, simp add: created_def)
  show "\<exists>v w'. api_Update ?C ob w = (Inr (updated sub v old ob), w')
      \<and> server_lookup w' = (server_lookup w)(ko_key ob \<mapsto> updated sub v old ob)"
    if "server_lookup w (ko_key ob) = Some old" "ko_ResourceVersion ob = ko_ResourceVersion old" "ko_DeletionTimestamp old = None"
    using that by (intro exI [of _ "next_version w"]) (simp add: defs, simp add: updated_def)
  show "\<exists>v w' new. new = old\<lparr>ko_ResourceVersion := v, ko_status := ko_status ob\<rparr>
      \<and> api_UpdateStatus ?C ob w = (Inr new, w') \<and> server_lookup w' = (server_lookup w)(ko_key ob \<mapsto> new)"
    if "sub" "server_lookup w (ko_key ob) = Some old" "ko_ResourceVersion ob = ko_ResourceVersion old"
    using that server_lookup_key [OF that(2)] by (intro exI [of _ "next_version w"]) (simp add: defs)
  show "\<exists>v t w'. t \<noteq> 0 \<and> api_Delete ?C k w = (None, w')
      \<and> server_lookup w' = (server_lookup w)(k \<mapsto> old\<lparr>ko_ResourceVersion := v, ko_DeletionTimestamp := Some t\<rparr>)"
    if "server_lookup w k = Some old" "ko_Finalizers old \<noteq> []" "ko_DeletionTimestamp old = None"
    using that server_lookup_key [OF that(1)]
    by - (rule exI [of _ "next_version w"], rule exI [of _ 1], simp add: defs)
  show "\<exists>v w'. api_Patch ?C ob (ob\<lparr>ko_Finalizers := []\<rparr>) w = (None, w')
      \<and> server_lookup w' = (server_lookup w)(ko_key ob := if ko_DeletionTimestamp old = None
          then Some (old\<lparr>ko_ResourceVersion := v, ko_Finalizers := []\<rparr>) else None)"
    if "server_lookup w (ko_key ob) = Some old" "ko_Finalizers ob \<noteq> []"
    using that server_lookup_key [OF that(1)] by (intro exI [of _ "next_version w"]) (simp add: defs)
qed (auto simp: reference_client_def not_found_def status_error_ok_def split: option.splits dest: server_lookup_key)


section \<open>Properties\<close>

text \<open>
  Property C39. On an API server nobody else writes to, \<open>ExpectApplied\<close> brings about what a test asks for: it does not fail for objects
  with different keys that are new or not being deleted; afterwards the server has each of them with its spec, with its status if
  one is set, whether or not the status is a subresource, and it is being deleted exactly if the given object has a deletion timestamp, held back
  by a finalizer in that case; all other objects are as they were.
\<close>

theorem expect_applied:
  assumes "kubernetes C objects sub zero"
    and "distinct (map ko_key obs)" and "\<forall>ob \<in> set obs. applicable (objects w) ob"
  shows "\<exists>obs' d' w'. ExpectApplied C zero obs (d, w) = Inr (obs', d', w')
    \<and> (\<forall>ob \<in> set obs. \<exists>st. objects w' (ko_key ob) = Some st \<and> applied zero ob st)
    \<and> (\<forall>k. k \<notin> ko_key ` set obs \<longrightarrow> objects w' k = objects w k)"
  using kubernetes.ExpectApplied_applies [OF assms] .

definition demo_kobject :: "string \<Rightarrow> go_time option \<Rightarrow> nat option \<Rightarrow> (string, nat) kobject" where
  "demo_kobject x t s = \<lparr>ko_key = (''default'', x), ko_ResourceVersion = 0, ko_DeletionTimestamp = t, ko_Finalizers = [],
     ko_is_Namespace = False, ko_spec = ''spec of '' @ x, ko_status = s\<rparr>"

definition demo_server :: "(string, nat) server" where
  "demo_server = \<lparr>server_objects = [((''default'', ''old''), (demo_kobject ''old'' None (Some 1))\<lparr>ko_ResourceVersion := 3\<rparr>)],
     server_version = 3\<rparr>"

theorem expect_applied_witness:
  "\<exists>obs' d' w' a b. ExpectApplied (reference_client True 0) 0
       [demo_kobject ''new'' (Some 5) (Some 7), demo_kobject ''old'' None (Some 2)] ([], demo_server) = Inr (obs', d', w')
     \<and> server_lookup w' (''default'', ''new'') = Some a \<and> ko_status a = Some 7 \<and> ko_Finalizers a = [''testing/finalizer'']
     \<and> server_lookup w' (''default'', ''old'') = Some b \<and> ko_status b = Some 2 \<and> ko_spec b = ''spec of old''"
proof -
  let ?obs = "[demo_kobject ''new'' (Some 5) (Some 7), demo_kobject ''old'' None (Some 2)]"
  have d: "distinct (map ko_key ?obs)" by (simp add: demo_kobject_def)
  have a: "\<forall>ob \<in> set ?obs. applicable (server_lookup demo_server) ob"
    by (simp add: applicable_def demo_server_def server_lookup_def demo_kobject_def)
  obtain obs' d' w' where run: "ExpectApplied (reference_client True 0) 0 ?obs ([], demo_server) = Inr (obs', d', w')"
    "\<forall>ob \<in> set ?obs. \<exists>st. server_lookup w' (ko_key ob) = Some st \<and> applied 0 ob st"
    using expect_applied [OF reference_server.kubernetes_axioms d a, where d = "[]"] by blast
  then obtain x y where xy: "server_lookup w' (''default'', ''new'') = Some x" "applied 0 (demo_kobject ''new'' (Some 5) (Some 7)) x"
    "server_lookup w' (''default'', ''old'') = Some y" "applied 0 (demo_kobject ''old'' None (Some 2)) y"
    by (auto simp: demo_kobject_def)
  then have "ko_status x = Some 7" "ko_Finalizers x = [''testing/finalizer'']" "ko_status y = Some 2" "ko_spec y = ''spec of old''"
    by (simp_all add: applied_def demo_kobject_def isStatusSet_def ptr_IsZero_def time_IsZero_def)
  with run(1) xy(1,3) show ?thesis by blast
qed


definition demo_held :: "(string, nat) server" where
  "demo_held = server_put ((demo_kobject ''held'' None None)\<lparr>ko_Finalizers := [''a/b'']\<rparr>) demo_server"


text \<open>\<open>GetMetric\<close> returns the first metric of the family that has all the labels.\<close>

lemma get_metric_finds:
  "GetMetric (Inr families) name ls = Inr
     (case find (\<lambda>f. family_Name f = name) families of
        None \<Rightarrow> None
      | Some f \<Rightarrow> find (\<lambda>m. set (lo_Assign ls) \<subseteq> set (metric_Label m)) (family_Metric f))"
proof -
  have "unmatched (lo_Assign ls) ps = [] \<longleftrightarrow> set (lo_Assign ls) \<subseteq> set ps" for ps
    using unmatched_set [OF labels_ok_distinct [OF labels_ok_Assign], of ls ps] by (metis Diff_eq_empty_iff set_empty)
  then show ?thesis by (simp add: GetMetric_def split: option.split)
qed

text \<open>The two expectations on requeues hold of every result, and \<open>ExpectDeleted\<close> passes for an object that is still there.\<close>

lemma requeue_expectations_vacuous:
  "ExpectRequeued result = Inr ()" "ExpectNotRequeued result = Inr ()"
  by (simp_all add: ExpectRequeued_def ExpectNotRequeued_def Let_def)

lemma deleted_but_there:
  "\<exists>w' ob. ExpectDeleted (reference_client True 0) [demo_kobject ''held'' None None] demo_held = Inr w'
     \<and> server_lookup w' (''default'', ''held'') = Some ob"
  by (simp add: demo_held_def demo_kobject_def reference_client_def server_write_def IgnoreNotFound_def)

end
